(* ===== verification/Prelude.thy ===== *)
theory Prelude
  imports Main "HOL-Library.Word"
begin

text \<open>
  The vocabulary of the development: the outcome of a C function that may run into undefined
  behaviour, the state of a process, the \<open>char **error\<close> out-parameter, C strings and the
  collections of rewrite rules the component theories share.
\<close>

section \<open>Undefined behaviour and outcomes\<close>

text \<open>
  A C function either returns or leaves the defined part of the language.  Every source of
  undefined behaviour that the code can reach has a constructor, so that absence of undefined
  behaviour is a statement about a value and not an assumption.
\<close>

datatype ub =
    Invalid_Free      \<comment> \<open>\<open>free\<close> of a pointer that \<open>malloc\<close> did not return\<close>
  | Null_Deref        \<comment> \<open>read, write or call through a null pointer\<close>
  | Out_Of_Bounds     \<comment> \<open>access outside an array\<close>
  | Dangling_Pointer  \<comment> \<open>access to an object whose memory was given back\<close>
  | Uninit_Read       \<comment> \<open>use of an indeterminate value\<close>
  | Bad_Format        \<comment> \<open>\<open>printf\<close> arguments that do not fit the format\<close>
  | Bad_Call          \<comment> \<open>call of a function through a pointer of an incompatible type\<close>
  | Overflow          \<comment> \<open>a number that its type cannot represent\<close>
  | Bad_Shift         \<comment> \<open>shift by a negative number or by the width of the type or more\<close>
  | No_More_Arguments \<comment> \<open>\<open>va_arg\<close> after the last argument of the call\<close>
  | Assert_Failed     \<comment> \<open>\<open>assert\<close> with a false argument: the process aborts\<close>

datatype 'a outcome = Ret 'a | Undef ub

fun andthen :: "'a outcome \<Rightarrow> ('a \<Rightarrow> 'b outcome) \<Rightarrow> 'b outcome" where
  "andthen (Ret x) f = f x"
| "andthen (Undef u) f = Undef u"

definition defined :: "'a outcome \<Rightarrow> bool" where
  "defined x = (case x of Ret _ \<Rightarrow> True | Undef _ \<Rightarrow> False)"

section \<open>Memory cells\<close>

definition peek :: "'a list \<Rightarrow> nat \<Rightarrow> 'a outcome" where
  "peek m i = (if i < length m then Ret (m ! i) else Undef Out_Of_Bounds)"

definition poke :: "'a list \<Rightarrow> nat \<Rightarrow> 'a \<Rightarrow> 'a list outcome" where
  "poke m i v = (if i < length m then Ret (m[i := v]) else Undef Out_Of_Bounds)"

text \<open>\<open>write_at m i vs\<close> stores the consecutive values \<open>vs\<close> from index \<open>i\<close> on.\<close>

definition write_at :: "'a list \<Rightarrow> nat \<Rightarrow> 'a list \<Rightarrow> 'a list outcome" where
  "write_at m i vs =
     (if i + length vs \<le> length m then Ret (take i m @ vs @ drop (i + length vs) m)
      else Undef Out_Of_Bounds)"

section \<open>C strings\<close>

abbreviation NUL :: char where
  "NUL \<equiv> CHR 0x00"

text \<open>
  A \<open>char *\<close> argument is represented by the characters before its terminator, a character
  array by all its cells.  \<open>c_str\<close> reads the string that starts an array; reading an array
  without a terminator runs out of it.
\<close>

definition c_str :: "char list \<Rightarrow> string outcome" where
  "c_str m = (if NUL \<in> set m then Ret (takeWhile (\<lambda>c. c \<noteq> NUL) m) else Undef Out_Of_Bounds)"

text \<open>The text in an array of characters: what precedes its first null character.\<close>

definition message_text :: "char list \<Rightarrow> string" where
  "message_text m = takeWhile (\<lambda>c. c \<noteq> NUL) m"

text \<open>\<open>strchr\<close> as the index of the first occurrence.\<close>

fun strchr :: "string \<Rightarrow> char \<Rightarrow> nat option" where
  "strchr [] c = None"
| "strchr (x # xs) c = (if x = c then Some 0 else map_option Suc (strchr xs c))"

section \<open>Formatted messages and the error out-parameter\<close>

text \<open>
  A message is kept as its format with its arguments.  \<open>char **error\<close> is \<open>None\<close> for a null
  pointer, \<open>Some None\<close> for a pointer to a null \<open>char *\<close> and \<open>Some (Some m)\<close> for a pointer to
  the message \<open>m\<close>.
\<close>

datatype carg = SArg string | IArg int | CArg char | PArg

type_synonym cmsg = "string \<times> carg list"

type_synonym errp = "cmsg option option"

section \<open>Processes and system calls\<close>

text \<open>
  The state of a process: everything outside it (kernel, file system, heap allocator) is the
  opaque \<open>world\<close>, which only the calls of the platform read and change; \<open>errno\<close>, the file mode
  creation mask and what was written to the diagnostic stream are kept explicitly.
\<close>

record 'w proc =
  world :: 'w
  errno :: nat
  umask :: nat
  stderr_log :: "cmsg list"

datatype 'a sysret = Ok 'a | Err nat

text \<open>A system call: a failing one sets \<open>errno\<close>.\<close>

definition syscall :: "('w \<Rightarrow> 'a sysret \<times> 'w) \<Rightarrow> 'w proc \<Rightarrow> 'a sysret \<times> 'w proc" where
  "syscall f s =
     (case f (world s) of
        (Ok r, w) \<Rightarrow> (Ok r, s\<lparr>world := w\<rparr>)
      | (Err n, w) \<Rightarrow> (Err n, s\<lparr>world := w, errno := n\<rparr>))"

definition set_umask :: "nat \<Rightarrow> 'w proc \<Rightarrow> nat \<times> 'w proc" where
  "set_umask m s = (umask s, s\<lparr>umask := m\<rparr>)"

definition log_msg :: "cmsg \<Rightarrow> 'w proc \<Rightarrow> 'w proc" where
  "log_msg m s = s\<lparr>stderr_log := stderr_log s @ [m]\<rparr>"

text \<open>
  The calls of the C library whose result the program cannot foresee: whether an allocation
  of some bytes succeeds, the length that \<open>vsnprintf\<close> reports for a message (none for a
  negative result), and the texts of \<open>strerror\<close> and \<open>gai_strerror\<close>; \<open>big_endian\<close> is the byte
  order of the machine and \<open>strtoul_einval\<close> says whether \<open>strtoul\<close> sets \<open>EINVAL\<close> when it finds
  no digit, which the standard leaves open.
\<close>

record 'w libc =
  malloc :: "nat \<Rightarrow> 'w \<Rightarrow> bool \<times> 'w"
  vsnprintf_len :: "cmsg \<Rightarrow> nat option"
  strerror :: "nat \<Rightarrow> string"
  gai_strerror :: "nat \<Rightarrow> string"
  big_endian :: bool
  strtoul_einval :: bool

definition alloc :: "'w libc \<Rightarrow> nat \<Rightarrow> 'w proc \<Rightarrow> bool \<times> 'w proc" where
  "alloc lc n s = (case malloc lc n (world s) of (ok, w) \<Rightarrow> (ok, s\<lparr>world := w\<rparr>))"

section \<open>Collections of rules\<close>

named_theorems outcome_simps "elimination and evaluation of outcomes"
named_theorems frame_simps "the parts of a state that an operation leaves alone"

lemma andthen_Ret_iff [outcome_simps]:
  "andthen x f = Ret r \<longleftrightarrow> (\<exists>y. x = Ret y \<and> f y = Ret r)"
  by (cases x) auto

lemma andthen_Undef_iff [outcome_simps]:
  "andthen x f = Undef u \<longleftrightarrow> x = Undef u \<or> (\<exists>y. x = Ret y \<and> f y = Undef u)"
  by (cases x) auto

lemma andthenE:
  assumes "andthen x f = Ret r" and "\<And>y. x = Ret y \<Longrightarrow> f y = Ret r \<Longrightarrow> P"
  shows P
  using assms by (cases x) auto

lemma andthen_assoc: "andthen (andthen x f) g = andthen x (\<lambda>y. andthen (f y) g)"
  by (cases x) auto

lemma defined_simps [simp]: "defined (Ret x)" "\<not> defined (Undef u)"
  by (simp_all add: defined_def)

lemma defined_iff: "defined x \<longleftrightarrow> (\<exists>r. x = Ret r)"
  by (cases x) auto

lemma defined_andthen [outcome_simps]:
  "defined (andthen x f) \<longleftrightarrow> (\<exists>y. x = Ret y \<and> defined (f y))"
  by (cases x) auto

lemma peek_Ret_iff [outcome_simps]: "peek m i = Ret v \<longleftrightarrow> i < length m \<and> v = m ! i"
  by (auto simp: peek_def)

lemma poke_Ret_iff [outcome_simps]: "poke m i v = Ret m' \<longleftrightarrow> i < length m \<and> m' = m[i := v]"
  by (auto simp: poke_def)

lemma write_at_Ret_iff [outcome_simps]:
  "write_at m i vs = Ret m' \<longleftrightarrow>
     i + length vs \<le> length m \<and> m' = take i m @ vs @ drop (i + length vs) m"
  by (auto simp: write_at_def)

lemma length_write_at: "write_at m i vs = Ret m' \<Longrightarrow> length m' = length m"
  by (auto simp: outcome_simps)

lemma syscall_frame [frame_simps]:
  "umask (snd (syscall f s)) = umask s"
  "stderr_log (snd (syscall f s)) = stderr_log s"
  by (simp_all add: syscall_def split: prod.splits sysret.splits)

lemma alloc_frame [frame_simps]:
  "errno (snd (alloc lc n s)) = errno s"
  "umask (snd (alloc lc n s)) = umask s"
  "stderr_log (snd (alloc lc n s)) = stderr_log s"
  by (simp_all add: alloc_def split: prod.splits)

lemma syscall_Ok: "syscall f s = (Ok r, s') \<Longrightarrow> umask s' = umask s \<and> errno s' = errno s \<and> stderr_log s' = stderr_log s"
  by (auto simp: syscall_def split: prod.splits sysret.splits)

lemma syscall_Err: "syscall f s = (Err n, s') \<Longrightarrow> umask s' = umask s \<and> errno s' = n \<and> stderr_log s' = stderr_log s"
  by (auto simp: syscall_def split: prod.splits sysret.splits)

lemma syscall_snd: "\<exists>n. snd (syscall f s) = s\<lparr>errno := n, world := snd (f (world s))\<rparr>"
  by (cases s; cases "f (world s)"; cases "fst (f (world s))") (auto simp: syscall_def)

lemma alloc_keeps: "alloc lc n s = (b, s') \<Longrightarrow> umask s' = umask s \<and> errno s' = errno s \<and> stderr_log s' = stderr_log s"
  by (auto simp: alloc_def split: prod.splits)

lemma strchr_None_iff: "strchr s c = None \<longleftrightarrow> c \<notin> set s"
  by (induction s) auto

lemma strchr_absent: "c \<notin> set s \<Longrightarrow> strchr s c = None"
  by (simp add: strchr_None_iff)

lemma strchr_Some_iff:
  "strchr s c = Some i \<longleftrightarrow> i < length s \<and> s ! i = c \<and> c \<notin> set (take i s)"
proof (induction s arbitrary: i)
  case Nil
  then show ?case by simp
next
  case (Cons x xs)
  then show ?case by (cases i) auto
qed

lemma strchr_Some_takeWhile: "strchr s c = Some i \<Longrightarrow> takeWhile (\<lambda>x. x \<noteq> c) s = take i s"
  by (induction s arbitrary: i) (auto split: if_splits)

lemma strchr_append: "c \<notin> set s \<Longrightarrow> strchr (s @ c # t) c = Some (length s)"
  by (induction s) auto

lemma message_text_clean: "NUL \<notin> set (message_text m)"
  by (auto simp: message_text_def dest: set_takeWhileD)

lemma message_text_prefix: "NUL \<in> set m \<Longrightarrow> c_str (m @ rest) = Ret (message_text m)"
  by (auto simp: c_str_def message_text_def)

lemma c_str_append_NUL: "NUL \<notin> set s \<Longrightarrow> c_str (s @ NUL # rest) = Ret s"
  by (auto simp: c_str_def takeWhile_tail)

lemma c_str_first_NUL: "c_str (m @ NUL # rest) = Ret (takeWhile (\<lambda>c. c \<noteq> NUL) m)"
proof -
  have "takeWhile (\<lambda>c. c \<noteq> NUL) (m @ NUL # rest) = takeWhile (\<lambda>c. c \<noteq> NUL) m"
    by (induction m) auto
  then show ?thesis by (simp add: c_str_def)
qed

lemma c_str_prefix: "NUL \<notin> set p \<Longrightarrow> c_str rest = Ret str \<Longrightarrow> c_str (p @ rest) = Ret (p @ str)"
proof -
  have "NUL \<notin> set p \<Longrightarrow> takeWhile (\<lambda>c. c \<noteq> NUL) (p @ rest) = p @ takeWhile (\<lambda>c. c \<noteq> NUL) rest"
    by (induction p) auto
  then show "NUL \<notin> set p \<Longrightarrow> c_str rest = Ret str \<Longrightarrow> c_str (p @ rest) = Ret (p @ str)"
    by (auto simp: c_str_def split: if_splits)
qed

lemma c_str_no_NUL: "c_str m = Ret s \<Longrightarrow> NUL \<notin> set s"
  by (auto simp: c_str_def split: if_splits dest: set_takeWhileD)

text \<open>A system call keeps what its function keeps.\<close>

lemma syscall_frame_law:
  assumes "\<And>w. obs (snd (f w)) = obs w" and "syscall f s = (r, s')"
  shows "obs (world s') = obs (world s)"
  using assms(2) assms(1) [of "world s"] by (auto simp: syscall_def split: prod.splits sysret.splits)

end
