(* ===== verification/Netmask.thy ===== *)
theory Netmask
  imports Prelude
begin

text \<open>
  Bytes, words and network masks.  The first part relates arrays of \<open>uint32_t\<close> to their bytes in
  memory for both byte orders.  The second part is the masking block of \<open>parse_addr\<close>
  (\<open>parse.c\<close>, lines 190 to 212): three loops over \<open>uint32_t\<close> arrays that build a mask of
  \<open>netmask\<close> one bits and clear the host part of an address.  The locale \<open>prefix_mask\<close> states what
  any routine that builds a network mask promises, bit by bit in network order, and derives once
  what its clients use; the block of \<open>parse_addr\<close> is an instance here, the two routines of
  \<open>pf.c\<close> are instances in the theory of the PF engine.
\<close>

unbundle bit_operations_syntax

type_synonym byte = "8 word"
type_synonym u32 = "32 word"

section \<open>Words in memory\<close>

definition bytes_of_word :: "bool \<Rightarrow> u32 \<Rightarrow> byte list" where
  "bytes_of_word be w =
     (let bs = [ucast (drop_bit 24 w), ucast (drop_bit 16 w), ucast (drop_bit 8 w), ucast w]
      in if be then bs else rev bs)"

definition word_be :: "byte \<Rightarrow> byte \<Rightarrow> byte \<Rightarrow> byte \<Rightarrow> u32" where
  "word_be b0 b1 b2 b3 =
     push_bit 24 (ucast b0) OR push_bit 16 (ucast b1) OR push_bit 8 (ucast b2) OR ucast b3"

definition word_of_bytes :: "bool \<Rightarrow> byte \<Rightarrow> byte \<Rightarrow> byte \<Rightarrow> byte \<Rightarrow> u32" where
  "word_of_bytes be b0 b1 b2 b3 = (if be then word_be b0 b1 b2 b3 else word_be b3 b2 b1 b0)"

text \<open>\<open>htonl\<close>: the word whose bytes in memory are those of its argument, most significant first.\<close>

definition htonl :: "bool \<Rightarrow> u32 \<Rightarrow> u32" where
  "htonl be w = word_of_bytes be (ucast (drop_bit 24 w)) (ucast (drop_bit 16 w))
     (ucast (drop_bit 8 w)) (ucast w)"

text \<open>A byte array seen through a \<open>uint32_t *\<close>, and back.\<close>

fun load_words :: "bool \<Rightarrow> byte list \<Rightarrow> u32 list" where
  "load_words be (b0 # b1 # b2 # b3 # bs) = word_of_bytes be b0 b1 b2 b3 # load_words be bs"
| "load_words be _ = []"

definition store_words :: "bool \<Rightarrow> u32 list \<Rightarrow> byte list" where
  "store_words be ws = concat (map (bytes_of_word be) ws)"

text \<open>Bit \<open>p\<close> of a byte array in network order: bit 0 is the most significant bit of byte 0.\<close>

definition bit_at :: "byte list \<Rightarrow> nat \<Rightarrow> bool" where
  "bit_at bs p = bit (bs ! (p div 8)) (7 - p mod 8)"

definition band_bytes :: "byte list \<Rightarrow> byte list \<Rightarrow> byte list" where
  "band_bytes a m = map2 (AND) a m"

section \<open>The masking block of parse\_addr\<close>

text \<open>\<^verbatim>\<open>for (b = addr->netmask; b >= 32; b -= 32) m[j++] = 0xFFFFFFFF;\<close>\<close>

function mask_full :: "nat \<Rightarrow> nat \<Rightarrow> u32 list \<Rightarrow> (nat \<times> nat \<times> u32 list) outcome" where
  "mask_full b j m =
     (if 32 \<le> b then andthen (poke m j 0xFFFFFFFF) (\<lambda>m'. mask_full (b - 32) (Suc j) m')
      else Ret (b, j, m))"
  by pat_completeness auto
termination
  by (relation "measure (\<lambda>(b, j, m). b)") auto

text \<open>\<^verbatim>\<open>for (i = 31; i > 31 - b; --i) m[j] |= (1 << i);\<close>  The first value of \<open>i\<close> is 31, and \<open>1 << 31\<close> on the type \<open>int\<close> is outside of what ISO
  C defines.  The model has the value that GCC and clang document for it, the word with only its highest bit set; by
  the letter of the standard every call with a prefix length that is no multiple of 32 would be undefined.\<close>

function mask_part :: "int \<Rightarrow> int \<Rightarrow> nat \<Rightarrow> u32 list \<Rightarrow> u32 list outcome" where
  "mask_part i b j m =
     (if 31 - b < i then
        andthen (peek m j) (\<lambda>w.
        andthen (poke m j (w OR push_bit (nat i) 1)) (\<lambda>m'.
        mask_part (i - 1) b j m'))
      else Ret m)"
  by pat_completeness auto
termination
  by (relation "measure (\<lambda>(i, b, j, m). nat (i - (31 - b)))") auto

text \<open>\<^verbatim>\<open>if (0 != b) m[j] = htonl(m[j]);\<close> after the two loops: the mask as an array of words.\<close>

definition netmask_words :: "bool \<Rightarrow> nat \<Rightarrow> u32 list outcome" where
  "netmask_words be n =
     andthen (mask_full n 0 (replicate 4 0)) (\<lambda>(b, j, m).
     andthen (mask_part 31 (int b) j m) (\<lambda>m.
     if b \<noteq> 0 then andthen (peek m j) (\<lambda>w. poke m j (htonl be w)) else Ret m))"

text \<open>\<^verbatim>\<open>for (i = 0; i < 4; i++) a[i] &= m[i];\<close>\<close>

function mask_and :: "nat \<Rightarrow> u32 list \<Rightarrow> u32 list \<Rightarrow> u32 list outcome" where
  "mask_and i a m =
     (if i < 4 then
        andthen (peek a i) (\<lambda>x.
        andthen (peek m i) (\<lambda>y.
        andthen (poke a i (x AND y)) (\<lambda>a'.
        mask_and (Suc i) a' m)))
      else Ret a)"
  by pat_completeness auto
termination
  by (relation "measure (\<lambda>(i, a, m). 4 - i)") auto

definition apply_netmask :: "bool \<Rightarrow> nat \<Rightarrow> byte list \<Rightarrow> byte list outcome" where
  "apply_netmask be n sa =
     andthen (netmask_words be n) (\<lambda>m.
     andthen (mask_and 0 (load_words be sa) m) (\<lambda>a.
     Ret (store_words be a)))"

text \<open>The mask of the block as bytes in memory.\<close>

definition netmask_bytes :: "bool \<Rightarrow> nat \<Rightarrow> byte list outcome" where
  "netmask_bytes be n = andthen (netmask_words be n) (\<lambda>m. Ret (store_words be m))"

declare mask_full.simps [simp del] mask_part.simps [simp del] mask_and.simps [simp del]

section \<open>Specification of networks\<close>

text \<open>Two addresses lie in the same network of prefix length \<open>n\<close>.\<close>

definition same_network :: "nat \<Rightarrow> byte list \<Rightarrow> byte list \<Rightarrow> bool" where
  "same_network n a b \<longleftrightarrow> list_all (\<lambda>p. bit_at a p = bit_at b p) [0..<n]"

text \<open>The network of an address, as the byte-wise reference: byte \<open>i\<close> keeps its
  \<open>n - 8 * i\<close> leading bits.\<close>

definition lead_ones :: "nat \<Rightarrow> byte" where
  "lead_ones k = NOT (mask (8 - k))"

definition network :: "nat \<Rightarrow> byte list \<Rightarrow> byte list" where
  "network n a = map (\<lambda>i. a ! i AND lead_ones (n - 8 * i)) [0..<length a]"

section \<open>Bits of words and of byte arrays\<close>

lemma length_bytes_of_word [simp]: "length (bytes_of_word be w) = 4"
  by (simp add: bytes_of_word_def Let_def)

lemma length_store_words [simp]: "length (store_words be ws) = 4 * length ws"
  by (induction ws) (simp_all add: store_words_def)

lemma length_band_bytes [simp]: "length (band_bytes a m) = min (length a) (length m)"
  by (simp add: band_bytes_def)

lemma bytes_word_be:
  "ucast (drop_bit 24 (word_be b0 b1 b2 b3)) = b0"
  "ucast (drop_bit 16 (word_be b0 b1 b2 b3)) = b1"
  "ucast (drop_bit 8 (word_be b0 b1 b2 b3)) = b2"
  "ucast (word_be b0 b1 b2 b3) = b3"
  by (rule bit_word_eqI, auto simp: word_be_def bit_simps dest: bit_imp_le_length)+

lemma bytes_of_word_of_bytes [simp]:
  "bytes_of_word be (word_of_bytes be b0 b1 b2 b3) = [b0, b1, b2, b3]"
  by (simp add: bytes_of_word_def word_of_bytes_def Let_def bytes_word_be)

lemma bytes_of_htonl: "bytes_of_word be (htonl be w) = bytes_of_word True w"
  by (simp add: htonl_def) (simp add: bytes_of_word_def Let_def)

lemma bytes_of_word_ones: "bytes_of_word be 0xFFFFFFFF = [0xFF, 0xFF, 0xFF, 0xFF]"
  by (cases be) (simp_all add: bytes_of_word_def Let_def)

lemma bytes_of_word_zero: "bytes_of_word be 0 = [0, 0, 0, 0]"
  by (cases be) (simp_all add: bytes_of_word_def Let_def)

lemma bytes_of_word_and:
  "bytes_of_word be (v AND w) = band_bytes (bytes_of_word be v) (bytes_of_word be w)"
  by (cases be) (auto simp: bytes_of_word_def Let_def band_bytes_def intro!: bit_word_eqI simp: bit_simps)

lemma store_load_words: "length bs mod 4 = 0 \<Longrightarrow> store_words be (load_words be bs) = bs"
  by (induction be bs rule: load_words.induct) (auto simp: store_words_def)

lemma length_load_words: "length (load_words be bs) = length bs div 4"
  by (induction be bs rule: load_words.induct) auto

lemma store_words_Cons: "store_words be (w # ws) = bytes_of_word be w @ store_words be ws"
  by (simp add: store_words_def)

lemma store_words_map2_and:
  "length a = length m \<Longrightarrow>
   store_words be (map2 (AND) a m) = band_bytes (store_words be a) (store_words be m)"
proof (induction a m rule: list_induct2)
  case Nil
  then show ?case by (simp add: store_words_def band_bytes_def)
next
  case (Cons x xs y ys)
  then show ?case
    by (simp add: store_words_Cons bytes_of_word_and) (simp add: band_bytes_def)
qed

lemma nth_store_words:
  "k < 4 * length ws \<Longrightarrow> store_words be ws ! k = bytes_of_word be (ws ! (k div 4)) ! (k mod 4)"
proof (induction ws arbitrary: k)
  case Nil
  then show ?case by simp
next
  case (Cons w ws)
  show ?case
  proof (cases "k < 4")
    case True
    then show ?thesis by (simp add: store_words_Cons nth_append)
  next
    case False
    then have "k div 4 = Suc ((k - 4) div 4)" and "k mod 4 = (k - 4) mod 4"
      by (simp_all add: le_div_geq le_mod_geq not_less)
    with False Cons show ?thesis by (simp add: store_words_Cons nth_append)
  qed
qed

lemma bit_at_store_words:
  assumes "p < 32 * length ws"
  shows "bit_at (store_words be ws) p = bit_at (bytes_of_word be (ws ! (p div 32))) (p mod 32)"
proof -
  from assms have "p div 8 < 4 * length ws" by linarith
  moreover have "p div 8 div 4 = p div 32" by (simp add: div_mult2_eq [symmetric])
  moreover have "p mod 32 = 8 * (p div 8 mod 4) + p mod 8"
    using mod_mult2_eq [of p 8 4] by simp
  then have "p mod 32 div 8 = p div 8 mod 4" and "p mod 32 mod 8 = p mod 8" by simp_all
  ultimately show ?thesis by (simp add: bit_at_def nth_store_words)
qed

lemma bit_at_word_be:
  assumes "p < 32"
  shows "bit_at (bytes_of_word True w) p = bit w (31 - p)"
proof -
  obtain q r where p: "p = 8 * q + r" and r: "r < 8"
    using that [of "p div 8" "p mod 8"] by simp
  with assms consider "q = 0" | "q = 1" | "q = 2" | "q = 3" by linarith
  moreover from r have "7 - r < 8" and "(8 * q + r) div 8 = q" and "(8 * q + r) mod 8 = r"
    by simp_all
  ultimately have "bit_at (bytes_of_word True w) (8 * q + r) = bit w (8 * (3 - q) + (7 - r))"
    using r unfolding bit_at_def by cases (simp_all add: bytes_of_word_def Let_def bit_simps)
  moreover from assms p r have "31 - p = 8 * (3 - q) + (7 - r)" by linarith
  ultimately show ?thesis using p by simp
qed

lemma bit_FF: "k < 8 \<Longrightarrow> bit (0xFF :: byte) k"
proof -
  assume k: "k < 8"
  have "(0xFF :: byte) = - 1" by simp
  with k show ?thesis by (simp only: bit_minus_1_iff possible_bit_word) simp
qed

lemma bit_at_replicate:
  assumes "p < 8 * n"
  shows "bit_at (replicate n 0xFF) p" and "\<not> bit_at (replicate n 0) p"
proof -
  have "p div 8 < n" using assms by (simp add: less_mult_imp_div_less mult.commute)
  moreover have "bit (0xFF :: byte) (7 - p mod 8)" by (rule bit_FF) simp
  ultimately show "bit_at (replicate n 0xFF) p" and "\<not> bit_at (replicate n 0) p"
    by (simp_all add: bit_at_def)
qed

lemma bytes_of_word_const:
  "bytes_of_word be 0xFFFFFFFF = replicate 4 0xFF" "bytes_of_word be 0 = replicate 4 0"
  by (simp_all add: bytes_of_word_ones bytes_of_word_zero numeral_eq_Suc)

lemma bit_at_band:
  "p < 8 * length a \<Longrightarrow> length m = length a \<Longrightarrow> bit_at (band_bytes a m) p \<longleftrightarrow> bit_at a p \<and> bit_at m p"
  by (simp add: bit_at_def band_bytes_def bit_and_iff less_mult_imp_div_less mult.commute)

lemma bytes_eqI:
  assumes len: "length a = length b" and bits: "\<And>p. p < 8 * length a \<Longrightarrow> bit_at a p = bit_at b p"
  shows "a = b"
proof (rule nth_equalityI [OF len])
  fix i assume i: "i < length a"
  show "a ! i = b ! i"
  proof (rule bit_word_eqI)
    fix n assume n: "n < LENGTH(8)"
    then have "8 * i + (7 - n) < 8 * length a" using i by simp
    from bits [OF this] n show "bit (a ! i) n = bit (b ! i) n" by (simp add: bit_at_def)
  qed
qed

lemma length_network [simp]: "length (network n a) = length a"
  by (simp add: network_def)

lemma bit_at_network:
  assumes "p < 8 * length a"
  shows "bit_at (network n a) p \<longleftrightarrow> p < n \<and> bit_at a p"
proof -
  obtain q r where p: "p = 8 * q + r" and r: "r < 8"
    using that [of "p div 8" "p mod 8"] by simp
  with assms have q: "q < length a" by linarith
  have dm: "p div 8 = q" "p mod 8 = r" using p r by simp_all
  have "7 - r < 8" by simp
  then have "bit (lead_ones (n - 8 * q)) (7 - r) \<longleftrightarrow> 8 - (n - 8 * q) \<le> 7 - r"
    unfolding lead_ones_def by (simp only: bit_not_iff bit_mask_iff possible_bit_word) auto
  also have "\<dots> \<longleftrightarrow> p < n" using p r by auto
  finally show ?thesis using q by (auto simp: bit_at_def network_def dm bit_and_iff)
qed

section \<open>What the loops compute\<close>

lemma mask_full_eq:
  "j + b div 32 \<le> length m \<Longrightarrow>
   mask_full b j m =
     Ret (b mod 32, j + b div 32, take j m @ replicate (b div 32) 0xFFFFFFFF @ drop (j + b div 32) m)"
proof (induction b j m rule: mask_full.induct)
  case (1 b j m)
  show ?case
  proof (cases "32 \<le> b")
    case True
    then have q: "b div 32 = Suc ((b - 32) div 32)" and r: "b mod 32 = (b - 32) mod 32"
      by (simp_all add: le_div_geq le_mod_geq)
    with 1(2) have j: "j < length m" and
      len: "Suc j + (b - 32) div 32 \<le> length (m[j := 0xFFFFFFFF])" by simp_all
    have "poke m j 0xFFFFFFFF = Ret (m[j := 0xFFFFFFFF])" using j by (simp add: poke_def)
    with 1(1) [OF True len] have
      "mask_full b j m = Ret ((b - 32) mod 32, Suc j + (b - 32) div 32,
         take (Suc j) (m[j := 0xFFFFFFFF]) @ replicate ((b - 32) div 32) 0xFFFFFFFF @
         drop (Suc j + (b - 32) div 32) (m[j := 0xFFFFFFFF]))"
      using True by (simp add: mask_full.simps [of b j m] outcome_simps)
    moreover have "take (Suc j) (m[j := 0xFFFFFFFF]) = take j m @ [0xFFFFFFFF]"
      using j by (simp add: take_Suc_conv_app_nth)
    ultimately show ?thesis using q r by simp
  next
    case False
    then show ?thesis by (simp add: mask_full.simps [of b j m])
  qed
qed

lemma mask_part_ex:
  "j < length m \<Longrightarrow> 0 \<le> b \<Longrightarrow> b \<le> 32 \<Longrightarrow> i \<le> 31 \<Longrightarrow>
   \<exists>w. mask_part i b j m = Ret (m[j := w]) \<and>
       (\<forall>k<32. bit w k \<longleftrightarrow> bit (m ! j) k \<or> (31 - b < int k \<and> int k \<le> i))"
proof (induction i b j m rule: mask_part.induct)
  case (1 i b j m)
  show ?case
  proof (cases "31 - b < i")
    case True
    let ?m = "m[j := m ! j OR push_bit (nat i) 1]"
    from 1(1) [OF True, of ?m] 1(2-5) obtain w where
      w: "mask_part (i - 1) b j ?m = Ret (?m[j := w])" and
      bits: "\<forall>k<32. bit w k \<longleftrightarrow> bit (?m ! j) k \<or> (31 - b < int k \<and> int k \<le> i - 1)"
      by auto
    have "mask_part i b j m = Ret (m[j := w])"
      using True w 1(2) by (simp add: mask_part.simps [of i b j m] peek_def poke_def)
    moreover have "bit w k \<longleftrightarrow> bit (m ! j) k \<or> (31 - b < int k \<and> int k \<le> i)" if "k < 32" for k
      using bits that True 1(2,4) by (auto simp: bit_or_iff bit_exp_iff)
    ultimately show ?thesis by blast
  next
    case False
    then show ?thesis using 1(2) by (auto simp: mask_part.simps [of i b j m] intro!: exI [of _ "m ! j"])
  qed
qed

text \<open>
  The words of the mask: full ones, then (when \<open>n\<close> is no multiple of 32) one word whose
  \<open>n mod 32\<close> leading bits are set, stored in network order, then zeroes.
\<close>

lemma netmask_words_ex:
  assumes "n \<le> 128"
  shows "\<exists>ws. netmask_words be n = Ret ws \<and> length ws = 4 \<and>
    (\<forall>q<4. if q < n div 32 then ws ! q = 0xFFFFFFFF
          else if q = n div 32 \<and> n mod 32 \<noteq> 0 then
            (\<exists>w. ws ! q = htonl be w \<and> (\<forall>k<32. bit w k \<longleftrightarrow> 32 - n mod 32 \<le> k))
          else ws ! q = 0)"
proof -
  let ?j = "n div 32" and ?b = "n mod 32"
  define m :: "u32 list" where "m = replicate ?j 0xFFFFFFFF @ replicate (4 - ?j) 0"
  from assms have j: "?j \<le> 4" by simp
  then have len: "length m = 4" by (simp add: m_def)
  from j have full: "mask_full n 0 (replicate 4 0) = Ret (?b, ?j, m)"
    by (simp add: mask_full_eq m_def)
  have nth: "m ! q = (if q < ?j then 0xFFFFFFFF else 0)" if "q < 4" for q
    using that j by (auto simp: m_def nth_append)
  show ?thesis
  proof (cases "?b = 0")
    case True
    then have "netmask_words be n = Ret m"
      by (simp add: netmask_words_def full mask_part.simps)
    with True len nth show ?thesis by (auto intro!: exI [of _ m])
  next
    case False
    with assms have "n \<noteq> 128" and "n \<le> 128" by auto
    then have j4: "?j < 4" by simp
    then obtain w where w: "mask_part 31 (int ?b) ?j m = Ret (m[?j := w])" and
      bits: "\<forall>k<32. bit w k \<longleftrightarrow> bit (m ! ?j) k \<or> (31 - int ?b < int k \<and> int k \<le> 31)"
      using mask_part_ex [of ?j m "int ?b" 31] len by auto
    have "netmask_words be n = Ret (m[?j := htonl be w])"
      using False j4 len by (simp add: netmask_words_def full w peek_def poke_def)
    moreover have "\<forall>k<32. bit w k \<longleftrightarrow> 32 - ?b \<le> k"
      using bits j4 by (auto simp: nth of_nat_diff)
    ultimately show ?thesis
      using False len nth j4 by (intro exI [of _ "m[?j := htonl be w]"]) (auto simp: nth_list_update)
  qed
qed

lemma mask_and_eq:
  "i \<le> 4 \<Longrightarrow> length a = 4 \<Longrightarrow> length m = 4 \<Longrightarrow>
   mask_and i a m = Ret (take i a @ map2 (AND) (drop i a) (drop i m))"
proof (induction i a m rule: mask_and.induct)
  case (1 i a m)
  show ?case
  proof (cases "i < 4")
    case True
    with 1(3,4) have "mask_and i a m = mask_and (Suc i) (a[i := a ! i AND m ! i]) m"
      by (simp add: mask_and.simps [of i a m] peek_def poke_def)
    also from 1 True have "\<dots> = Ret (take (Suc i) (a[i := a ! i AND m ! i]) @
        map2 (AND) (drop (Suc i) a) (drop (Suc i) m))"
      by (simp add: peek_def poke_def)
    also have "take (Suc i) (a[i := a ! i AND m ! i]) = take i a @ [a ! i AND m ! i]"
      using True 1(3) by (simp add: take_Suc_conv_app_nth)
    finally show ?thesis
      using True 1(3,4) by (simp add: Cons_nth_drop_Suc [symmetric])
  next
    case False
    with 1(2-4) have "i = 4" by simp
    with 1(3,4) show ?thesis by (simp add: mask_and.simps [of 4 a m])
  qed
qed

section \<open>The contract of a routine that builds a network mask\<close>

locale prefix_mask =
  fixes mk :: "nat \<Rightarrow> byte list outcome" and width :: nat
  assumes mk_spec: "n \<le> 8 * width \<Longrightarrow>
    \<exists>m. mk n = Ret m \<and> length m = width \<and> (\<forall>p<8 * width. bit_at m p \<longleftrightarrow> p < n)"
begin

lemma mk_defined: "n \<le> 8 * width \<Longrightarrow> defined (mk n)"
  using mk_spec [of n] by (auto simp: defined_iff)

lemma mk_unique:
  assumes "n \<le> 8 * width" and "length m = width" and "\<And>p. p < 8 * width \<Longrightarrow> bit_at m p \<longleftrightarrow> p < n"
  shows "mk n = Ret m"
proof -
  obtain m' where m': "mk n = Ret m'" "length m' = width" "\<forall>p<8 * width. bit_at m' p \<longleftrightarrow> p < n"
    using mk_spec [OF assms(1)] by blast
  have "m' = m" by (rule bytes_eqI) (use assms m' in auto)
  with m' show ?thesis by simp
qed

lemma masked_bit:
  assumes "n \<le> 8 * width" and "mk n = Ret m" and "length a = width"
  shows "length (band_bytes a m) = width" and
    "p < 8 * width \<Longrightarrow> bit_at (band_bytes a m) p \<longleftrightarrow> p < n \<and> bit_at a p"
  using mk_spec [OF assms(1)] assms by (auto simp: bit_at_band)

lemma masked_eq_iff:
  assumes n: "n \<le> 8 * width" and m: "mk n = Ret m" and ab: "length a = width" "length b = width"
  shows "band_bytes a m = band_bytes b m \<longleftrightarrow> same_network n a b"
proof
  assume eq: "band_bytes a m = band_bytes b m"
  have "bit_at a p = bit_at b p" if "p < n" for p
    using masked_bit(2) [OF n m ab(1), of p] masked_bit(2) [OF n m ab(2), of p] that n eq by simp
  then show "same_network n a b" by (simp add: same_network_def list_all_iff)
next
  assume same: "same_network n a b"
  show "band_bytes a m = band_bytes b m"
  proof (rule bytes_eqI)
    show "length (band_bytes a m) = length (band_bytes b m)" using ab by simp
    fix p assume "p < 8 * length (band_bytes a m)"
    then have "p < 8 * width" using masked_bit(1) [OF n m ab(1)] by simp
    with same show "bit_at (band_bytes a m) p = bit_at (band_bytes b m) p"
      by (auto simp: masked_bit(2) [OF n m] ab same_network_def list_all_iff)
  qed
qed

lemma masked_twice:
  assumes n: "n \<le> 8 * width" "mk n = Ret m" and k: "k \<le> n" "mk k = Ret l" and a: "length a = width"
  shows "band_bytes (band_bytes a m) l = band_bytes a l"
proof (rule bytes_eqI)
  from n k have kw: "k \<le> 8 * width" by simp
  note len = masked_bit(1) [OF n a]
  show "length (band_bytes (band_bytes a m) l) = length (band_bytes a l)"
    using masked_bit(1) [OF kw k(2) len] masked_bit(1) [OF kw k(2) a] by simp
  fix p assume "p < 8 * length (band_bytes (band_bytes a m) l)"
  then have "p < 8 * width" using masked_bit(1) [OF kw k(2) len] by simp
  then show "bit_at (band_bytes (band_bytes a m) l) p = bit_at (band_bytes a l) p"
    using k(1) by (auto simp: masked_bit(2) [OF kw k(2) len] masked_bit(2) [OF kw k(2) a]
        masked_bit(2) [OF n a])
qed

end

text \<open>Four words that are all ones, then a part of one in network order, then zero, are a mask.\<close>

lemma prefix_words_bits:
  assumes ws: "length ws = 4" and p: "p < 128"
    and nth: "\<forall>q<4. if q < n div 32 then ws ! q = 0xFFFFFFFF
          else if q = n div 32 \<and> n mod 32 \<noteq> 0 then
            (\<exists>w. ws ! q = htonl be w \<and> (\<forall>k<32. bit w k \<longleftrightarrow> 32 - n mod 32 \<le> k))
          else ws ! q = 0"
  shows "bit_at (store_words be ws) p \<longleftrightarrow> p < n"
proof -
  define q r where "q = p div 32" and "r = p mod 32"
  then have qr: "p = 32 * q + r" "r < 32" "q < 4" using p by auto
  have nn: "n = 32 * (n div 32) + n mod 32" by simp
  have bit: "bit_at (store_words be ws) p = bit_at (bytes_of_word be (ws ! q)) r"
    using p ws by (simp add: bit_at_store_words q_def r_def)
  have ones: "bit_at (bytes_of_word be 0xFFFFFFFF) r" and zero: "\<not> bit_at (bytes_of_word be 0) r"
    using qr(2) bit_at_replicate [of r 4] by (simp_all add: bytes_of_word_const)
  consider "q < n div 32" | "q = n div 32" "n mod 32 \<noteq> 0" | "n div 32 \<le> q" "q = n div 32 \<longrightarrow> n mod 32 = 0"
    by linarith
  then show ?thesis
  proof cases
    case 1
    with nth qr(3) have "ws ! q = 0xFFFFFFFF" by simp
    moreover from 1 qr nn have "p < n" by linarith
    ultimately show ?thesis using bit ones by simp
  next
    case 2
    with nth [rule_format, OF qr(3)] obtain w where
      w: "ws ! q = htonl be w" "\<forall>k<32. bit w k \<longleftrightarrow> 32 - n mod 32 \<le> k" by auto
    then have "bit_at (store_words be ws) p \<longleftrightarrow> 32 - n mod 32 \<le> 31 - r"
      using bit qr(2) by (simp add: bytes_of_htonl bit_at_word_be)
    also have "\<dots> \<longleftrightarrow> r < n mod 32" using qr(2) by auto
    finally show ?thesis using 2 qr(1) nn by linarith
  next
    case 3
    with nth qr(3) have "ws ! q = 0" by (cases "q = n div 32") auto
    moreover from 3 qr nn have "\<not> p < n" by (cases "q = n div 32") linarith+
    ultimately show ?thesis using bit zero by simp
  qed
qed

text \<open>The block of \<open>parse_addr\<close> fulfils the contract for both byte orders.\<close>

lemma netmask_bytes_spec:
  assumes "n \<le> 8 * 16"
  shows "\<exists>m. netmask_bytes be n = Ret m \<and> length m = 16 \<and> (\<forall>p<8 * 16. bit_at m p \<longleftrightarrow> p < n)"
proof -
  obtain ws where ws: "netmask_words be n = Ret ws" "length ws = 4" and
    nth: "\<forall>q<4. if q < n div 32 then ws ! q = 0xFFFFFFFF
          else if q = n div 32 \<and> n mod 32 \<noteq> 0 then
            (\<exists>w. ws ! q = htonl be w \<and> (\<forall>k<32. bit w k \<longleftrightarrow> 32 - n mod 32 \<le> k))
          else ws ! q = 0"
    using netmask_words_ex [of n be] assms by auto
  then show ?thesis using prefix_words_bits [OF ws(2) _ nth] by (auto simp: netmask_bytes_def)
qed

interpretation parse_mask: prefix_mask "netmask_bytes be" 16 for be
  by unfold_locales (rule netmask_bytes_spec)

lemma apply_netmask_eq:
  assumes "n \<le> 128" and "length sa = 16" and "netmask_bytes be n = Ret m"
  shows "apply_netmask be n sa = Ret (band_bytes sa m)"
proof -
  obtain ws where ws: "netmask_words be n = Ret ws" "length ws = 4" and m: "m = store_words be ws"
    using netmask_words_ex [OF assms(1), of be] assms(3) by (auto simp: netmask_bytes_def)
  have len: "length (load_words be sa) = 4" using assms(2) by (simp add: length_load_words)
  have "apply_netmask be n sa = Ret (store_words be (map2 (AND) (load_words be sa) ws))"
    by (simp add: apply_netmask_def ws mask_and_eq len)
  also have "store_words be (map2 (AND) (load_words be sa) ws) = band_bytes sa m"
    using len ws(2) assms(2) by (simp add: store_words_map2_and store_load_words m)
  finally show ?thesis .
qed

lemma apply_netmask_network:
  assumes n: "n \<le> 128" and sa: "length sa = 16"
  shows "apply_netmask be n sa = Ret (network n sa)"
proof -
  obtain m where m: "netmask_bytes be n = Ret m" using netmask_bytes_spec [of n be] n by auto
  have w: "n \<le> 8 * 16" using n by simp
  have "band_bytes sa m = network n sa"
  proof (rule bytes_eqI)
    show "length (band_bytes sa m) = length (network n sa)"
      using parse_mask.masked_bit(1) [OF w m sa] sa by simp
    fix p assume "p < 8 * length (band_bytes sa m)"
    then have p: "p < 8 * 16" using parse_mask.masked_bit(1) [OF w m sa] by simp
    then show "bit_at (band_bytes sa m) p = bit_at (network n sa) p"
      using parse_mask.masked_bit(2) [OF w m sa p] sa by (simp add: bit_at_network)
  qed
  then show ?thesis using apply_netmask_eq [OF n sa m] by simp
qed

lemma mask_full_overrun:
  "j \<le> length m \<Longrightarrow> length m < j + b div 32 \<Longrightarrow> mask_full b j m = Undef Out_Of_Bounds"
proof (induction b j m rule: mask_full.induct)
  case (1 b j m)
  then have b: "32 \<le> b" by (cases "32 \<le> b") auto
  then have q: "b div 32 = Suc ((b - 32) div 32)" by (simp add: le_div_geq)
  show ?case
  proof (cases "j < length m")
    case True
    with 1(1) [OF b, of "m[j := 0xFFFFFFFF]"] 1(3) b q show ?thesis
      by (simp add: mask_full.simps [of b j m] poke_def)
  next
    case False
    with b show ?thesis by (simp add: mask_full.simps [of b j m] poke_def)
  qed
qed

lemma apply_netmask_overrun:
  assumes "128 < n"
  shows "apply_netmask be n sa = Undef Out_Of_Bounds"
proof (cases "n div 32 \<le> 4")
  case True
  with assms have n1: "n div 32 = 4" by linarith
  then have "n mod 32 = n - 128" using minus_mult_div_eq_mod [of n 32] by simp
  with assms n1 have n: "n div 32 = 4" "n mod 32 \<noteq> 0" by simp_all
  have "mask_full n 0 (replicate 4 0) = Ret (n mod 32, 4, replicate 4 0xFFFFFFFF)"
    using n(1) by (simp add: mask_full_eq)
  moreover have "mask_part 31 (int (n mod 32)) 4 (replicate 4 0xFFFFFFFF) = Undef Out_Of_Bounds"
    using n(2) by (simp add: mask_part.simps [of 31] peek_def)
  ultimately show ?thesis by (simp add: apply_netmask_def netmask_words_def)
next
  case False
  then show ?thesis by (simp add: apply_netmask_def netmask_words_def mask_full_overrun)
qed

section \<open>Properties\<close>

text \<open>C11: on every prefix length of a stored address the masking block of \<open>parse_addr\<close> stays
  inside its arrays, and it clears exactly the bits after the prefix: bit \<open>p\<close> of the result, in
  network order, is set when it was set before and \<open>p\<close> is below the prefix length.  This holds on
  little and big endian machines.\<close>

theorem apply_netmask_clears_host_part:
  assumes "n \<le> 128" and "length sa = 16"
  shows "\<exists>net. apply_netmask be n sa = Ret net \<and> length net = 16 \<and>
    (\<forall>p<128. bit_at net p \<longleftrightarrow> p < n \<and> bit_at sa p)"
  using apply_netmask_network [OF assms, of be] assms(2) by (auto simp: bit_at_network)

theorem apply_netmask_clears_host_part_witness:
  "\<exists>net. apply_netmask False 20 (map of_nat [192, 168, 77, 3] @ replicate 12 0) = Ret net \<and>
    length net = 16 \<and>
    (\<forall>p<128. bit_at net p \<longleftrightarrow> p < 20 \<and> bit_at (map of_nat [192, 168, 77, 3] @ replicate 12 0) p)"
  by (rule apply_netmask_clears_host_part) simp_all

text \<open>The word loops compute the byte-wise reference \<open>network\<close>, whatever the byte order.\<close>

lemma apply_netmask_is_network:
  assumes "n \<le> 128" and "length sa = 16"
  shows "apply_netmask True n sa = Ret (network n sa) \<and> apply_netmask False n sa = Ret (network n sa)"
  using apply_netmask_network [OF assms] by simp

lemma apply_netmask_is_network_witness:
  "apply_netmask True 57 (replicate 16 0xA5) = Ret (network 57 (replicate 16 0xA5)) \<and>
   apply_netmask False 57 (replicate 16 0xA5) = Ret (network 57 (replicate 16 0xA5))"
  by (rule apply_netmask_is_network) simp_all

text \<open>Two addresses are reduced to the same network address exactly when they agree on the
  first \<open>n\<close> bits.\<close>

lemma apply_netmask_same_network:
  assumes "n \<le> 128" and "length a = 16" and "length b = 16"
  shows "apply_netmask be n a = apply_netmask be n b \<longleftrightarrow> same_network n a b"
proof -
  obtain m where m: "netmask_bytes be n = Ret m" using netmask_bytes_spec [of n be] assms(1) by auto
  then show ?thesis using assms by (simp add: apply_netmask_eq parse_mask.masked_eq_iff)
qed

lemma apply_netmask_same_network_witness:
  "(apply_netmask False 9 (replicate 16 7) = apply_netmask False 9 (replicate 16 6))
     = same_network 9 (replicate 16 7) (replicate 16 6)"
  by (rule apply_netmask_same_network) simp_all

text \<open>The bound is sharp: with a prefix length above 128 the loops write or read outside
  the mask array, so the range checks of \<open>parse_addr\<close> are what keeps the block safe.\<close>

lemma apply_netmask_defined_iff:
  assumes "length sa = 16"
  shows "defined (apply_netmask be n sa) \<longleftrightarrow> n \<le> 128"
proof (cases "n \<le> 128")
  case True
  with assms obtain m where "netmask_bytes be n = Ret m" using netmask_bytes_spec [of n be] by auto
  with True assms show ?thesis by (simp add: apply_netmask_eq)
next
  case False
  then show ?thesis by (simp add: apply_netmask_overrun)
qed

lemma apply_netmask_defined_iff_witness:
  "defined (apply_netmask False 129 (replicate 16 1)) = (129 \<le> (128 :: nat))"
  by (rule apply_netmask_defined_iff) simp

end
