(* ===== verification/CString.thy ===== *)
theory CString
  imports Prelude
begin

text \<open>
  String copies at the level of memory.  \<open>strlcpy\<close> is the replacement of \<open>missing/strlcpy.c\<close>,
  translated pointer by pointer: \<open>d\<close> and \<open>s\<close> are the offsets of the pointers \<open>d\<close> and \<open>s\<close>, and every
  read or write outside an array is undefined behaviour.  \<open>strcpy\<close> and \<open>strncpy\<close> are the functions
  of the C standard that \<open>systemv.c\<close> calls.
\<close>

section \<open>strlcpy\<close>

text \<open>\<^verbatim>\<open>while (--n != 0) { if ((*d++ = *s++) == '\0') break; }\<close>, entered with \<open>n \<noteq> 0\<close>.\<close>

function copy_loop ::
  "nat \<Rightarrow> char list \<Rightarrow> nat \<Rightarrow> char list \<Rightarrow> nat \<Rightarrow> (nat \<times> char list \<times> nat \<times> nat) outcome" where
  "copy_loop n dst d src s =
     (if n - 1 \<noteq> 0 then
        andthen (peek src s) (\<lambda>c.
        andthen (poke dst d c) (\<lambda>dst'.
        if c = NUL then Ret (n - 1, dst', Suc d, Suc s)
        else copy_loop (n - 1) dst' (Suc d) src (Suc s)))
      else Ret (0, dst, d, s))"
  by pat_completeness auto
termination
  by (relation "measure (\<lambda>(n, dst, d, src, s). n)") auto

text \<open>\<^verbatim>\<open>while (*s++) ;\<close>\<close>

function skip_loop :: "char list \<Rightarrow> nat \<Rightarrow> nat outcome" where
  "skip_loop src s =
     (if s < length src then (if src ! s = NUL then Ret (Suc s) else skip_loop src (Suc s))
      else Undef Out_Of_Bounds)"
  by pat_completeness auto
termination
  by (relation "measure (\<lambda>(src, s). length src - s)") auto

definition strlcpy :: "char list \<Rightarrow> char list \<Rightarrow> nat \<Rightarrow> (nat \<times> char list) outcome" where
  "strlcpy dst src siz =
     andthen (if siz \<noteq> 0 then copy_loop siz dst 0 src 0 else Ret (0, dst, 0, 0)) (\<lambda>(n, dst, d, s).
     if n = 0 then
       andthen (if siz \<noteq> 0 then poke dst d NUL else Ret dst) (\<lambda>dst.
       andthen (skip_loop src s) (\<lambda>s.
       Ret (s - 1, dst)))
     else Ret (s - 1, dst))"

section \<open>strcpy and strncpy\<close>

text \<open>\<open>strcpy (m + i) str\<close> and \<open>strncpy m str n\<close>; the latter stores no terminator when \<open>str\<close> has
  \<open>n\<close> characters or more.\<close>

definition strcpy :: "char list \<Rightarrow> nat \<Rightarrow> string \<Rightarrow> char list outcome" where
  "strcpy m i str = write_at m i (str @ [NUL])"

definition strncpy :: "char list \<Rightarrow> string \<Rightarrow> nat \<Rightarrow> char list outcome" where
  "strncpy m str n = write_at m 0 (take n (str @ replicate n NUL))"

declare copy_loop.simps [simp del] skip_loop.simps [simp del]

section \<open>Lemmas\<close>

lemma skip_loop_eq:
  "s \<le> length str \<Longrightarrow> NUL \<notin> set str \<Longrightarrow> skip_loop (str @ NUL # rest) s = Ret (Suc (length str))"
proof (induction "str @ NUL # rest" s rule: skip_loop.induct)
  case (1 s)
  show ?case
  proof (cases "s < length str")
    case True
    with 1(3) have "str ! s \<noteq> NUL" by (metis nth_mem)
    with True 1 show ?thesis by (simp add: skip_loop.simps [of _ s] nth_append)
  next
    case False
    with 1(2) have "s = length str" by simp
    then show ?thesis by (simp add: skip_loop.simps [of _ "length str"] nth_append)
  qed
qed

text \<open>The copying loop either meets the terminator, or stops with room for the terminator only.\<close>

lemma copy_loop_eq:
  assumes "NUL \<notin> set str"
  shows "n \<noteq> 0 \<Longrightarrow> s \<le> length str \<Longrightarrow> d + n \<le> length dst \<Longrightarrow>
    copy_loop n dst d (str @ NUL # rest) s =
      (if length str - s < n - 1 then
         Ret (n - 1 - (length str - s), take d dst @ drop s str @ NUL # drop (Suc (d + (length str - s))) dst,
              Suc (d + (length str - s)), Suc (length str))
       else Ret (0, take d dst @ take (n - 1) (drop s str) @ drop (d + (n - 1)) dst, d + (n - 1), s + (n - 1)))"
proof (induction n arbitrary: dst d s)
  case 0
  then show ?case by simp
next
  case (Suc n)
  show ?case
  proof (cases "n = 0")
    case True
    then show ?thesis by (simp add: copy_loop.simps)
  next
    case n: False
    show ?thesis
    proof (cases "s < length str")
      case True
      with assms have c: "str ! s \<noteq> NUL" by (metis nth_mem)
      let ?dst = "dst[d := str ! s]"
      have d: "d < length dst" using Suc.prems n by simp
      have "copy_loop (Suc n) dst d (str @ NUL # rest) s = copy_loop n ?dst (Suc d) (str @ NUL # rest) (Suc s)"
        using n True c d by (simp add: copy_loop.simps [of "Suc n"] peek_def poke_def nth_append)
      moreover have "take (Suc d) ?dst = take d dst @ [str ! s]"
        using d by (simp add: take_Suc_conv_app_nth)
      moreover have "drop s str = str ! s # drop (Suc s) str" using True by (simp add: Cons_nth_drop_Suc)
      moreover have "length str - s = Suc (length str - Suc s)" using True by simp
      ultimately show ?thesis using Suc.IH [of "Suc s" "Suc d" ?dst] Suc.prems n True
        by (auto simp: take_Cons')
    next
      case False
      with Suc.prems have s: "s = length str" by simp
      have "d < length dst" using Suc.prems n by simp
      then show ?thesis using n s
        by (simp add: copy_loop.simps [of "Suc n"] peek_def poke_def upd_conv_take_nth_drop)
    qed
  qed
qed

lemma strlcpy_zero: "NUL \<notin> set str \<Longrightarrow> strlcpy dst (str @ NUL # rest) 0 = Ret (length str, dst)"
  by (simp add: strlcpy_def skip_loop_eq)

lemma strlcpy_eq:
  assumes str: "NUL \<notin> set str" and siz: "siz \<noteq> 0" "siz \<le> length dst"
  shows "strlcpy dst (str @ NUL # rest) siz =
    Ret (length str, take (siz - 1) str @ NUL # drop (Suc (length (take (siz - 1) str))) dst)"
proof (cases "length str < siz - 1")
  case True
  then have "copy_loop siz dst 0 (str @ NUL # rest) 0 =
      Ret (siz - 1 - length str, str @ NUL # drop (Suc (length str)) dst, Suc (length str), Suc (length str))"
    using copy_loop_eq [OF str, of siz 0 0 dst rest] siz by simp
  moreover from True have "siz - 1 - length str \<noteq> 0" by simp
  ultimately show ?thesis using True siz(1) by (auto simp: strlcpy_def)
next
  case False
  then have "copy_loop siz dst 0 (str @ NUL # rest) 0 =
      Ret (0, take (siz - 1) str @ drop (siz - 1) dst, siz - 1, siz - 1)"
    using copy_loop_eq [OF str, of siz 0 0 dst rest] siz by simp
  moreover have "(take (siz - 1) str @ drop (siz - 1) dst)[siz - 1 := NUL] =
      take (siz - 1) str @ NUL # drop siz dst"
    using False siz by (simp add: list_update_append Cons_nth_drop_Suc [symmetric])
  ultimately show ?thesis using False siz str
    by (simp add: strlcpy_def poke_def skip_loop_eq min_def)
qed

section \<open>Properties\<close>

text \<open>C25: \<open>strlcpy\<close> terminates without leaving its arrays, returns the length of the source,
  stores the longest prefix that fits with its terminator, so that the copy is complete exactly
  when the result is below the size, and never touches the destination from the size on.\<close>

theorem strlcpy_correct:
  assumes "NUL \<notin> set str" and "siz \<le> length dst"
  shows "\<exists>dst'. strlcpy dst (str @ NUL # rest) siz = Ret (length str, dst') \<and>
    length dst' = length dst \<and> drop siz dst' = drop siz dst \<and>
    (siz \<noteq> 0 \<longrightarrow> c_str dst' = Ret (take (siz - 1) str) \<and> (c_str dst' = Ret str \<longleftrightarrow> length str < siz))"
proof (cases "siz = 0")
  case True
  with assms show ?thesis by (simp add: strlcpy_zero)
next
  case False
  let ?t = "take (siz - 1) str"
  have "c_str (?t @ NUL # drop (Suc (length ?t)) dst) = Ret ?t"
    by (rule c_str_append_NUL) (use assms(1) in_set_takeD in fast)
  moreover have "?t = str \<longleftrightarrow> length str < siz" using False by (auto simp: take_all_iff)
  moreover have "length ?t < siz" using False by simp
  ultimately show ?thesis using strlcpy_eq [OF assms(1) False assms(2), of rest] assms(2)
    by (auto simp: min_def drop_Cons')
qed

theorem strlcpy_correct_witness:
  "\<exists>dst'. strlcpy (replicate 5 CHR ''x'') (''10.0.0.1'' @ NUL # []) 4 = Ret (length ''10.0.0.1'', dst') \<and>
    length dst' = length (replicate 5 CHR ''x'') \<and> drop 4 dst' = drop 4 (replicate 5 CHR ''x'') \<and>
    ((4 :: nat) \<noteq> 0 \<longrightarrow> c_str dst' = Ret (take (4 - 1) ''10.0.0.1'') \<and>
      (c_str dst' = Ret ''10.0.0.1'' \<longleftrightarrow> length ''10.0.0.1'' < 4))"
  by (rule strlcpy_correct) simp_all

end
