(* ===== verification/Errors.thy ===== *)
theory Errors
  imports Prelude
begin

text \<open>
  The error component (\<open>queues/error.h\<close> and \<open>queues/error.c\<close>): every fallible function of the
  program takes a \<open>char **error\<close> and stores a formatted message through it.  The macros of the
  header are modelled in their non-debug form.  The messages are those of the source; the
  arguments keep the values that the source passes.
\<close>

section \<open>Definitions\<close>

text \<open>
  \<open>_error_set\<close>.  When a message is already stored, the function prints a warning and calls
  \<open>free(error)\<close>, that is, it frees the address of the caller's variable instead of the message.
  In every call of the program that variable is an automatic or static object, so the call is
  undefined.  The result of the inner \<open>malloc\<close> is not checked before \<open>vsnprintf\<close> writes to it.
\<close>

definition error_set :: "'w libc \<Rightarrow> errp \<Rightarrow> cmsg \<Rightarrow> 'w proc \<Rightarrow> (errp \<times> 'w proc) outcome" where
  "error_set lc error m s =
     (case error of
        None \<Rightarrow> Ret (None, s)
      | Some (Some old) \<Rightarrow> Undef Invalid_Free
      | Some None \<Rightarrow>
          (case vsnprintf_len lc m of
             None \<Rightarrow> Ret (Some None, s)
           | Some len \<Rightarrow>
               (case alloc lc (len + 1) s of
                  (False, s) \<Rightarrow> Undef Null_Deref
                | (True, s) \<Rightarrow> Ret (Some (Some m), s))))"

definition error_free :: "errp \<Rightarrow> errp outcome" where
  "error_free error = (case error of None \<Rightarrow> Undef Assert_Failed | Some _ \<Rightarrow> Ret (Some None))"

definition set_generic_error ::
  "'w libc \<Rightarrow> errp \<Rightarrow> string \<Rightarrow> carg list \<Rightarrow> 'w proc \<Rightarrow> (errp \<times> 'w proc) outcome" where
  "set_generic_error lc error format args s = error_set lc error (format, args) s"

definition set_errno_error ::
  "'w libc \<Rightarrow> errp \<Rightarrow> nat \<Rightarrow> string \<Rightarrow> carg list \<Rightarrow> 'w proc \<Rightarrow> (errp \<times> 'w proc) outcome" where
  "set_errno_error lc error n format args s =
     error_set lc error (format @ '': %s'', args @ [SArg (strerror lc n)]) s"

definition set_system_error ::
  "'w libc \<Rightarrow> errp \<Rightarrow> string \<Rightarrow> carg list \<Rightarrow> 'w proc \<Rightarrow> (errp \<times> 'w proc) outcome" where
  "set_system_error lc error format args s = set_errno_error lc error (errno s) format args s"

definition set_malloc_error :: "'w libc \<Rightarrow> errp \<Rightarrow> nat \<Rightarrow> 'w proc \<Rightarrow> (errp \<times> 'w proc) outcome" where
  "set_malloc_error lc error nbytes s =
     set_generic_error lc error ''malloc(3) failed to allocate %zu bytes'' [IArg (int nbytes)] s"

definition set_buffer_overflow_error ::
  "'w libc \<Rightarrow> errp \<Rightarrow> string \<Rightarrow> string \<Rightarrow> string \<Rightarrow> nat \<Rightarrow> 'w proc \<Rightarrow> (errp \<times> 'w proc) outcome" where
  "set_buffer_overflow_error lc error src_name src dst_name dst_cap s =
     set_generic_error lc error ''buffer overflow: %s (\"%s\") doesn't fit into %s (%zu > %zu)''
       [SArg src_name, SArg src, SArg dst_name, IArg (int (length src + 1)), IArg (int dst_cap)] s"

lemmas set_error_defs =
  set_generic_error_def set_system_error_def set_errno_error_def set_malloc_error_def
  set_buffer_overflow_error_def

text \<open>\<open>vsnprintf\<close> reports a length for every message: there is no encoding error.\<close>

definition formats :: "'w libc \<Rightarrow> bool" where
  "formats lc \<longleftrightarrow> (\<forall>m. vsnprintf_len lc m \<noteq> None)"

text \<open>Memory is never exhausted.\<close>

definition allocates :: "'w libc \<Rightarrow> bool" where
  "allocates lc \<longleftrightarrow> (\<forall>n w. fst (malloc lc n w))"

section \<open>Lemmas\<close>

text \<open>What a returned call of \<open>_error_set\<close> tells.\<close>

lemma formatsD: "formats lc \<Longrightarrow> \<exists>len. vsnprintf_len lc m = Some len"
  unfolding formats_def by (cases "vsnprintf_len lc m") blast+

lemma error_set_Ret:
  assumes "error_set lc e m s = Ret (e', s')"
  shows "errno s' = errno s" "umask s' = umask s" "stderr_log s' = stderr_log s"
    "e = None \<Longrightarrow> e' = None \<and> s' = s" "e = None \<or> e = Some None"
    "e' = None \<longleftrightarrow> e = None"
  using assms
  by (auto simp: error_set_def split: option.splits prod.splits bool.splits dest: alloc_keeps)

lemma error_set_keeps:
  "error_set lc e m s = Ret (e', s') \<Longrightarrow>
   errno s' = errno s \<and> umask s' = umask s \<and> stderr_log s' = stderr_log s \<and> (e' = None \<longleftrightarrow> e = None)"
  using error_set_Ret [of lc e m s e' s'] by simp

lemma error_set_stores:
  "error_set lc e m s = Ret (e', s') \<Longrightarrow> formats lc \<Longrightarrow> e \<noteq> None \<Longrightarrow> e' = Some (Some m)"
  using formatsD [of lc m]
  by (auto simp: error_set_def split: option.splits prod.splits bool.splits)

lemma allocatesD: "allocates lc \<Longrightarrow> \<exists>w. malloc lc n (world s) = (True, w) \<and> alloc lc n s = (True, s\<lparr>world := w\<rparr>)"
  by (cases "malloc lc n (world s)") (auto simp: allocates_def alloc_def dest!: spec [of _ n] spec [of _ "world s"])

text \<open>With memory and formatting at hand, storing the first message just stores it.\<close>

lemma error_set_first:
  assumes "formats lc" and "allocates lc"
  shows "\<exists>w. error_set lc (Some None) m s = Ret (Some (Some m), s\<lparr>world := w\<rparr>)"
proof -
  obtain len where "vsnprintf_len lc m = Some len" using formatsD [OF assms(1)] by blast
  moreover obtain w where "alloc lc (len + 1) s = (True, s\<lparr>world := w\<rparr>)"
    using allocatesD [OF assms(2)] by blast
  ultimately show ?thesis by (auto simp: error_set_def)
qed

lemma error_set_twice: "error_set lc (Some (Some old)) m s = Undef Invalid_Free"
  by (simp add: error_set_def)

lemma error_set_null: "error_set lc None m s = Ret (None, s)"
  by (simp add: error_set_def)

text \<open>
  How an operation with result \<open>ok\<close> treats \<open>error\<close>: it succeeds without touching it, or it fails and,
  where a message can be stored, stores one.
\<close>

definition reports :: "'w libc \<Rightarrow> bool \<Rightarrow> errp \<Rightarrow> errp \<Rightarrow> bool" where
  "reports lc ok e e' \<longleftrightarrow> (ok \<longrightarrow> e' = e) \<and> (\<not> ok \<and> formats lc \<and> e \<noteq> None \<longrightarrow> (\<exists>m. e' = Some (Some m)))"

lemma error_set_reports: "error_set lc e m s = Ret (e', s') \<Longrightarrow> umask s' = umask s \<and> reports lc False e e'"
  by (auto simp: reports_def dest: error_set_keeps error_set_stores)

lemma reports_simps [simp]: "reports lc True e e' \<longleftrightarrow> e' = e"
  by (auto simp: reports_def)

lemma reports_False: "reports lc False (Some None) e' \<Longrightarrow> formats lc \<Longrightarrow> \<exists>m. e' = Some (Some m)"
  by (simp add: reports_def)

section \<open>Properties\<close>

text \<open>When a call of \<open>_error_set\<close> is defined.  With a null \<open>error\<close> always; on a variable that
  holds no message, as long as the allocation of the formatted text succeeds; on a variable that
  still holds a message never, because the address of the variable is freed.\<close>

lemma error_set_defined_iff:
  "defined (error_set lc e m s) \<longleftrightarrow>
     (case e of
        None \<Rightarrow> True
      | Some None \<Rightarrow> (case vsnprintf_len lc m of None \<Rightarrow> True | Some len \<Rightarrow> fst (malloc lc (len + 1) (world s)))
      | Some (Some old) \<Rightarrow> False)"
  by (auto simp: error_set_def alloc_def split: option.splits prod.splits bool.splits)

end
