(* ===== verification/Parse.thy ===== *)
theory Parse
  imports Netmask CString Errors
begin

text \<open>
  Parsing (\<open>parse.h\<close> and \<open>parse.c\<close>): \<open>parse_ulong\<close> over the standard's \<open>strtoul\<close> in base 10, and
  \<open>parse_addr\<close>, which turns the text of a message into an \<open>addr_t\<close>.  \<open>inet_pton\<close> and \<open>getaddrinfo\<close>
  are parameters; \<open>unsigned long\<close> has 64 bits, as on the LP64 systems the program is built for.
\<close>

section \<open>strtoul\<close>

type_synonym ulong = "64 word"

definition is_space :: "char \<Rightarrow> bool" where
  "is_space c \<longleftrightarrow> (of_char c :: nat) = 32 \<or> (9 \<le> (of_char c :: nat) \<and> (of_char c :: nat) \<le> 13)"

definition is_digit :: "char \<Rightarrow> bool" where
  "is_digit c \<longleftrightarrow> 48 \<le> (of_char c :: nat) \<and> (of_char c :: nat) \<le> 57"

fun dec_value :: "nat \<Rightarrow> string \<Rightarrow> nat" where
  "dec_value v [] = v"
| "dec_value v (c # cs) = dec_value (10 * v + (of_char c - 48)) cs"

abbreviation ULONG_MAX :: ulong where
  "ULONG_MAX \<equiv> 0xFFFFFFFFFFFFFFFF"

abbreviation ERANGE :: nat where
  "ERANGE \<equiv> 34"

abbreviation EINVAL :: nat where
  "EINVAL \<equiv> 22"

text \<open>
  \<open>strtoul(str, &endptr, 10)\<close>: white space, an optional sign, digits.  The result is the value,
  the distance from \<open>str\<close> to \<open>endptr\<close> (0 when there is no digit) and whether the value is out of
  range; a minus sign negates in the unsigned type, as the standard says.
\<close>

definition strtoul :: "string \<Rightarrow> ulong \<times> nat \<times> bool" where
  "strtoul str =
     (let ws = takeWhile is_space str;
          rest = dropWhile is_space str;
          neg = (rest \<noteq> [] \<and> hd rest = CHR ''-'');
          sgn = (if rest \<noteq> [] \<and> (hd rest = CHR ''-'' \<or> hd rest = CHR ''+'') then 1 else 0);
          ds = takeWhile is_digit (drop sgn rest);
          v = dec_value 0 ds
      in if ds = [] then (0, 0, False)
         else if 2 ^ 64 \<le> v then (ULONG_MAX, length ws + sgn + length ds, True)
         else (if neg then - of_nat v else of_nat v, length ws + sgn + length ds, False))"

section \<open>parse\_ulong\<close>

text \<open>
  The result is the returned flag with the new values of \<open>*val\<close>, \<open>*error\<close> and the process.
  \<open>errno\<close> is not cleared before the call of \<open>strtoul\<close>.
\<close>

definition parse_ulong ::
  "'w libc \<Rightarrow> string \<Rightarrow> errp \<Rightarrow> 'w proc \<Rightarrow> (bool \<times> ulong \<times> errp \<times> 'w proc) outcome" where
  "parse_ulong lc str error s =
     (case strtoul str of (val, n, erange) \<Rightarrow>
      let s = (if erange then s\<lparr>errno := ERANGE\<rparr>
               else if n = 0 \<and> strtoul_einval lc then s\<lparr>errno := EINVAL\<rparr> else s)
      in if errno s = ERANGE \<and> val = ULONG_MAX \<or> errno s \<noteq> 0 \<and> val = 0 then
           andthen (set_generic_error lc error (''overflow or underflow for '%s'' @ [CHR 0x27]) [SArg str] s)
             (\<lambda>(error, s). Ret (False, val, error, s))
         else if n = 0 then
           andthen (set_generic_error lc error ''number expected, no digit found'' [] s)
             (\<lambda>(error, s). Ret (False, val, error, s))
         else if n < length str then
           andthen (set_generic_error lc error ''number expected, non digit found %c in %s''
               [CArg (str ! n), SArg str] s)
             (\<lambda>(error, s). Ret (False, val, error, s))
         else if val \<le> 0 then
           andthen (set_generic_error lc error ''number should be greater than 0, got %ld''
               [IArg (sint val)] s)
             (\<lambda>(error, s). Ret (False, val, error, s))
         else Ret (True, val, error, s))"

section \<open>Addresses\<close>

datatype af = AF_INET | AF_INET6 | AF_OTHER nat

record addr_t =
  sa :: "byte list"        \<comment> \<open>the 16 bytes of the union of \<open>in_addr\<close> and \<open>in6_addr\<close>\<close>
  fa :: af
  sa_size :: nat
  netmask :: byte
  humanrepr :: "char list" \<comment> \<open>\<open>INET6_ADDRSTRLEN + 1\<close> characters\<close>

record addrinfo =
  ai_family :: af
  ai_addr :: "byte list option"

text \<open>
  The resolver: \<open>inet_pton\<close> gives the bytes it stores when it returns 1; \<open>getaddrinfo node nh\<close>
  is called without service and, for \<open>nh\<close>, with \<open>AI_NUMERICHOST\<close>; it gives an error code or the
  list of results.
\<close>

record 'w netlib =
  inet_pton :: "af \<Rightarrow> string \<Rightarrow> byte list option"
  getaddrinfo :: "string \<Rightarrow> bool \<Rightarrow> 'w \<Rightarrow> (nat + addrinfo list) \<times> 'w"

abbreviation HUMANREPR_SIZE :: nat where
  "HUMANREPR_SIZE \<equiv> 47"

text \<open>\<open>bzero(addr, sizeof(*addr))\<close>\<close>

definition addr_zero :: addr_t where
  "addr_zero = \<lparr>sa = replicate 16 0, fa = AF_OTHER 0, sa_size = 0, netmask = 0,
     humanrepr = replicate HUMANREPR_SIZE NUL\<rparr>"

section \<open>parse\_addr\<close>

text \<open>The branch of a string with a slash at index \<open>i\<close> (lines 128 to 175).  The flag that
  \<open>parse_ulong\<close> returns is dropped, and the copy that \<open>strdup\<close> makes is written to unchecked.\<close>

definition parse_addr_cidr ::
  "'w libc \<Rightarrow> 'w netlib \<Rightarrow> string \<Rightarrow> nat \<Rightarrow> errp \<Rightarrow> 'w proc \<Rightarrow>
   (bool \<times> addr_t \<times> string \<times> errp \<times> 'w proc) outcome" where
  "parse_addr_cidr lc nl str i error s =
     (case alloc lc (length str + 1) s of
        (False, s) \<Rightarrow> Undef Null_Deref
      | (True, s) \<Rightarrow>
          let buffer = take i str in
          andthen (parse_ulong lc (drop (Suc i) str) error s) (\<lambda>(_, prefix, error, s).
          case getaddrinfo nl buffer True (world s) of
            (Inl ret, w) \<Rightarrow>
              andthen (set_generic_error lc error ''getaddrinfo failed: %s''
                  [SArg (gai_strerror lc ret)] (s\<lparr>world := w\<rparr>))
                (\<lambda>(error, s). Ret (False, addr_zero, buffer, error, s))
          | (Inr [], w) \<Rightarrow> Undef Null_Deref
          | (Inr (res # _), w) \<Rightarrow>
              let s = s\<lparr>world := w\<rparr> in
              if ai_family res = AF_INET \<and> 32 < prefix then
                andthen (set_generic_error lc error ''prefix too long for AF_INET'' [] s)
                  (\<lambda>(error, s). Ret (False, addr_zero, buffer, error, s))
              else if ai_family res = AF_INET6 \<and> 128 < prefix then
                andthen (set_generic_error lc error ''prefix too long for AF_INET6'' [] s)
                  (\<lambda>(error, s). Ret (False, addr_zero, buffer, error, s))
              else
                (case (ai_family res, inet_pton nl (ai_family res) buffer) of
                   (AF_INET, Some bs) \<Rightarrow>
                     andthen (write_at (sa addr_zero) 0 bs) (\<lambda>m.
                     Ret (True, addr_zero\<lparr>sa := m, sa_size := 4, netmask := ucast prefix, fa := AF_INET\<rparr>,
                       buffer, error, s))
                 | (AF_INET6, Some bs) \<Rightarrow>
                     andthen (write_at (sa addr_zero) 0 bs) (\<lambda>m.
                     Ret (True, addr_zero\<lparr>sa := m, sa_size := 16, netmask := ucast prefix, fa := AF_INET6\<rparr>,
                       buffer, error, s))
                 | _ \<Rightarrow>
                     andthen (set_generic_error lc error ''valid address expected, got: %s'' [SArg buffer] s)
                       (\<lambda>(error, s). Ret (False, addr_zero, buffer, error, s)))))"

text \<open>The branch of a string without a slash (lines 176 to 189).\<close>

definition parse_addr_host ::
  "'w libc \<Rightarrow> 'w netlib \<Rightarrow> string \<Rightarrow> errp \<Rightarrow> 'w proc \<Rightarrow>
   (bool \<times> addr_t \<times> string \<times> errp \<times> 'w proc) outcome" where
  "parse_addr_host lc nl buffer error s =
     (case inet_pton nl AF_INET buffer of
        Some bs \<Rightarrow>
          andthen (write_at (sa addr_zero) 0 bs) (\<lambda>m.
          Ret (True, addr_zero\<lparr>sa := m, fa := AF_INET, netmask := 32, sa_size := 4\<rparr>, buffer, error, s))
      | None \<Rightarrow>
          (case inet_pton nl AF_INET6 buffer of
             Some bs \<Rightarrow>
               andthen (write_at (sa addr_zero) 0 bs) (\<lambda>m.
               Ret (True, addr_zero\<lparr>sa := m, fa := AF_INET6, netmask := 64, sa_size := 16\<rparr>, buffer, error, s))
           | None \<Rightarrow>
               andthen (set_generic_error lc error ''valid address expected, got: %s'' [SArg buffer] s)
                 (\<lambda>(error, s). Ret (False, addr_zero, buffer, error, s))))"

text \<open>The common end (lines 190 to 217): mask the address and copy its text.\<close>

definition parse_addr_finish ::
  "'w libc \<Rightarrow> addr_t \<Rightarrow> string \<Rightarrow> errp \<Rightarrow> 'w proc \<Rightarrow> (bool \<times> addr_t \<times> errp \<times> 'w proc) outcome" where
  "parse_addr_finish lc addr buffer error s =
     andthen (apply_netmask (big_endian lc) (unat (netmask addr)) (sa addr)) (\<lambda>m.
     andthen (strlcpy (humanrepr addr) (buffer @ [NUL]) HUMANREPR_SIZE) (\<lambda>(n, h).
     let addr = addr\<lparr>sa := m, humanrepr := h\<rparr> in
     if HUMANREPR_SIZE \<le> n then
       andthen (set_generic_error lc error ''buffer overflow'' [] s)
         (\<lambda>(error, s). Ret (False, addr, error, s))
     else Ret (True, addr, error, s)))"

definition parse_addr ::
  "'w libc \<Rightarrow> 'w netlib \<Rightarrow> string \<Rightarrow> errp \<Rightarrow> 'w proc \<Rightarrow> (bool \<times> addr_t \<times> errp \<times> 'w proc) outcome" where
  "parse_addr lc nl str error s =
     andthen
       (case strchr str CHR ''/'' of
          Some i \<Rightarrow> parse_addr_cidr lc nl str i error s
        | None \<Rightarrow> parse_addr_host lc nl str error s)
       (\<lambda>(ok, addr, buffer, error, s).
        if ok then parse_addr_finish lc addr buffer error s else Ret (False, addr, error, s))"

section \<open>Lemmas on numbers\<close>

text \<open>The decimal digits of a number, and the strings that \<open>strtoul\<close> reads to their end.\<close>

fun dec :: "nat \<Rightarrow> string" where
  "dec n = (if n < 10 then [char_of (48 + n)] else dec (n div 10) @ [char_of (48 + n mod 10)])"

declare dec.simps [simp del]

definition ulong_text :: "string \<Rightarrow> ulong \<Rightarrow> bool" where
  "ulong_text str v \<longleftrightarrow> (\<exists>ws sg ds. str = ws @ sg @ ds \<and> list_all is_space ws \<and>
     sg \<in> {[], ''-'', ''+''} \<and> ds \<noteq> [] \<and> list_all is_digit ds \<and> dec_value 0 ds < 2 ^ 64 \<and>
     v = (if sg = ''-'' then - of_nat (dec_value 0 ds) else of_nat (dec_value 0 ds)))"

lemma dec_value_append: "dec_value v (xs @ ys) = dec_value (dec_value v xs) ys"
  by (induction xs arbitrary: v) auto

lemma digit_char: "k < 10 \<Longrightarrow> of_char (char_of (48 + k :: nat)) = 48 + k"
  by simp

lemma dec_digits: "list_all is_digit (dec n)"
proof (induction n rule: dec.induct)
  case (1 n)
  then show ?case by (cases "n < 10") (auto simp: dec.simps [of n] is_digit_def digit_char)
qed

lemma dec_nonempty: "dec n \<noteq> []"
  by (subst dec.simps) simp

lemma dec_value_dec: "dec_value 0 (dec n) = n"
proof (induction n rule: dec.induct)
  case (1 n)
  then show ?case by (cases "n < 10") (auto simp: dec.simps [of n] digit_char dec_value_append)
qed

lemma sign_class: "\<not> is_space CHR ''-''" "\<not> is_space CHR ''+''" "\<not> is_digit CHR ''-''" "\<not> is_digit CHR ''+''"
  by (simp_all add: is_space_def is_digit_def)

lemma digit_no_space: "is_digit c \<Longrightarrow> \<not> is_space c"
  by (auto simp: is_space_def is_digit_def)

lemma digit_no_sign: "is_digit c \<Longrightarrow> c \<noteq> CHR ''-'' \<and> c \<noteq> CHR ''+''"
  using sign_class by metis

lemma takeWhile_list_all: "list_all P xs \<Longrightarrow> takeWhile P xs = xs"
  by (induction xs) auto

lemma takeWhile_prefix:
  "list_all P xs \<Longrightarrow> ys = [] \<or> \<not> P (hd ys) \<Longrightarrow> takeWhile P (xs @ ys) = xs \<and> dropWhile P (xs @ ys) = ys"
  by (induction xs) (cases ys; auto)+

lemma strtoul_text:
  assumes "list_all is_space ws" and "sg \<in> {[], ''-'', ''+''}" and "ds \<noteq> []" and "list_all is_digit ds"
    and "dec_value 0 ds < 2 ^ 64"
  shows "strtoul (ws @ sg @ ds) =
    (if sg = ''-'' then - of_nat (dec_value 0 ds) else of_nat (dec_value 0 ds), length (ws @ sg @ ds), False)"
proof -
  from assms(3,4) have hd: "is_digit (hd ds)" by (cases ds) auto
  with assms(2,3) have "\<not> is_space (hd (sg @ ds))" by (auto simp: sign_class digit_no_space)
  with assms(1) have "takeWhile is_space (ws @ sg @ ds) = ws" "dropWhile is_space (ws @ sg @ ds) = sg @ ds"
    using takeWhile_prefix [of is_space ws "sg @ ds"] by auto
  then show ?thesis
    using assms hd by (auto simp: strtoul_def takeWhile_list_all dest: digit_no_sign)
qed

lemma strtoul_whole:
  assumes "strtoul str = (v, length str, False)" and "str \<noteq> []"
  shows "ulong_text str v"
proof -
  define ws rest where "ws = takeWhile is_space str" and "rest = dropWhile is_space str"
  define k where "k = (if rest \<noteq> [] \<and> (hd rest = CHR ''-'' \<or> hd rest = CHR ''+'') then 1 else (0 :: nat))"
  define sg ds where "sg = take k rest" and "ds = takeWhile is_digit (drop k rest)"
  have str: "str = ws @ sg @ drop k rest" by (simp add: ws_def rest_def sg_def)
  have sg: "sg \<in> {[], ''-'', ''+''}" "length sg = k" "sg = ''-'' \<longleftrightarrow> rest \<noteq> [] \<and> hd rest = CHR ''-''"
    by (cases rest; auto simp: sg_def k_def)+
  have st: "strtoul str = (if ds = [] then (0, 0, False)
      else if 2 ^ 64 \<le> dec_value 0 ds then (ULONG_MAX, length ws + k + length ds, True)
      else (if sg = ''-'' then - of_nat (dec_value 0 ds) else of_nat (dec_value 0 ds),
            length ws + k + length ds, False))"
    by (simp only: strtoul_def Let_def ws_def [symmetric] rest_def [symmetric] k_def [symmetric]
        ds_def [symmetric] sg(3))
  with assms have ds: "ds \<noteq> []" "dec_value 0 ds < 2 ^ 64" "length ws + k + length ds = length str"
    and v: "v = (if sg = ''-'' then - of_nat (dec_value 0 ds) else of_nat (dec_value 0 ds))"
    by (auto split: if_splits)
  from ds(3) str sg(2) have "length ds = length (drop k rest)" by (metis add.assoc add_left_cancel length_append)
  then have "ds = drop k rest" unfolding ds_def by (metis takeWhile_eq_take take_all order_refl)
  moreover have "list_all is_space ws" "list_all is_digit ds"
    by (auto simp: ws_def ds_def list_all_iff dest: set_takeWhileD)
  ultimately show ?thesis using str sg(1) ds v unfolding ulong_text_def by blast
qed

lemma strtoul_whole_iff: "strtoul str = (v, length str, False) \<and> str \<noteq> [] \<longleftrightarrow> ulong_text str v"
proof
  assume "ulong_text str v"
  then obtain ws sg ds where str: "str = ws @ sg @ ds" and
    w: "list_all is_space ws" "sg \<in> {[], ''-'', ''+''}" "ds \<noteq> []" "list_all is_digit ds" "dec_value 0 ds < 2 ^ 64" and
    v: "v = (if sg = ''-'' then - of_nat (dec_value 0 ds) else of_nat (dec_value 0 ds))"
    unfolding ulong_text_def by blast
  from strtoul_text [OF w] v have "strtoul str = (v, length str, False)" by (simp only: str)
  moreover from w(3) str have "str \<noteq> []" by simp
  ultimately show "strtoul str = (v, length str, False) \<and> str \<noteq> []" by blast
qed (use strtoul_whole in blast)

lemma strtoul_erange: "strtoul str = (v, n, True) \<Longrightarrow> v = ULONG_MAX \<and> n \<noteq> 0"
  by (auto simp: strtoul_def Let_def split: if_splits)

lemma strtoul_length:
  assumes "strtoul str = (v, n, er)"
  shows "n \<le> length str"
proof -
  define rest where "rest = dropWhile is_space str"
  define k where "k = (if rest \<noteq> [] \<and> (hd rest = CHR ''-'' \<or> hd rest = CHR ''+'') then 1 else (0 :: nat))"
  have l: "length (takeWhile is_space str) + length rest = length str"
    by (metis rest_def length_append takeWhile_dropWhile_id)
  have "k \<le> length rest" by (cases rest) (auto simp: k_def)
  then have "k + length (takeWhile is_digit (drop k rest)) \<le> length rest"
    using length_takeWhile_le [of is_digit "drop k rest"] by simp
  moreover have "n = 0 \<or> n = length (takeWhile is_space str) + k + length (takeWhile is_digit (drop k rest))"
    using assms unfolding strtoul_def Let_def rest_def [symmetric] k_def [symmetric]
    by (auto split: if_splits)
  ultimately show ?thesis using l by linarith
qed

section \<open>Lemmas on parse\_ulong\<close>

lemma parse_ulong_Ret:
  assumes "parse_ulong lc str e s = Ret (ok, v, e', s')"
  shows "v = fst (strtoul str)" "umask s' = umask s" "stderr_log s' = stderr_log s" "e' = None \<longleftrightarrow> e = None"
    "ok \<Longrightarrow> e' = e" "\<not> ok \<Longrightarrow> formats lc \<Longrightarrow> e \<noteq> None \<Longrightarrow> \<exists>m. e' = Some (Some m)"
    "\<not> ok \<Longrightarrow> e = None \<or> e = Some None" "e = None \<Longrightarrow> world s' = world s"
  using assms
  by (auto simp: parse_ulong_def Let_def set_generic_error_def outcome_simps split: prod.splits if_splits
      dest: error_set_Ret error_set_stores)

lemma parse_ulong_True_iff:
  "parse_ulong lc str e s = Ret (True, v, e', s') \<longleftrightarrow>
     ulong_text str v \<and> v \<noteq> 0 \<and> \<not> (errno s = ERANGE \<and> v = ULONG_MAX) \<and> e' = e \<and> s' = s"
proof -
  obtain w n er where st: "strtoul str = (w, n, er)" by (cases "strtoul str")
  note le = strtoul_length [OF st]
  show ?thesis
  proof (cases er)
    case True
    with st have "w = ULONG_MAX" using strtoul_erange [of str w n] by simp
    with True st show ?thesis
      by (auto simp: parse_ulong_def Let_def outcome_simps strtoul_whole_iff [symmetric] split: prod.splits)
  next
    case False
    with st le show ?thesis
      by (auto simp: parse_ulong_def Let_def outcome_simps strtoul_whole_iff [symmetric] split: prod.splits if_splits)
  qed
qed

section \<open>Contracts of the resolver and well-formed addresses\<close>

text \<open>
  What \<open>inet_pton\<close> documents: it stores 4 or 16 bytes, and the texts it accepts fit into
  \<open>INET_ADDRSTRLEN\<close> (16) and \<open>INET6_ADDRSTRLEN\<close> (46) characters with their terminator.
\<close>

definition inet_pton_sound :: "'w netlib \<Rightarrow> bool" where
  "inet_pton_sound nl \<longleftrightarrow>
     (\<forall>str bs. inet_pton nl AF_INET str = Some bs \<longrightarrow> length bs = 4 \<and> length str < 16) \<and>
     (\<forall>str bs. inet_pton nl AF_INET6 str = Some bs \<longrightarrow> length bs = 16 \<and> length str < 46)"

text \<open>\<open>getaddrinfo\<close> with \<open>AI_NUMERICHOST\<close> accepts the texts of \<open>inet_pton\<close>, with their family.\<close>

definition gai_numeric :: "'w netlib \<Rightarrow> bool" where
  "gai_numeric nl \<longleftrightarrow>
     (\<forall>f str bs w. f \<in> {AF_INET, AF_INET6} \<and> inet_pton nl f str = Some bs \<longrightarrow>
        (\<exists>res more w'. getaddrinfo nl str True w = (Inr (res # more), w') \<and> ai_family res = f))"

text \<open>
  The invariant of a parsed address: its union has 16 bytes and holds no host bits, the size and
  the prefix length fit the family, the text is terminated.
\<close>

definition addr_wf :: "addr_t \<Rightarrow> bool" where
  "addr_wf a \<longleftrightarrow>
     length (sa a) = 16 \<and> length (humanrepr a) = HUMANREPR_SIZE \<and> defined (c_str (humanrepr a)) \<and>
     (fa a = AF_INET \<and> sa_size a = 4 \<and> netmask a \<le> 32 \<or>
      fa a = AF_INET6 \<and> sa_size a = 16 \<and> netmask a \<le> 128) \<and>
     network (unat (netmask a)) (sa a) = sa a"

text \<open>The address that the text \<open>host\<close> with family \<open>f\<close>, bytes \<open>bs\<close> and prefix length \<open>n\<close> denotes.\<close>

definition addr_of :: "af \<Rightarrow> string \<Rightarrow> byte list \<Rightarrow> nat \<Rightarrow> addr_t" where
  "addr_of f host bs n =
     \<lparr>sa = network n (bs @ replicate (16 - length bs) 0), fa = f, sa_size = length bs,
      netmask = of_nat n, humanrepr = host @ replicate (HUMANREPR_SIZE - length host) NUL\<rparr>"

section \<open>Lemmas on parse\_addr\<close>

lemma network_twice: "n \<le> 8 * length a \<Longrightarrow> network n (network n a) = network n a"
  by (rule bytes_eqI) (auto simp: bit_at_network)

lemma write_at_zero: "length bs \<le> 16 \<Longrightarrow> write_at (sa addr_zero) 0 bs = Ret (bs @ replicate (16 - length bs) 0)"
  by (simp add: write_at_def addr_zero_def)

lemma strlcpy_humanrepr:
  assumes "NUL \<notin> set host" and "length host < HUMANREPR_SIZE"
  shows "strlcpy (humanrepr addr_zero) (host @ [NUL]) HUMANREPR_SIZE =
    Ret (length host, host @ replicate (HUMANREPR_SIZE - length host) NUL)"
proof -
  have "NUL # replicate (46 - length host) NUL = replicate (47 - length host) NUL"
    using assms(2) by (simp add: Suc_diff_le replicate_Suc [symmetric] del: replicate_Suc)
  then show ?thesis
    using strlcpy_eq [OF assms(1), of HUMANREPR_SIZE "humanrepr addr_zero" "[]"] assms(2)
    by (simp add: addr_zero_def)
qed

lemma parse_addr_finish_addr_of:
  assumes "NUL \<notin> set host" and "length host < HUMANREPR_SIZE" and "length bs \<le> 16" and "n \<le> 128"
  shows "parse_addr_finish lc
      (addr_zero\<lparr>sa := bs @ replicate (16 - length bs) 0, fa := f, netmask := of_nat n, sa_size := length bs\<rparr>)
      host error s = Ret (True, addr_of f host bs n, error, s)"
proof -
  have "unat (of_nat n :: byte) = n" using assms(4) by (simp add: unat_of_nat)
  then show ?thesis
    using assms strlcpy_humanrepr [OF assms(1,2)]
    by (simp add: parse_addr_finish_def apply_netmask_network addr_of_def addr_zero_def)
qed

lemma addr_of_wf:
  assumes "NUL \<notin> set host" and "length host < HUMANREPR_SIZE"
    and "f = AF_INET \<and> length bs = 4 \<and> n \<le> 32 \<or> f = AF_INET6 \<and> length bs = 16 \<and> n \<le> 128"
  shows "addr_wf (addr_of f host bs n)" and "c_str (humanrepr (addr_of f host bs n)) = Ret host"
proof -
  have n: "n \<le> 128" "unat (of_nat n :: byte) = n" using assms(3) by (auto simp: unat_of_nat)
  obtain k where "HUMANREPR_SIZE - length host = Suc k" using assms(2) by (metis Suc_diff_Suc)
  then show c: "c_str (humanrepr (addr_of f host bs n)) = Ret host"
    using c_str_append_NUL [OF assms(1)] by (simp add: addr_of_def)
  have "of_nat n \<le> (32 :: byte) \<longleftrightarrow> n \<le> 32" "of_nat n \<le> (128 :: byte) \<longleftrightarrow> n \<le> 128"
    using n by (simp_all add: word_le_nat_alt)
  then show "addr_wf (addr_of f host bs n)"
    using assms n c by (auto simp: addr_wf_def addr_of_def network_twice)
qed

text \<open>The two branches end in \<open>addr_of\<close>.\<close>

lemma parse_addr_host_v4:
  assumes "inet_pton_sound nl" and "inet_pton nl AF_INET host = Some bs"
    and "NUL \<notin> set host" and "CHR ''/'' \<notin> set host"
  shows "parse_addr lc nl host e s = Ret (True, addr_of AF_INET host bs 32, e, s)"
proof -
  from assms(1,2) have "length bs = 4" "length host < HUMANREPR_SIZE"
    unfolding inet_pton_sound_def by fastforce+
  then show ?thesis using assms parse_addr_finish_addr_of [of host bs 32 lc AF_INET e s]
    by (simp add: parse_addr_def parse_addr_host_def strchr_absent write_at_zero)
qed

lemma parse_addr_host_v6:
  assumes "inet_pton_sound nl" and "inet_pton nl AF_INET host = None" "inet_pton nl AF_INET6 host = Some bs"
    and "NUL \<notin> set host" and "CHR ''/'' \<notin> set host"
  shows "parse_addr lc nl host e s = Ret (True, addr_of AF_INET6 host bs 64, e, s)"
proof -
  from assms(1,3) have "length bs = 16" "length host < HUMANREPR_SIZE"
    unfolding inet_pton_sound_def by fastforce+
  then show ?thesis using assms parse_addr_finish_addr_of [of host bs 64 lc AF_INET6 e s]
    by (simp add: parse_addr_def parse_addr_host_def strchr_absent write_at_zero)
qed

lemma parse_addr_slash:
  assumes laws: "inet_pton_sound nl" "gai_numeric nl"
    and host: "NUL \<notin> set host" "CHR ''/'' \<notin> set host" "inet_pton nl f host = Some bs"
    and al: "alloc lc (length (host @ CHR ''/'' # ptext) + 1) s = (True, s1)"
    and pu: "parse_ulong lc ptext e s1 = Ret (ok, prefix, e1, s2)"
    and f: "f = AF_INET \<and> prefix \<le> 32 \<or> f = AF_INET6 \<and> prefix \<le> 128"
  shows "\<exists>w. parse_addr lc nl (host @ CHR ''/'' # ptext) e s =
    Ret (True, addr_of f host bs (unat prefix), e1, s2\<lparr>world := w\<rparr>)"
proof -
  from laws host(3) f have len: "f = AF_INET \<and> length bs = 4 \<or> f = AF_INET6 \<and> length bs = 16"
    "length host < HUMANREPR_SIZE"
    unfolding inet_pton_sound_def by fastforce+
  from f have f': "f = AF_INET \<and> \<not> 32 < prefix \<or> f = AF_INET6 \<and> \<not> 128 < prefix"
    by (simp add: linorder_not_less)
  from f have n: "unat prefix \<le> 128" by (auto simp: word_le_nat_alt)
  obtain res more w where gai: "getaddrinfo nl host True (world s2) = (Inr (res # more), w)" "ai_family res = f"
    using laws(2) host(3) f unfolding gai_numeric_def by blast
  have "parse_addr lc nl (host @ CHR ''/'' # ptext) e s =
      parse_addr_finish lc
        (addr_zero\<lparr>sa := bs @ replicate (16 - length bs) 0, fa := f, netmask := of_nat (unat prefix),
           sa_size := length bs\<rparr>) host e1 (s2\<lparr>world := w\<rparr>)"
    unfolding parse_addr_def strchr_append [OF host(2)]
    using len(1) f' al pu gai host(3)
    by (elim disjE conjE)
      (simp_all add: parse_addr_cidr_def Let_def write_at_zero, simp_all add: addr_zero_def)
  then show ?thesis
    using parse_addr_finish_addr_of [OF host(1) len(2) _ n, of bs lc f e1 "s2\<lparr>world := w\<rparr>"] len(1) by auto
qed

lemma parse_addr_finish_True:
  assumes "parse_addr_finish lc addr host e s = Ret (True, a, e', s')"
    and "addr = addr_zero\<lparr>sa := bs @ replicate (16 - length bs) 0, fa := f, netmask := of_nat n, sa_size := length bs\<rparr>"
    and "NUL \<notin> set host" and "length bs \<le> 16" and "n \<le> 128" and "length host < HUMANREPR_SIZE"
  shows "a = addr_of f host bs n \<and> e' = e \<and> s' = s"
  using assms parse_addr_finish_addr_of [of host bs n lc f e s] by simp

lemma parse_addr_cidr_True:
  assumes "parse_addr_cidr lc nl str i e s = Ret (True, addr, buffer, e', s')"
  shows "buffer = take i str \<and> (\<exists>f bs m prefix. inet_pton nl f buffer = Some bs \<and>
    write_at (sa addr_zero) 0 bs = Ret m \<and>
    (f = AF_INET \<and> (prefix :: ulong) \<le> 32 \<or> f = AF_INET6 \<and> prefix \<le> 128) \<and>
    addr = addr_zero\<lparr>sa := m, sa_size := (if f = AF_INET then 4 else 16), netmask := ucast prefix, fa := f\<rparr>)"
proof -
  obtain s1 where al: "alloc lc (length str + 1) s = (True, s1)"
    using assms by (auto simp: parse_addr_cidr_def split: prod.splits bool.splits)
  with assms obtain ok prefix e1 s2 where pu: "parse_ulong lc (drop (Suc i) str) e s1 = Ret (ok, prefix, e1, s2)"
    by (auto simp: parse_addr_cidr_def Let_def outcome_simps)
  with assms al obtain res more w where gai: "getaddrinfo nl (take i str) True (world s2) = (Inr (res # more), w)"
    by (auto simp: parse_addr_cidr_def Let_def outcome_simps split: prod.splits sum.splits list.splits)
  from assms al pu gai have "\<not> (ai_family res = AF_INET \<and> 32 < prefix)"
    "\<not> (ai_family res = AF_INET6 \<and> 128 < prefix)"
    by (auto simp: parse_addr_cidr_def Let_def outcome_simps)
  with assms al pu gai show ?thesis
    by (auto simp: parse_addr_cidr_def Let_def outcome_simps linorder_not_less split: af.splits option.splits if_splits
        intro!: exI [of _ "ai_family res"])
qed

text \<open>Every accepted string denotes an address of the resolver.\<close>

lemma parse_addr_host_True:
  assumes laws: "inet_pton_sound nl" and str: "NUL \<notin> set str"
    and ret: "parse_addr lc nl str e s = Ret (True, a, e', s')"
    and None: "strchr str CHR ''/'' = None"
  shows "\<exists>f host bs n. a = addr_of f host bs n \<and> inet_pton nl f host = Some bs \<and>
    host = takeWhile (\<lambda>c. c \<noteq> CHR ''/'') str \<and> length host < HUMANREPR_SIZE \<and> NUL \<notin> set host \<and>
    (f = AF_INET \<and> length bs = 4 \<and> n \<le> 32 \<or> f = AF_INET6 \<and> length bs = 16 \<and> n \<le> 128)"
proof -
  from None have host: "takeWhile (\<lambda>c. c \<noteq> CHR ''/'') str = str"
    by (auto simp: strchr_None_iff takeWhile_eq_all_conv)
  from None ret consider bs where "inet_pton nl AF_INET str = Some bs"
    | bs where "inet_pton nl AF_INET str = None" "inet_pton nl AF_INET6 str = Some bs"
    by (fastforce simp: parse_addr_def parse_addr_host_def outcome_simps split: option.splits)
  then show ?thesis
  proof cases
    case 1
    with laws have "length bs = 4" "length str < HUMANREPR_SIZE" unfolding inet_pton_sound_def by fastforce+
    moreover from None have "CHR ''/'' \<notin> set str" by (simp add: strchr_None_iff)
    ultimately show ?thesis unfolding host using ret parse_addr_host_v4 [OF laws 1 str, of lc e s] 1 str
      by (intro exI [of _ AF_INET] exI [of _ str] exI [of _ bs] exI [of _ 32]) simp
  next
    case 2
    with laws have "length bs = 16" "length str < HUMANREPR_SIZE" unfolding inet_pton_sound_def by fastforce+
    moreover from None have "CHR ''/'' \<notin> set str" by (simp add: strchr_None_iff)
    ultimately show ?thesis unfolding host using ret parse_addr_host_v6 [OF laws 2 str, of lc e s] 2 str
      by (intro exI [of _ AF_INET6] exI [of _ str] exI [of _ bs] exI [of _ 64]) simp
  qed
qed

lemma parse_addr_slash_True:
  assumes laws: "inet_pton_sound nl" and str: "NUL \<notin> set str"
    and ret: "parse_addr lc nl str e s = Ret (True, a, e', s')"
    and Some: "strchr str CHR ''/'' = Some i"
  shows "\<exists>f host bs n. a = addr_of f host bs n \<and> inet_pton nl f host = Some bs \<and>
    host = takeWhile (\<lambda>c. c \<noteq> CHR ''/'') str \<and> length host < HUMANREPR_SIZE \<and> NUL \<notin> set host \<and>
    (f = AF_INET \<and> length bs = 4 \<and> n \<le> 32 \<or> f = AF_INET6 \<and> length bs = 16 \<and> n \<le> 128)"
proof -
  let ?host = "take i str"
  have host: "takeWhile (\<lambda>c. c \<noteq> CHR ''/'') str = ?host" using Some by (rule strchr_Some_takeWhile)
  have nul: "NUL \<notin> set ?host" using str in_set_takeD by fast
  obtain addr buffer e1 s1 where cidr: "parse_addr_cidr lc nl str i e s = Ret (True, addr, buffer, e1, s1)"
    and fin: "parse_addr_finish lc addr buffer e1 s1 = Ret (True, a, e', s')"
    using Some ret by (auto simp: parse_addr_def outcome_simps split: if_splits)
  from parse_addr_cidr_True [OF cidr] obtain f bs m prefix where buf: "buffer = ?host" and
    pt: "inet_pton nl f ?host = Some bs" and m: "write_at (sa addr_zero) 0 bs = Ret m" and
    f: "f = AF_INET \<and> (prefix :: ulong) \<le> 32 \<or> f = AF_INET6 \<and> prefix \<le> 128" and
    addr: "addr = addr_zero\<lparr>sa := m, sa_size := (if f = AF_INET then 4 else 16), netmask := ucast prefix, fa := f\<rparr>"
    by auto
  from laws pt f have len: "f = AF_INET \<and> length bs = 4 \<or> f = AF_INET6 \<and> length bs = 16"
    "length ?host < HUMANREPR_SIZE"
    unfolding inet_pton_sound_def by fastforce+
  from f have n: "unat prefix \<le> 128" by (auto simp: word_le_nat_alt)
  from len(1) m have m': "m = bs @ replicate (16 - length bs) 0" by (auto simp: write_at_zero)
  from len(1) have "addr = addr_zero\<lparr>sa := bs @ replicate (16 - length bs) 0, fa := f,
      netmask := of_nat (unat prefix), sa_size := length bs\<rparr>"
    by (auto simp: addr m' addr_zero_def)
  from parse_addr_finish_True [OF fin [unfolded buf] this nul _ n len(2)] len(1)
  have "a = addr_of f ?host bs (unat prefix)" by auto
  then show ?thesis
    unfolding host using f len pt nul
    by (intro exI [of _ f] exI [of _ ?host] exI [of _ bs] exI [of _ "unat prefix"]) (auto simp: word_le_nat_alt)
qed

lemma parse_addr_True:
  assumes laws: "inet_pton_sound nl" and str: "NUL \<notin> set str"
    and ret: "parse_addr lc nl str e s = Ret (True, a, e', s')"
  shows "\<exists>f host bs n. a = addr_of f host bs n \<and> inet_pton nl f host = Some bs \<and>
    host = takeWhile (\<lambda>c. c \<noteq> CHR ''/'') str \<and> length host < HUMANREPR_SIZE \<and> NUL \<notin> set host \<and>
    (f = AF_INET \<and> length bs = 4 \<and> n \<le> 32 \<or> f = AF_INET6 \<and> length bs = 16 \<and> n \<le> 128)"
  using parse_addr_host_True [OF assms] parse_addr_slash_True [OF assms] by (cases "strchr str CHR ''/''") blast+

section \<open>A sample platform\<close>

text \<open>
  Concrete instances of the parameters, for the witnesses: a C library whose allocations succeed,
  and a resolver that reads dotted quads and uncompressed groups of hexadecimal digits.
\<close>

definition sample_libc :: "'w libc" where
  "sample_libc = \<lparr>malloc = (\<lambda>n w. (True, w)), vsnprintf_len = (\<lambda>m. Some (length (fst m))),
     strerror = (\<lambda>n. ''error''), gai_strerror = (\<lambda>n. ''unknown name''), big_endian = False,
     strtoul_einval = False\<rparr>"

definition sample_proc :: "'w \<Rightarrow> 'w proc" where
  "sample_proc w = \<lparr>world = w, errno = 0, umask = 18, stderr_log = []\<rparr>"

fun split_on :: "char \<Rightarrow> string \<Rightarrow> string list" where
  "split_on c [] = [[]]"
| "split_on c (x # xs) =
     (if x = c then [] # split_on c xs
      else (case split_on c xs of [] \<Rightarrow> [[x]] | y # ys \<Rightarrow> (x # y) # ys))"

definition octet :: "string \<Rightarrow> byte option" where
  "octet s = (if s \<noteq> [] \<and> length s \<le> 3 \<and> list_all is_digit s \<and> dec_value 0 s \<le> 255
     then Some (of_nat (dec_value 0 s)) else None)"

definition dotted_quad :: "string \<Rightarrow> byte list option" where
  "dotted_quad str =
     (case map octet (split_on CHR ''.'' str) of
        [Some a, Some b, Some c, Some d] \<Rightarrow> Some [a, b, c, d]
      | _ \<Rightarrow> None)"

definition hex_digit :: "char \<Rightarrow> nat option" where
  "hex_digit c =
     (if is_digit c then Some (of_char c - 48)
      else if 97 \<le> (of_char c :: nat) \<and> (of_char c :: nat) \<le> 102 then Some (of_char c - 87) else None)"

fun hex_value :: "nat \<Rightarrow> string \<Rightarrow> nat option" where
  "hex_value v [] = Some v"
| "hex_value v (c # cs) = (case hex_digit c of None \<Rightarrow> None | Some d \<Rightarrow> hex_value (16 * v + d) cs)"

definition hextet :: "string \<Rightarrow> byte list option" where
  "hextet s = (if s \<noteq> [] \<and> length s \<le> 4
     then map_option (\<lambda>v. [of_nat (v div 256), of_nat v]) (hex_value 0 s) else None)"

definition colon_hex :: "string \<Rightarrow> byte list option" where
  "colon_hex str =
     (case map hextet (split_on CHR '':'' str) of
        [Some a, Some b, Some c, Some d, Some e, Some f, Some g, Some h] \<Rightarrow>
          Some (a @ b @ c @ d @ e @ f @ g @ h)
      | _ \<Rightarrow> None)"

definition sample_inet_pton :: "af \<Rightarrow> string \<Rightarrow> byte list option" where
  "sample_inet_pton f str =
     (case f of AF_INET \<Rightarrow> dotted_quad str | AF_INET6 \<Rightarrow> colon_hex str | AF_OTHER _ \<Rightarrow> None)"

definition sample_netlib :: "'w netlib" where
  "sample_netlib = \<lparr>inet_pton = sample_inet_pton,
     getaddrinfo = (\<lambda>str nh w.
       case dotted_quad str of
         Some bs \<Rightarrow> (Inr [\<lparr>ai_family = AF_INET, ai_addr = Some ([16, 2, 0, 0] @ bs @ replicate 8 0)\<rparr>], w)
       | None \<Rightarrow>
           (case colon_hex str of
              Some bs \<Rightarrow> (Inr [\<lparr>ai_family = AF_INET6,
                ai_addr = Some ([28, 28, 0, 0, 0, 0, 0, 0] @ bs @ replicate 4 0)\<rparr>], w)
            | None \<Rightarrow> (Inl 8, w)))\<rparr>"

text \<open>The sample resolver obeys the laws.\<close>

lemma split_on_length: "length str + 1 = sum_list (map length (split_on c str)) + length (split_on c str)"
  by (induction str) (auto split: list.splits)

lemma octet_Some: "octet s = Some b \<Longrightarrow> length s \<le> 3"
  by (auto simp: octet_def split: if_splits)

lemma hextet_Some: "hextet s = Some bs \<Longrightarrow> length s \<le> 4 \<and> length bs = 2"
  by (auto simp: hextet_def split: if_splits)

lemma dotted_quad_Some: "dotted_quad str = Some bs \<Longrightarrow> length bs = 4 \<and> length str < 16"
  using split_on_length [of str "CHR ''.''"]
  by (auto simp: dotted_quad_def split: list.splits option.splits dest!: octet_Some)

lemma colon_hex_Some: "colon_hex str = Some bs \<Longrightarrow> length bs = 16 \<and> length str < 46"
  using split_on_length [of str "CHR '':''"]
  by (auto simp: colon_hex_def split: list.splits option.splits dest!: hextet_Some)

lemma sample_inet_pton_sound: "inet_pton_sound sample_netlib"
  by (auto simp: inet_pton_sound_def sample_netlib_def sample_inet_pton_def dest: dotted_quad_Some colon_hex_Some)

lemma split_on_set: "x \<in> set str \<Longrightarrow> x = c \<or> (\<exists>p \<in> set (split_on c str). x \<in> set p)"
  by (induction str) (auto split: list.splits)

lemma split_on_absent: "c \<notin> set str \<Longrightarrow> split_on c str = [str]"
  by (induction str) auto

lemma dotted_quad_chars: "dotted_quad str = Some bs \<Longrightarrow> x \<in> set str \<Longrightarrow> x = CHR ''.'' \<or> is_digit x"
  using split_on_set [of x str "CHR ''.''"]
  by (fastforce simp: dotted_quad_def octet_def list_all_iff split: list.splits option.splits if_splits)

lemma colon_hex_colon: "colon_hex str = Some bs \<Longrightarrow> CHR '':'' \<in> set str"
  by (rule ccontr) (auto simp: colon_hex_def split_on_absent split: list.splits option.splits)

lemma dotted_quad_colon_hex: "colon_hex str = Some bs \<Longrightarrow> dotted_quad str = None"
  using dotted_quad_chars [of str _ "CHR '':''"] colon_hex_colon [of str bs]
  by (cases "dotted_quad str") (auto simp: is_digit_def)

lemma sample_gai_numeric: "gai_numeric sample_netlib"
  by (auto simp: gai_numeric_def sample_netlib_def sample_inet_pton_def dotted_quad_colon_hex
      split: option.splits)

lemmas sample_laws = sample_inet_pton_sound sample_gai_numeric

section \<open>Properties of parse\_ulong\<close>

text \<open>C24: what \<open>parse_ulong\<close> accepts.  It returns true exactly on white space, an optional sign and
  a non-empty run of decimal digits whose number fits 64 bits, read to the end of the string,
  with a non-zero value; then \<open>*val\<close> is that value (negated modulo $2^{64}$ after a minus sign), and
  neither \<open>*error\<close> nor the process changes.  The one accepted text it refuses is the one with
  the value \<open>ULONG_MAX\<close> while \<open>errno\<close> still holds \<open>ERANGE\<close> from an earlier call.\<close>

theorem parse_ulong_accepts_iff:
  "parse_ulong lc str e s = Ret (True, v, e', s') \<longleftrightarrow>
     ulong_text str v \<and> v \<noteq> 0 \<and> \<not> (errno s = ERANGE \<and> v = ULONG_MAX) \<and> e' = e \<and> s' = s"
  by (rule parse_ulong_True_iff)

lemma ulong_text_dec: "n < 2 ^ 64 \<Longrightarrow> ulong_text (dec n) (of_nat n)"
  unfolding ulong_text_def
  by (rule exI [of _ "[]"], rule exI [of _ "[]"], rule exI [of _ "dec n"])
    (simp add: dec_nonempty dec_digits dec_value_dec)

lemma ulong_text_minus: "n < 2 ^ 64 \<Longrightarrow> ulong_text (CHR ''-'' # dec n) (- of_nat n)"
  unfolding ulong_text_def
  by (rule exI [of _ "[]"], rule exI [of _ "''-''"], rule exI [of _ "dec n"])
    (simp add: dec_nonempty dec_digits dec_value_dec)

lemma of_nat_ulong_0: "0 < n \<Longrightarrow> n < 2 ^ 64 \<Longrightarrow> of_nat n \<noteq> (0 :: ulong)"
  by (simp add: word_of_nat_eq_0_iff nat_dvd_not_less)

lemma of_nat_ulong_max:
  assumes "n < 2 ^ 64 - 1"
  shows "of_nat n \<noteq> ULONG_MAX"
proof
  assume "of_nat n = ULONG_MAX"
  then have "unat (of_nat n :: ulong) = unat ULONG_MAX" by simp
  with assms show False by (simp add: unat_of_nat)
qed

lemma parse_ulong_decimal:
  assumes "0 < n" and "n < 2 ^ 64 - 1"
  shows "parse_ulong lc (dec n) e s = Ret (True, of_nat n, e, s)"
  using assms of_nat_ulong_max [OF assms(2)]
  by (simp add: parse_ulong_True_iff ulong_text_dec of_nat_ulong_0)

text \<open>Parsing the decimal digits of a positive number below \<open>ULONG_MAX\<close> gives the number back,
  whatever \<open>errno\<close> holds.\<close>

lemma parse_ulong_dec:
  assumes "0 < n" and "n < 2 ^ 64 - 1"
  shows "parse_ulong lc (dec n) e s = Ret (True, of_nat n, e, s)"
  using assms by (rule parse_ulong_decimal)

lemma parse_ulong_dec_witness:
  "parse_ulong sample_libc (dec 1024) (Some None) (sample_proc ()) =
     Ret (True, of_nat 1024, Some None, sample_proc ())"
  by (rule parse_ulong_dec) simp_all

text \<open>A minus sign is accepted: the text of \<open>-n\<close> parses to $2^{64} - n$, although the function
  reports numbers that are not \<open>greater than 0\<close> as an error.\<close>

lemma parse_ulong_minus:
  assumes "0 < n" and "n < 2 ^ 64" and "errno s \<noteq> ERANGE"
  shows "parse_ulong lc (CHR ''-'' # dec n) e s = Ret (True, - of_nat n, e, s)"
  using assms by (simp add: parse_ulong_True_iff ulong_text_minus of_nat_ulong_0)

lemma parse_ulong_minus_witness:
  "parse_ulong sample_libc (CHR ''-'' # dec 1) (Some None) (sample_proc ()) =
     Ret (True, - of_nat 1, Some None, sample_proc ())"
  by (rule parse_ulong_minus) (simp_all add: sample_proc_def)

section \<open>Properties of parse\_addr\<close>

text \<open>C12: every address that \<open>parse_addr\<close> accepts is well formed: the union holds 16 bytes without
  host bits, size and prefix length fit the family, the text is terminated, and the text that the
  engines print is the part of the message before the slash, which \<open>inet_pton\<close> reads as an address
  of that family.\<close>

theorem parse_addr_wf:
  assumes "inet_pton_sound nl" and "NUL \<notin> set str"
    and "parse_addr lc nl str e s = Ret (True, a, e', s')"
  shows "addr_wf a \<and> c_str (humanrepr a) = Ret (takeWhile (\<lambda>c. c \<noteq> CHR ''/'') str) \<and>
    (\<exists>bs. inet_pton nl (fa a) (takeWhile (\<lambda>c. c \<noteq> CHR ''/'') str) = Some bs \<and>
      sa a = network (unat (netmask a)) (bs @ replicate (16 - length bs) 0))"
proof -
  obtain f host bs n where a: "a = addr_of f host bs n" "inet_pton nl f host = Some bs"
    "host = takeWhile (\<lambda>c. c \<noteq> CHR ''/'') str" "length host < HUMANREPR_SIZE" "NUL \<notin> set host" and
    f: "f = AF_INET \<and> length bs = 4 \<and> n \<le> 32 \<or> f = AF_INET6 \<and> length bs = 16 \<and> n \<le> 128"
    using parse_addr_True [OF assms] by blast
  have "unat (of_nat n :: byte) = n" using f by (auto simp: unat_of_nat)
  with addr_of_wf [OF a(5,4) f] a show ?thesis by (auto simp: addr_of_def)
qed

lemma sample_parse_v4:
  "parse_addr sample_libc sample_netlib ''192.0.2.77'' (Some None) (sample_proc ()) =
     Ret (True, addr_of AF_INET ''192.0.2.77'' [192, 0, 2, 77] 32, Some None, sample_proc ())"
proof (rule parse_addr_host_v4 [OF sample_inet_pton_sound])
  show "inet_pton sample_netlib AF_INET ''192.0.2.77'' = Some [192, 0, 2, 77]"
    by (simp add: sample_netlib_def sample_inet_pton_def dotted_quad_def octet_def is_digit_def)
qed simp_all

theorem parse_addr_wf_witness:
  "addr_wf (addr_of AF_INET ''192.0.2.77'' [192, 0, 2, 77] 32)"
proof -
  have "NUL \<notin> set ''192.0.2.77''" by simp
  from parse_addr_wf [OF sample_inet_pton_sound this sample_parse_v4] show ?thesis by (rule conjunct1)
qed

text \<open>A message without a slash that is an IPv4 address is accepted as a single host (prefix
  length 32), one that is an IPv6 address as the network of its first 64 bits; nothing but the
  address changes.\<close>

lemma parse_addr_host_correct:
  assumes "inet_pton_sound nl" and "NUL \<notin> set host" and "CHR ''/'' \<notin> set host"
  shows "(\<forall>bs. inet_pton nl AF_INET host = Some bs \<longrightarrow>
      parse_addr lc nl host e s = Ret (True, addr_of AF_INET host bs 32, e, s)) \<and>
    (\<forall>bs. inet_pton nl AF_INET host = None \<and> inet_pton nl AF_INET6 host = Some bs \<longrightarrow>
      parse_addr lc nl host e s = Ret (True, addr_of AF_INET6 host bs 64, e, s))"
  using assms parse_addr_host_v4 parse_addr_host_v6 by blast

lemma parse_addr_host_correct_witness:
  "parse_addr sample_libc sample_netlib ''2001:db8:0:1:0:0:0:1'' None (sample_proc ()) =
     Ret (True, addr_of AF_INET6 ''2001:db8:0:1:0:0:0:1''
       [0x20, 0x01, 0x0d, 0xb8, 0, 0, 0, 1, 0, 0, 0, 0, 0, 0, 0, 1] 64, None, sample_proc ())"
proof -
  let ?host = "''2001:db8:0:1:0:0:0:1''"
  have 4: "inet_pton sample_netlib AF_INET ?host = None"
    by (simp add: sample_netlib_def sample_inet_pton_def dotted_quad_def octet_def)
  have 6: "inet_pton sample_netlib AF_INET6 ?host =
      Some [0x20, 0x01, 0x0d, 0xb8, 0, 0, 0, 1, 0, 0, 0, 0, 0, 0, 0, 1]"
    by (simp add: sample_netlib_def sample_inet_pton_def colon_hex_def hextet_def hex_digit_def is_digit_def)
  have "NUL \<notin> set ?host" "CHR ''/'' \<notin> set ?host" by simp_all
  from parse_addr_host_correct [OF sample_inet_pton_sound this] 4 6 show ?thesis by blast
qed

lemma parse_ulong_value: "parse_ulong lc str e s = Ret (ok, v, e', s') \<Longrightarrow> v = fst (strtoul str)"
  by (auto simp: parse_ulong_def Let_def elim!: andthenE split: prod.splits if_splits)

text \<open>A text that is no number other than 0 is refused; the value that \<open>strtoul\<close> read so far is stored all the same.\<close>

lemma parse_ulong_refuses:
  assumes "formats lc" and "allocates lc" and "\<not> (\<exists>v. ulong_text str v \<and> v \<noteq> 0)"
  shows "\<exists>m s'. parse_ulong lc str (Some None) s = Ret (False, fst (strtoul str), Some (Some m), s')"
proof -
  obtain val n er where st: "strtoul str = (val, n, er)" by (cases "strtoul str")
  define P where "P x \<longleftrightarrow> (\<exists>m s'. x = Ret (False, val, Some (Some m), s')) \<or> (\<exists>v e s'. x = Ret (True, v, e, s'))"
    for x :: "(bool \<times> ulong \<times> errp \<times> 'a proc) outcome"
  have err: "P (andthen (set_generic_error lc (Some None) fmt args s1) (\<lambda>(error, s). Ret (False, val, error, s)))" for fmt args s1
    using error_set_first [OF assms(1,2), of "(fmt, args)" s1] by (auto simp: set_generic_error_def P_def)
  have cond: "P (if c then x else y)" if "P x" "P y" for c x y using that by simp
  have ok: "P (Ret (True, v, e, s1))" for v e s1 by (simp add: P_def)
  have "P (parse_ulong lc str (Some None) s)"
    unfolding parse_ulong_def st prod.case Let_def by (intro cond err ok)
  then show ?thesis using assms(3) st by (auto simp: parse_ulong_True_iff P_def)
qed

lemma strtoul_zero_refused: "fst (strtoul str) = 0 \<Longrightarrow> \<not> (\<exists>v. ulong_text str v \<and> v \<noteq> 0)"
  by (auto simp: strtoul_whole_iff [symmetric])

lemma parse_addr_cidr_eq:
  assumes "inet_pton_sound nl" and "gai_numeric nl" and "allocates lc"
    and "NUL \<notin> set host" and "CHR ''/'' \<notin> set host" and "inet_pton nl f host = Some bs"
    and "0 < n" and "f = AF_INET \<and> n \<le> 32 \<or> f = AF_INET6 \<and> n \<le> 128"
  shows "\<exists>w. parse_addr lc nl (host @ CHR ''/'' # dec n) e s =
    Ret (True, addr_of f host bs n, e, s\<lparr>world := w\<rparr>)"
proof -
  obtain w where w: "alloc lc (length (host @ CHR ''/'' # dec n) + 1) s = (True, s\<lparr>world := w\<rparr>)"
    using allocatesD [OF assms(3)] by blast
  have n: "n < 2 ^ 64" "n \<le> 128" and u: "unat (of_nat n :: ulong) = n" using assms(8) by (auto simp: unat_of_nat)
  have "of_nat n \<noteq> ULONG_MAX" using n(2) by (intro of_nat_ulong_max) simp
  then have "parse_ulong lc (dec n) e (s\<lparr>world := w\<rparr>) = Ret (True, of_nat n, e, s\<lparr>world := w\<rparr>)"
    using n assms(7) by (simp add: parse_ulong_True_iff ulong_text_dec of_nat_ulong_0)
  from parse_addr_slash [OF assms(1,2,4-6) w this] assms(8) u show ?thesis
    by (auto simp: word_le_nat_alt)
qed

text \<open>C23: a message \<open>host/n\<close> with a numeric address and a prefix length that fits its family is
  accepted as the network of the first \<open>n\<close> bits; the message that \<open>*error\<close> holds is kept.\<close>

theorem parse_addr_cidr_correct:
  assumes "inet_pton_sound nl" and "gai_numeric nl" and "allocates lc"
    and "NUL \<notin> set host" and "CHR ''/'' \<notin> set host" and "inet_pton nl f host = Some bs"
    and "0 < n" and "f = AF_INET \<and> n \<le> 32 \<or> f = AF_INET6 \<and> n \<le> 128"
  shows "\<exists>w. parse_addr lc nl (host @ CHR ''/'' # dec n) e s =
    Ret (True, addr_of f host bs n, e, s\<lparr>world := w\<rparr>)"
  using assms by (rule parse_addr_cidr_eq)

theorem parse_addr_cidr_correct_witness:
  "\<exists>w. parse_addr sample_libc sample_netlib (''192.0.2.77'' @ CHR ''/'' # dec 24) (Some None) (sample_proc ()) =
     Ret (True, addr_of AF_INET ''192.0.2.77'' [192, 0, 2, 77] 24, Some None, (sample_proc ())\<lparr>world := w\<rparr>)"
proof (rule parse_addr_cidr_correct [OF sample_laws])
  show "allocates sample_libc" by (simp add: allocates_def sample_libc_def)
  show "inet_pton sample_netlib AF_INET ''192.0.2.77'' = Some [192, 0, 2, 77]"
    by (simp add: sample_netlib_def sample_inet_pton_def dotted_quad_def octet_def is_digit_def)
qed simp_all

text \<open>A prefix length beyond the family is refused with its message.\<close>

lemma parse_addr_prefix_too_long:
  assumes "gai_numeric nl" and "formats lc" and "allocates lc"
    and "CHR ''/'' \<notin> set host" and "inet_pton nl f host = Some bs"
    and "f = AF_INET \<and> 32 < n \<and> m = ''prefix too long for AF_INET'' \<or>
         f = AF_INET6 \<and> 128 < n \<and> m = ''prefix too long for AF_INET6''"
    and "n < 2 ^ 64 - 1"
  shows "\<exists>a w. parse_addr lc nl (host @ CHR ''/'' # dec n) (Some None) s =
    Ret (False, a, Some (Some (m, [])), s\<lparr>world := w\<rparr>)"
proof -
  have "0 < n" and n: "n < 2 ^ 64" using assms(6,7) by auto
  obtain w1 where w1: "alloc lc (length (host @ CHR ''/'' # dec n) + 1) s = (True, s\<lparr>world := w1\<rparr>)"
    using allocatesD [OF assms(3)] by blast
  have pu: "parse_ulong lc (dec n) (Some None) (s\<lparr>world := w1\<rparr>) =
      Ret (True, of_nat n, Some None, s\<lparr>world := w1\<rparr>)"
    using of_nat_ulong_max [OF assms(7)] n \<open>0 < n\<close>
    by (simp add: parse_ulong_True_iff ulong_text_dec of_nat_ulong_0)
  obtain res more w2 where gai: "getaddrinfo nl host True w1 = (Inr (res # more), w2)" "ai_family res = f"
    using assms(1,5,6) unfolding gai_numeric_def by blast
  have "f = AF_INET \<and> 32 < (of_nat n :: ulong) \<and> m = ''prefix too long for AF_INET'' \<or>
      f = AF_INET6 \<and> 128 < (of_nat n :: ulong) \<and> m = ''prefix too long for AF_INET6''"
    using assms(6) n by (auto simp: word_less_nat_alt unat_of_nat)
  moreover obtain w where "error_set lc (Some None) (m, []) (s\<lparr>world := w2\<rparr>) =
      Ret (Some (Some (m, [])), s\<lparr>world := w\<rparr>)"
    using error_set_first [OF assms(2,3), of "(m, [])" "s\<lparr>world := w2\<rparr>"] by auto
  ultimately show ?thesis
    unfolding parse_addr_def strchr_append [OF assms(4)]
    using w1 pu gai by (elim disjE conjE) (auto simp: parse_addr_cidr_def Let_def set_generic_error_def)
qed

lemma sample_alloc_formats: "formats sample_libc" "allocates sample_libc"
  by (simp_all add: formats_def allocates_def sample_libc_def)

lemma parse_addr_prefix_too_long_witness:
  "\<exists>a w. parse_addr sample_libc sample_netlib (''192.0.2.77'' @ CHR ''/'' # dec 33) (Some None) (sample_proc ()) =
     Ret (False, a, Some (Some (''prefix too long for AF_INET'', [])), (sample_proc ())\<lparr>world := w\<rparr>)"
proof (rule parse_addr_prefix_too_long [OF sample_gai_numeric sample_alloc_formats])
  show "inet_pton sample_netlib AF_INET ''192.0.2.77'' = Some [192, 0, 2, 77]"
    by (simp add: sample_netlib_def sample_inet_pton_def dotted_quad_def octet_def is_digit_def)
qed simp_all

text \<open>C35: a prefix that is no positive number is not refused.  The flag of \<open>parse_ulong\<close> is dropped, and the value that \<open>strtoul\<close> read
  before it stopped is used: where that value is a prefix length of the family, \<open>host/text\<close> is accepted as that network, while \<open>*error\<close> is left
  holding the message of \<open>parse_ulong\<close>.  So \<open>host/24x\<close> is the network of the first 24 bits, and \<open>host/all\<close>, \<open>host/0\<close> and \<open>host/\<close>, for which \<open>strtoul\<close>
  gives 0, are every address of the family.\<close>

theorem parse_addr_refused_prefix_accepted:
  assumes "inet_pton_sound nl" and "gai_numeric nl" and "formats lc" and "allocates lc"
    and "NUL \<notin> set host" and "CHR ''/'' \<notin> set host" and "inet_pton nl f host = Some bs"
    and "\<not> (\<exists>v. ulong_text ptext v \<and> v \<noteq> 0)"
    and "f = AF_INET \<and> fst (strtoul ptext) \<le> 32 \<or> f = AF_INET6 \<and> fst (strtoul ptext) \<le> 128"
  shows "\<exists>a m s'. parse_addr lc nl (host @ CHR ''/'' # ptext) (Some None) s = Ret (True, a, Some (Some m), s') \<and>
    a = addr_of f host bs (unat (fst (strtoul ptext))) \<and> (fst (strtoul ptext) = 0 \<longrightarrow> netmask a = 0 \<and> sa a = replicate 16 0)"
proof -
  obtain w where w: "alloc lc (length (host @ CHR ''/'' # ptext) + 1) s = (True, s\<lparr>world := w\<rparr>)"
    using allocatesD [OF assms(4)] by blast
  obtain m s' where pu: "parse_ulong lc ptext (Some None) (s\<lparr>world := w\<rparr>) = Ret (False, fst (strtoul ptext), Some (Some m), s')"
    using parse_ulong_refuses [OF assms(3,4,8)] by blast
  from parse_addr_slash [OF assms(1,2,5-7) w pu assms(9)]
  obtain w' where r: "parse_addr lc nl (host @ CHR ''/'' # ptext) (Some None) s =
      Ret (True, addr_of f host bs (unat (fst (strtoul ptext))), Some (Some m), s'\<lparr>world := w'\<rparr>)" by auto
  have "length bs \<le> 16" using assms(1,7,9) unfolding inet_pton_sound_def by fastforce
  then have "network 0 (bs @ replicate (16 - length bs) 0) = replicate 16 0"
    by (intro bytes_eqI) (auto simp: bit_at_network bit_at_replicate)
  then show ?thesis using r by (auto simp: addr_of_def)
qed

theorem parse_addr_refused_prefix_accepted_witness:
  "(\<exists>m s'. parse_addr sample_libc sample_netlib (''192.0.2.77'' @ CHR ''/'' # ''24x'') (Some None) (sample_proc ()) =
     Ret (True, addr_of AF_INET ''192.0.2.77'' [192, 0, 2, 77] 24, Some (Some m), s')) \<and>
   (\<exists>a m s'. parse_addr sample_libc sample_netlib (''192.0.2.77'' @ CHR ''/'' # ''all'') (Some None) (sample_proc ()) =
     Ret (True, a, Some (Some m), s') \<and> netmask a = 0 \<and> sa a = replicate 16 0)"
proof -
  have pt: "inet_pton sample_netlib AF_INET ''192.0.2.77'' = Some [192, 0, 2, 77]"
    by (simp add: sample_netlib_def sample_inet_pton_def dotted_quad_def octet_def is_digit_def)
  have st: "strtoul ''24x'' = (24, 2, False)" "strtoul ''all'' = (0, 0, False)"
    by (simp_all add: strtoul_def is_space_def is_digit_def)
  have no: "\<not> (\<exists>v. ulong_text ''24x'' v \<and> v \<noteq> 0)" "\<not> (\<exists>v. ulong_text ''all'' v \<and> v \<noteq> 0)"
    using st by (auto simp: strtoul_whole_iff [symmetric])
  have nul: "NUL \<notin> set ''192.0.2.77''" "CHR ''/'' \<notin> set ''192.0.2.77''" by simp_all
  note r = parse_addr_refused_prefix_accepted [OF sample_laws sample_alloc_formats nul pt]
  have v: "AF_INET = AF_INET \<and> fst (strtoul ''24x'') \<le> 32 \<or> AF_INET = AF_INET6 \<and> fst (strtoul ''24x'') \<le> 128"
    "AF_INET = AF_INET \<and> fst (strtoul ''all'') \<le> 32 \<or> AF_INET = AF_INET6 \<and> fst (strtoul ''all'') \<le> 128"
    by (simp_all add: st)
  show ?thesis using r [OF no(1) v(1), of "sample_proc ()"] r [OF no(2) v(2), of "sample_proc ()"] by (auto simp: st)
qed

lemma parse_addr_twice:
  assumes "formats lc" and "allocates lc" and "CHR ''/'' \<notin> set host" and "fst (strtoul ptext) = 0"
    and "\<And>w. \<exists>r w'. getaddrinfo nl host True w = (Inl r, w')"
  shows "parse_addr lc nl (host @ CHR ''/'' # ptext) (Some None) s = Undef Invalid_Free"
proof -
  obtain w where w: "alloc lc (length (host @ CHR ''/'' # ptext) + 1) s = (True, s\<lparr>world := w\<rparr>)"
    using allocatesD [OF assms(2)] by blast
  obtain m s' where pu: "parse_ulong lc ptext (Some None) (s\<lparr>world := w\<rparr>) = Ret (False, fst (strtoul ptext), Some (Some m), s')"
    using parse_ulong_refuses [OF assms(1,2) strtoul_zero_refused [OF assms(4)]] by blast
  obtain r w' where "getaddrinfo nl host True (world s') = (Inl r, w')" using assms(5) by blast
  then show ?thesis
    unfolding parse_addr_def strchr_append [OF assms(3)]
    using w pu by (simp add: parse_addr_cidr_def Let_def set_generic_error_def error_set_twice)
qed

text \<open>When the prefix is no positive number and the host is not numeric either, the second
  message is stored over the first one, which is undefined behaviour: one message on the queue
  is enough.\<close>

lemma parse_addr_two_errors:
  assumes "formats lc" and "allocates lc" and "CHR ''/'' \<notin> set host" and "fst (strtoul ptext) = 0"
    and "\<And>w. \<exists>r w'. getaddrinfo nl host True w = (Inl r, w')"
  shows "parse_addr lc nl (host @ CHR ''/'' # ptext) (Some None) s = Undef Invalid_Free"
  using assms by (rule parse_addr_twice)

lemma parse_addr_two_errors_witness:
  "parse_addr sample_libc sample_netlib (''x'' @ CHR ''/'' # ''y'') (Some None) (sample_proc ()) = Undef Invalid_Free"
proof (rule parse_addr_two_errors [OF sample_alloc_formats])
  show "fst (strtoul ''y'') = 0" by (simp add: strtoul_def is_space_def is_digit_def)
  show "\<exists>r w'. getaddrinfo sample_netlib ''x'' True w = (Inl r, w')" for w :: unit
    by (simp add: sample_netlib_def dotted_quad_def colon_hex_def octet_def hextet_def hex_digit_def is_digit_def)
qed simp_all

end
