(* ===== verification/Queue.thy ===== *)
theory Queue
  imports Parse
begin

text \<open>
  The interface of the message queues (\<open>queues/queue.h\<close>) and the macros of \<open>queues/common.h\<close>.  The
  program is linked with one of two implementations, \<open>posix.c\<close> or \<open>systemv.c\<close>; its clients see the
  seven operations of the header only, which are the fields of \<open>queue_ops\<close>.  The locale
  \<open>queue_backend\<close> states what both implementations promise and derives what the clients rely on.
\<close>

unbundle bit_operations_syntax

section \<open>common.h\<close>

type_synonym cint = "32 word"

definition HAS_FLAG :: "cint \<Rightarrow> cint \<Rightarrow> bool" where
  "HAS_FLAG v flag \<longleftrightarrow> 0 \<noteq> (v AND flag)"

definition BANIPD_EXIT_SUCCESS :: nat where "BANIPD_EXIT_SUCCESS = 0"
definition BANIPD_EXIT_FAILURE :: nat where "BANIPD_EXIT_FAILURE = 1"
definition BANIPD_EXIT_USAGE :: nat where "BANIPD_EXIT_USAGE = 2"

section \<open>queue.h\<close>

definition QUEUE_FL_SENDER :: cint where "QUEUE_FL_SENDER = push_bit 0 1"
definition QUEUE_FL_OWNER :: cint where "QUEUE_FL_OWNER = push_bit 1 1"

datatype queue_err =
    QUEUE_ERR_OK
  | QUEUE_ERR_GENERAL_FAILURE
  | QUEUE_ERR_NOT_SUPPORTED
  | QUEUE_ERR_NOT_OWNER

datatype queue_attr =
    QUEUE_ATTR_MAX_QUEUE_SIZE
  | QUEUE_ATTR_MAX_MESSAGE_SIZE
  | QUEUE_ATTR_MAX_MESSAGE_IN_QUEUE

text \<open>
  The operations.  A \<open>void *\<close> queue is \<open>None\<close> when null; an operation that changes the structure
  behind it returns the new one.  \<open>q_receive\<close> also returns the buffer it wrote to, and
  \<open>q_get_attribute\<close> the value that it stores when it stores one.
\<close>

record ('q, 'w) queue_ops =
  q_init :: "errp \<Rightarrow> 'w proc \<Rightarrow> ('q option \<times> errp \<times> 'w proc) outcome"
  q_set_attribute :: "'q \<Rightarrow> queue_attr \<Rightarrow> ulong \<Rightarrow> queue_err \<times> 'q"
  q_open :: "'q \<Rightarrow> string \<Rightarrow> cint \<Rightarrow> errp \<Rightarrow> 'w proc \<Rightarrow> (bool \<times> 'q \<times> errp \<times> 'w proc) outcome"
  q_get_attribute :: "'q \<Rightarrow> queue_attr \<Rightarrow> 'w proc \<Rightarrow> queue_err \<times> ulong option \<times> 'w proc"
  q_receive :: "'q \<Rightarrow> char list \<Rightarrow> nat \<Rightarrow> errp \<Rightarrow> 'w proc \<Rightarrow>
    (int \<times> 'q \<times> char list \<times> errp \<times> 'w proc) outcome"
  q_send :: "'q \<Rightarrow> string \<Rightarrow> int \<Rightarrow> errp \<Rightarrow> 'w proc \<Rightarrow> (bool \<times> 'q \<times> errp \<times> 'w proc) outcome"
  q_close :: "'q option \<Rightarrow> errp \<Rightarrow> 'w proc \<Rightarrow> (bool \<times> 'q option \<times> errp \<times> 'w proc) outcome"

text \<open>A client that sets attributes one after the other and ignores the results.\<close>

fun set_attributes :: "('q, 'w) queue_ops \<Rightarrow> 'q \<Rightarrow> (queue_attr \<times> ulong) list \<Rightarrow> 'q" where
  "set_attributes ops q [] = q"
| "set_attributes ops q ((a, v) # avs) = set_attributes ops (snd (q_set_attribute ops q a v)) avs"

section \<open>The contract of an implementation\<close>

lemma flag_tests [simp]:
  "HAS_FLAG QUEUE_FL_SENDER QUEUE_FL_SENDER" "\<not> HAS_FLAG QUEUE_FL_SENDER QUEUE_FL_OWNER"
  "HAS_FLAG QUEUE_FL_OWNER QUEUE_FL_OWNER" "\<not> HAS_FLAG QUEUE_FL_OWNER QUEUE_FL_SENDER"
  by (simp_all add: HAS_FLAG_def QUEUE_FL_SENDER_def QUEUE_FL_OWNER_def)

text \<open>
  \<open>unopened q\<close>: the state between \<open>queue_init\<close> and \<open>queue_open\<close>.  The laws: \<open>queue_init\<close> gives an
  unopened queue; on an unopened queue an attribute is not set; \<open>queue_close\<close> on a null pointer
  succeeds and does nothing, and where it succeeds the pointer is null; an operation that
  reports failure through a fresh \<open>error\<close> leaves a message there, and a receive keeps the size of
  the buffer.
\<close>

locale queue_backend =
  fixes ops :: "('q, 'w) queue_ops" and unopened :: "'q \<Rightarrow> bool" and messages :: bool
  assumes init_unopened: "q_init ops e s = Ret (Some q, e', s') \<Longrightarrow> unopened q"
    and init_keeps: "q_init ops e s = Ret (p, e', s') \<Longrightarrow> umask s' = umask s \<and> (p \<noteq> None \<longrightarrow> e' = e)"
    and init_fails: "q_init ops (Some None) s = Ret (None, e', s') \<Longrightarrow> messages \<Longrightarrow> \<exists>m. e' = Some (Some m)"
    and set_unopened: "unopened q \<Longrightarrow> q_set_attribute ops q a v = (QUEUE_ERR_NOT_OWNER, q)"
    and close_null: "q_close ops None e s = Ret (True, None, e, s)"
    and close_True: "q_close ops p e s = Ret (True, p', e', s') \<Longrightarrow> p' = None"
    and open_fails: "q_open ops q name fl (Some None) s = Ret (False, q', e', s') \<Longrightarrow> messages \<Longrightarrow>
      \<exists>m. e' = Some (Some m)"
    and open_True: "q_open ops q name fl e s = Ret (True, q', e', s') \<Longrightarrow> e' = e"
    and receive_fails: "q_receive ops q b k (Some None) s = Ret (- 1, q', b', e', s') \<Longrightarrow> messages \<Longrightarrow>
      \<exists>m. e' = Some (Some m)"
    and receive_ok: "q_receive ops q b k e s = Ret (n, q', b', e', s') \<Longrightarrow> n \<noteq> - 1 \<Longrightarrow> e' = e"
    and send_fails: "q_send ops q msg len (Some None) s = Ret (False, q', e', s') \<Longrightarrow> messages \<Longrightarrow>
      \<exists>m. e' = Some (Some m)"
    and send_True: "q_send ops q msg len e s = Ret (True, q', e', s') \<Longrightarrow> e' = e"
    and receive_length: "q_receive ops q b k e s = Ret (n, q', b', e', s') \<Longrightarrow> length b' = length b"
begin

lemma set_attributes_unopened: "unopened q \<Longrightarrow> set_attributes ops q avs = q"
  by (induction avs) (auto simp: set_unopened)

lemma set_attributes_after_init:
  "q_init ops e s = Ret (Some q, e', s') \<Longrightarrow> set_attributes ops q avs = q"
  using init_unopened set_attributes_unopened by blast

text \<open>Closing twice through the same pointer is harmless.\<close>

lemma close_twice:
  assumes "q_close ops p e s = Ret (True, p', e', s')"
  shows "q_close ops p' e'' s'' = Ret (True, None, e'', s'')"
  using close_True [OF assms] close_null by simp

end

section \<open>The queue as a channel\<close>

text \<open>
  What a receiver relies on.  \<open>waiting (view w) q k ms\<close>: in the world \<open>w\<close> the messages \<open>ms\<close> wait for the queue \<open>q\<close>,
  and a buffer of \<open>k\<close> bytes has room for each of them.  A receive then succeeds, stores the text of the
  first message as a string, and the others go on waiting.  \<open>laws\<close> is what the implementation relies on
  in its turn.
\<close>

locale message_channel =
  fixes ops :: "('q, 'w) queue_ops" and laws :: bool and view :: "'w \<Rightarrow> 'o" and waiting :: "'o \<Rightarrow> 'q \<Rightarrow> nat \<Rightarrow> char list list \<Rightarrow> bool"
  assumes receive_first: "laws \<Longrightarrow> waiting (view (world s)) q k (m # ms) \<Longrightarrow> length b = k \<Longrightarrow>
      \<exists>n q' b' w. q_receive ops q b k e s = Ret (n, q', b', e, s\<lparr>world := w\<rparr>) \<and> n \<noteq> - 1 \<and>
        length b' = k \<and> c_str b' = Ret (message_text m) \<and> waiting (view w) q' k ms"
begin

text \<open>Messages arrive in the order in which they wait.\<close>

lemma receive_two:
  assumes laws and "waiting (view (world s)) q k (m1 # m2 # ms)" and "length b = k"
  shows "\<exists>n1 q1 b1 s1 n2 q2 b2 s2. q_receive ops q b k e s = Ret (n1, q1, b1, e, s1) \<and> c_str b1 = Ret (message_text m1) \<and>
    q_receive ops q1 b1 k e s1 = Ret (n2, q2, b2, e, s2) \<and> c_str b2 = Ret (message_text m2) \<and> waiting (view (world s2)) q2 k ms"
proof -
  obtain n1 q1 b1 w1 where 1: "q_receive ops q b k e s = Ret (n1, q1, b1, e, s\<lparr>world := w1\<rparr>)" "length b1 = k"
    "c_str b1 = Ret (message_text m1)" "waiting (view w1) q1 k (m2 # ms)"
    using receive_first [OF assms] by blast
  then obtain n2 q2 b2 w2 where "q_receive ops q1 b1 k e (s\<lparr>world := w1\<rparr>) = Ret (n2, q2, b2, e, s\<lparr>world := w2\<rparr>)"
    "c_str b2 = Ret (message_text m2)" "waiting (view w2) q2 k ms"
    using receive_first [OF assms(1), of "s\<lparr>world := w1\<rparr>" q1 k m2 ms b1 e] by auto
  with 1 show ?thesis by (intro exI conjI) (assumption | simp)+
qed

end

end
