(* ===== verification/Posix_Queue.thy ===== *)
theory Posix_Queue
  imports Queue
begin

text \<open>
  The queue on POSIX message queues (\<open>queues/posix.c\<close>).  The calls of the kernel are the fields of
  \<open>mq_api\<close>; the values of the open flags differ between systems and are fields as well.  The
  capability macros expand to \<open>true\<close> in the sources (\<open>capsicum.h\<close> disables them).
\<close>

unbundle bit_operations_syntax

section \<open>State and kernel interface\<close>

record mq_attr =
  mq_maxmsg :: ulong
  mq_msgsize :: ulong

abbreviation NOT_MQD_T :: int where
  "NOT_MQD_T \<equiv> - 1"

record posix_queue =
  mq :: int
  filename :: "string option"
  attr :: mq_attr

text \<open>
  \<open>mq_open name oflag mode umask attr\<close>: the mask of the process takes part, since it restricts the
  mode of a new queue.  \<open>mq_receive d size\<close> gives the message it stores.
\<close>

record 'w mq_api =
  o_rdonly :: cint
  o_wronly :: cint
  o_creat :: cint
  o_excl :: cint
  mq_open :: "string \<Rightarrow> cint \<Rightarrow> nat \<Rightarrow> nat \<Rightarrow> mq_attr \<Rightarrow> 'w \<Rightarrow> int sysret \<times> 'w"
  mq_close :: "int \<Rightarrow> 'w \<Rightarrow> unit sysret \<times> 'w"
  mq_unlink :: "string \<Rightarrow> 'w \<Rightarrow> unit sysret \<times> 'w"
  mq_getattr :: "int \<Rightarrow> 'w \<Rightarrow> mq_attr sysret \<times> 'w"
  mq_receive :: "int \<Rightarrow> nat \<Rightarrow> 'w \<Rightarrow> char list sysret \<times> 'w"
  mq_send :: "int \<Rightarrow> char list \<Rightarrow> nat \<Rightarrow> 'w \<Rightarrow> unit sysret \<times> 'w"
  on_freebsd :: bool
  enosys :: nat
  sizeof_posix_queue :: nat

section \<open>Operations\<close>

definition posix_queue_init ::
  "'w libc \<Rightarrow> 'w mq_api \<Rightarrow> errp \<Rightarrow> 'w proc \<Rightarrow> (posix_queue option \<times> errp \<times> 'w proc) outcome" where
  "posix_queue_init lc api error s =
     (case alloc lc (sizeof_posix_queue api) s of
        (False, s) \<Rightarrow>
          andthen (set_malloc_error lc error (sizeof_posix_queue api) s) (\<lambda>(error, s). Ret (None, error, s))
      | (True, s) \<Rightarrow>
          Ret (Some \<lparr>mq = NOT_MQD_T, filename = None, attr = \<lparr>mq_maxmsg = 10, mq_msgsize = 1024\<rparr>\<rparr>, error, s))"

definition posix_queue_set_attribute ::
  "posix_queue \<Rightarrow> queue_attr \<Rightarrow> ulong \<Rightarrow> queue_err \<times> posix_queue" where
  "posix_queue_set_attribute q a v =
     (if filename q = None then (QUEUE_ERR_NOT_OWNER, q)
      else
        (case a of
           QUEUE_ATTR_MAX_MESSAGE_SIZE \<Rightarrow> (QUEUE_ERR_OK, q\<lparr>attr := (attr q)\<lparr>mq_msgsize := v\<rparr>\<rparr>)
         | QUEUE_ATTR_MAX_MESSAGE_IN_QUEUE \<Rightarrow> (QUEUE_ERR_OK, q\<lparr>attr := (attr q)\<lparr>mq_maxmsg := v\<rparr>\<rparr>)
         | _ \<Rightarrow> (QUEUE_ERR_NOT_SUPPORTED, q)))"

text \<open>The part of \<open>queue_open\<close> from the call of \<open>mq_open\<close> on (lines 111 to 150).\<close>

definition posix_queue_open_mq ::
  "'w libc \<Rightarrow> 'w mq_api \<Rightarrow> posix_queue \<Rightarrow> string \<Rightarrow> cint \<Rightarrow> cint \<Rightarrow> nat \<Rightarrow> errp \<Rightarrow> 'w proc \<Rightarrow>
   (bool \<times> posix_queue \<times> errp \<times> 'w proc) outcome" where
  "posix_queue_open_mq lc api q name flags omask oldmask error s =
     (case syscall (mq_open api name omask 432 (umask s) (attr q)) s of
        (Err n, s) \<Rightarrow>
          let q = q\<lparr>mq := NOT_MQD_T\<rparr>;
              s = (if HAS_FLAG flags QUEUE_FL_OWNER then snd (set_umask oldmask s) else s) in
          if HAS_FLAG flags QUEUE_FL_OWNER \<and> on_freebsd api \<and> errno s = enosys api then
            andthen (set_generic_error lc error
                ''please load mqueuefs kernel module by \"kldload mqueuefs\" or recompile your kernel to include \"options P1003_1B_MQUEUE\"''
                [] s)
              (\<lambda>(error, s). Ret (False, q, error, s))
          else
            andthen (set_system_error lc error ''mq_open(\"%s\", %u, 0660, %p) failed''
                [SArg name, IArg (uint omask), PArg] s)
              (\<lambda>(error, s). Ret (False, q, error, s))
      | (Ok d, s) \<Rightarrow>
          let q = q\<lparr>mq := d\<rparr> in
          if HAS_FLAG flags QUEUE_FL_OWNER then Ret (True, q, error, snd (set_umask oldmask s))
          else
            (case syscall (mq_getattr api (mq q)) s of
               (Err n, s) \<Rightarrow>
                 andthen (set_system_error lc error ''mq_getattr failed'' [] s)
                   (\<lambda>(error, s). Ret (False, q, error, s))
             | (Ok a, s) \<Rightarrow> Ret (True, q\<lparr>attr := a\<rparr>, error, s)))"

definition posix_queue_open ::
  "'w libc \<Rightarrow> 'w mq_api \<Rightarrow> posix_queue \<Rightarrow> string \<Rightarrow> cint \<Rightarrow> errp \<Rightarrow> 'w proc \<Rightarrow>
   (bool \<times> posix_queue \<times> errp \<times> 'w proc) outcome" where
  "posix_queue_open lc api q name flags error s =
     (let omask = (if HAS_FLAG flags QUEUE_FL_SENDER then o_wronly api else o_rdonly api) in
      if HAS_FLAG flags QUEUE_FL_OWNER then
        (case set_umask 0 s of (oldmask, s) \<Rightarrow>
         case alloc lc (length name + 1) s of
           (False, s) \<Rightarrow>
             andthen (set_generic_error lc error ''strdup failed to copy \"%s\"'' [SArg name] s)
               (\<lambda>(error, s). Ret (False, q\<lparr>filename := None\<rparr>, error, s))
         | (True, s) \<Rightarrow>
             posix_queue_open_mq lc api (q\<lparr>filename := Some name\<rparr>) name flags
               (omask OR o_creat api OR o_excl api) oldmask error s)
      else posix_queue_open_mq lc api q name flags omask 0 error s)"

definition posix_queue_get_attribute ::
  "posix_queue \<Rightarrow> queue_attr \<Rightarrow> 'w proc \<Rightarrow> queue_err \<times> ulong option \<times> 'w proc" where
  "posix_queue_get_attribute q a s =
     (case a of
        QUEUE_ATTR_MAX_MESSAGE_SIZE \<Rightarrow> (QUEUE_ERR_OK, Some (mq_msgsize (attr q)), s)
      | QUEUE_ATTR_MAX_MESSAGE_IN_QUEUE \<Rightarrow> (QUEUE_ERR_OK, Some (mq_maxmsg (attr q)), s)
      | _ \<Rightarrow> (QUEUE_ERR_NOT_SUPPORTED, None, s))"

definition posix_queue_receive ::
  "'w libc \<Rightarrow> 'w mq_api \<Rightarrow> posix_queue \<Rightarrow> char list \<Rightarrow> nat \<Rightarrow> errp \<Rightarrow> 'w proc \<Rightarrow>
   (int \<times> posix_queue \<times> char list \<times> errp \<times> 'w proc) outcome" where
  "posix_queue_receive lc api q buffer buffer_size error s =
     (case syscall (mq_receive api (mq q) buffer_size) s of
        (Ok msg, s) \<Rightarrow>
          andthen (write_at buffer 0 msg) (\<lambda>buffer.
          andthen (poke buffer (length msg) NUL) (\<lambda>buffer.
          Ret (int (length msg), q, buffer, error, s)))
      | (Err n, s) \<Rightarrow>
          andthen (set_system_error lc error ''mq_receive failed'' [] s)
            (\<lambda>(error, s). Ret (- 1, q, buffer, error, s)))"

definition posix_queue_send ::
  "'w libc \<Rightarrow> 'w mq_api \<Rightarrow> posix_queue \<Rightarrow> string \<Rightarrow> int \<Rightarrow> errp \<Rightarrow> 'w proc \<Rightarrow>
   (bool \<times> posix_queue \<times> errp \<times> 'w proc) outcome" where
  "posix_queue_send lc api q msg msg_len error s =
     (let len = (if msg_len < 0 then length msg else nat msg_len) in
      if length msg + 1 < len then Undef Out_Of_Bounds
      else
        (case syscall (mq_send api (mq q) (take len (msg @ [NUL])) 0) s of
           (Err n, s) \<Rightarrow>
             andthen (set_system_error lc error ''mq_send failed to send \"%.*s\"''
                 [IArg (int len), SArg msg] s)
               (\<lambda>(error, s). Ret (False, q, error, s))
         | (Ok _, s) \<Rightarrow> Ret (True, q, error, s)))"

text \<open>\<open>queue_close\<close> in three steps: close the descriptor, remove the name, release the structure.\<close>

definition posix_queue_unlink ::
  "'w libc \<Rightarrow> 'w mq_api \<Rightarrow> posix_queue \<Rightarrow> errp \<Rightarrow> 'w proc \<Rightarrow>
   (bool \<times> posix_queue option \<times> errp \<times> 'w proc) outcome" where
  "posix_queue_unlink lc api q error s =
     (case filename q of
        None \<Rightarrow> Ret (True, None, error, s)
      | Some name \<Rightarrow>
          (case syscall (mq_unlink api name) s of
             (Err n, s) \<Rightarrow>
               andthen (set_system_error lc error ''mq_unlink failed'' [] s)
                 (\<lambda>(error, s). Ret (False, Some q, error, s))
           | (Ok _, s) \<Rightarrow> Ret (True, None, error, s)))"

definition posix_queue_close ::
  "'w libc \<Rightarrow> 'w mq_api \<Rightarrow> posix_queue option \<Rightarrow> errp \<Rightarrow> 'w proc \<Rightarrow>
   (bool \<times> posix_queue option \<times> errp \<times> 'w proc) outcome" where
  "posix_queue_close lc api p error s =
     (case p of
        None \<Rightarrow> Ret (True, None, error, s)
      | Some q \<Rightarrow>
          if mq q \<noteq> NOT_MQD_T then
            (case syscall (mq_close api (mq q)) s of
               (Err n, s) \<Rightarrow>
                 andthen (set_system_error lc error ''mq_close failed'' [] s)
                   (\<lambda>(error, s). Ret (False, Some q, error, s))
             | (Ok _, s) \<Rightarrow> posix_queue_unlink lc api (q\<lparr>mq := NOT_MQD_T\<rparr>) error s)
          else posix_queue_unlink lc api q error s)"

definition posix_ops :: "'w libc \<Rightarrow> 'w mq_api \<Rightarrow> (posix_queue, 'w) queue_ops" where
  "posix_ops lc api =
     \<lparr>q_init = posix_queue_init lc api, q_set_attribute = posix_queue_set_attribute,
      q_open = posix_queue_open lc api, q_get_attribute = posix_queue_get_attribute,
      q_receive = posix_queue_receive lc api, q_send = posix_queue_send lc api,
      q_close = posix_queue_close lc api\<rparr>"

definition posix_unopened :: "posix_queue \<Rightarrow> bool" where
  "posix_unopened q \<longleftrightarrow> filename q = None \<and> mq q = NOT_MQD_T"

lemmas posix_defs =
  posix_queue_init_def posix_queue_set_attribute_def posix_queue_open_def posix_queue_open_mq_def
  posix_queue_get_attribute_def posix_queue_receive_def posix_queue_send_def
  posix_queue_unlink_def posix_queue_close_def

section \<open>The contract\<close>

lemma posix_ops_simps [simp]:
  "q_init (posix_ops lc api) = posix_queue_init lc api"
  "q_set_attribute (posix_ops lc api) = posix_queue_set_attribute"
  "q_open (posix_ops lc api) = posix_queue_open lc api"
  "q_get_attribute (posix_ops lc api) = posix_queue_get_attribute"
  "q_receive (posix_ops lc api) = posix_queue_receive lc api"
  "q_send (posix_ops lc api) = posix_queue_send lc api"
  "q_close (posix_ops lc api) = posix_queue_close lc api"
  by (simp_all add: posix_ops_def)

interpretation posix: queue_backend "posix_ops lc api" posix_unopened "formats lc" for lc api
proof (unfold_locales, goal_cases)
  case (1 e s q e' s')
  then show ?case
    by (auto simp: posix_queue_init_def posix_unopened_def outcome_simps split: prod.splits bool.splits)
next
  case (2 e s p e' s')
  then show ?case
    by (auto simp: posix_queue_init_def set_error_defs outcome_simps split: prod.splits bool.splits
        dest!: alloc_keeps error_set_keeps)
next
  case (3 s e' s')
  then show ?case
    by (auto simp: posix_queue_init_def set_error_defs outcome_simps split: prod.splits bool.splits
        dest: error_set_stores)
next
  case (4 q a v)
  then show ?case by (simp add: posix_unopened_def posix_queue_set_attribute_def)
next
  case (5 e s)
  then show ?case by (simp add: posix_queue_close_def)
next
  case (6 p e s p' e' s')
  then show ?case
    by (auto simp: posix_queue_close_def posix_queue_unlink_def outcome_simps
        split: prod.splits option.splits sysret.splits if_splits)
next
  case (7 q name fl s q' e' s')
  then show ?case
    by (auto simp: posix_queue_open_def posix_queue_open_mq_def set_error_defs outcome_simps Let_def
        split: prod.splits bool.splits sysret.splits if_splits dest: error_set_stores)
next
  case (8 q name fl e s q' e' s')
  then show ?case
    by (auto simp: posix_queue_open_def posix_queue_open_mq_def set_error_defs outcome_simps Let_def
        split: prod.splits bool.splits sysret.splits if_splits)
next
  case (9 q b k s q' b' e' s')
  then show ?case
    by (auto simp: posix_queue_receive_def set_error_defs outcome_simps
        split: prod.splits sysret.splits dest: error_set_stores)
next
  case (10 q b k e s n q' b' e' s')
  then show ?case
    by (auto simp: posix_queue_receive_def outcome_simps split: prod.splits sysret.splits)
next
  case (11 q msg k s q' e' s')
  then show ?case
    by (auto simp: posix_queue_send_def set_error_defs outcome_simps Let_def
        split: prod.splits sysret.splits if_splits dest: error_set_stores)
next
  case (12 q msg k e s q' e' s')
  then show ?case
    by (auto simp: posix_queue_send_def outcome_simps Let_def split: prod.splits sysret.splits if_splits)
next
  case (13 q b k e s n q' b' e' s')
  then show ?case
    by (auto simp: posix_queue_receive_def outcome_simps split: prod.splits sysret.splits)
qed

section \<open>The kernel\<close>

text \<open>
  What POSIX documents of the calls, for a kernel that has the resources and grants the
  permissions.  \<open>kq w name\<close> are the attributes and the waiting messages, oldest first, of the
  queue \<open>name\<close>; \<open>kd w d\<close> is the name behind the descriptor \<open>d\<close>.  All messages of the program have
  priority 0, so a queue is first in, first out.
\<close>

type_synonym 'w mq_names = "'w \<Rightarrow> string \<Rightarrow> (mq_attr \<times> char list list) option"
type_synonym 'w mq_descrs = "'w \<Rightarrow> int \<Rightarrow> string option"

definition mq_send_law :: "'w mq_api \<Rightarrow> 'w mq_names \<Rightarrow> 'w mq_descrs \<Rightarrow> bool" where
  "mq_send_law api kq kd \<longleftrightarrow>
     (\<forall>w d name a ms m. kd w d = Some name \<and> kq w name = Some (a, ms) \<and>
        length m \<le> unat (mq_msgsize a) \<and> length ms < unat (mq_maxmsg a) \<longrightarrow>
        (\<exists>w'. mq_send api d m 0 w = (Ok (), w') \<and> kq w' = (kq w)(name \<mapsto> (a, ms @ [m])) \<and> kd w' = kd w))"

definition mq_receive_law :: "'w mq_api \<Rightarrow> 'w mq_names \<Rightarrow> 'w mq_descrs \<Rightarrow> bool" where
  "mq_receive_law api kq kd \<longleftrightarrow>
     (\<forall>w d name a ms m size. kd w d = Some name \<and> kq w name = Some (a, m # ms) \<and>
        unat (mq_msgsize a) \<le> size \<longrightarrow>
        (\<exists>w'. mq_receive api d size w = (Ok m, w') \<and> kq w' = (kq w)(name \<mapsto> (a, ms)) \<and> kd w' = kd w))"

definition mq_open_law :: "'w mq_api \<Rightarrow> 'w mq_names \<Rightarrow> 'w mq_descrs \<Rightarrow> bool" where
  "mq_open_law api kq kd \<longleftrightarrow>
     (\<forall>acc \<in> {o_rdonly api, o_wronly api}. \<forall>w name um a.
        (kq w name = None \<longrightarrow>
          (\<exists>d w'. mq_open api name (acc OR o_creat api OR o_excl api) 432 um a w = (Ok d, w') \<and>
            d \<noteq> NOT_MQD_T \<and> kd w d = None \<and> kq w' = (kq w)(name \<mapsto> (a, [])) \<and> kd w' = (kd w)(d \<mapsto> name))) \<and>
        (kq w name \<noteq> None \<longrightarrow>
          (\<exists>n w'. mq_open api name (acc OR o_creat api OR o_excl api) 432 um a w = (Err n, w') \<and>
            kq w' = kq w \<and> kd w' = kd w)) \<and>
        (kq w name \<noteq> None \<longrightarrow>
          (\<exists>d w'. mq_open api name acc 432 um a w = (Ok d, w') \<and>
            d \<noteq> NOT_MQD_T \<and> kd w d = None \<and> kq w' = kq w \<and> kd w' = (kd w)(d \<mapsto> name))))"

definition mq_getattr_law :: "'w mq_api \<Rightarrow> 'w mq_names \<Rightarrow> 'w mq_descrs \<Rightarrow> bool" where
  "mq_getattr_law api kq kd \<longleftrightarrow>
     (\<forall>w d name a ms. kd w d = Some name \<and> kq w name = Some (a, ms) \<longrightarrow>
        (\<exists>w'. mq_getattr api d w = (Ok a, w') \<and> kq w' = kq w \<and> kd w' = kd w))"

definition mq_close_law :: "'w mq_api \<Rightarrow> 'w mq_names \<Rightarrow> 'w mq_descrs \<Rightarrow> bool" where
  "mq_close_law api kq kd \<longleftrightarrow>
     (\<forall>w d. kd w d \<noteq> None \<longrightarrow>
        (\<exists>w'. mq_close api d w = (Ok (), w') \<and> kq w' = kq w \<and> kd w' = (kd w)(d := None))) \<and>
     (\<forall>w name. kq w name \<noteq> None \<longrightarrow>
        (\<exists>w'. mq_unlink api name w = (Ok (), w') \<and> kq w' = (kq w)(name := None) \<and> kd w' = kd w))"

text \<open>The allocator does not touch the queues.\<close>

definition heap_apart :: "'w libc \<Rightarrow> 'w mq_names \<Rightarrow> 'w mq_descrs \<Rightarrow> bool" where
  "heap_apart lc kq kd \<longleftrightarrow> (\<forall>n w. kq (snd (malloc lc n w)) = kq w \<and> kd (snd (malloc lc n w)) = kd w)"

definition mq_kernel :: "'w libc \<Rightarrow> 'w mq_api \<Rightarrow> 'w mq_names \<Rightarrow> 'w mq_descrs \<Rightarrow> bool" where
  "mq_kernel lc api kq kd \<longleftrightarrow>
     mq_send_law api kq kd \<and> mq_receive_law api kq kd \<and> mq_open_law api kq kd \<and>
     mq_getattr_law api kq kd \<and> mq_close_law api kq kd \<and> heap_apart lc kq kd"

text \<open>A sample kernel: the queues by name, the descriptors as a table that grows.\<close>

record sample_kernel =
  sk_queues :: "string \<Rightarrow> (mq_attr \<times> char list list) option"
  sk_table :: "string option list"

definition sk_descr :: "sample_kernel \<Rightarrow> int \<Rightarrow> string option" where
  "sk_descr w d = (if 0 \<le> d \<and> nat d < length (sk_table w) then sk_table w ! nat d else None)"

definition sk_add :: "sample_kernel \<Rightarrow> string \<Rightarrow> int sysret \<times> sample_kernel" where
  "sk_add w name = (Ok (int (length (sk_table w))), w\<lparr>sk_table := sk_table w @ [Some name]\<rparr>)"

definition sample_mq_api :: "sample_kernel mq_api" where
  "sample_mq_api =
     \<lparr>o_rdonly = 0, o_wronly = 1, o_creat = 64, o_excl = 128,
      mq_open = (\<lambda>name fl mode um a w.
        if 64 AND fl \<noteq> 0 then
          (if sk_queues w name \<noteq> None then (Err 17, w)
           else sk_add (w\<lparr>sk_queues := (sk_queues w)(name \<mapsto> (a, []))\<rparr>) name)
        else if sk_queues w name = None then (Err 2, w) else sk_add w name),
      mq_close = (\<lambda>d w. if sk_descr w d = None then (Err 9, w)
        else (Ok (), w\<lparr>sk_table := (sk_table w)[nat d := None]\<rparr>)),
      mq_unlink = (\<lambda>name w. if sk_queues w name = None then (Err 2, w)
        else (Ok (), w\<lparr>sk_queues := (sk_queues w)(name := None)\<rparr>)),
      mq_getattr = (\<lambda>d w. case Option.bind (sk_descr w d) (sk_queues w) of
        None \<Rightarrow> (Err 9, w) | Some (a, ms) \<Rightarrow> (Ok a, w)),
      mq_receive = (\<lambda>d size w. case sk_descr w d of None \<Rightarrow> (Err 9, w)
        | Some name \<Rightarrow> (case sk_queues w name of
            Some (a, m # ms) \<Rightarrow> if size < unat (mq_msgsize a) then (Err 90, w)
              else (Ok m, w\<lparr>sk_queues := (sk_queues w)(name \<mapsto> (a, ms))\<rparr>)
          | _ \<Rightarrow> (Err 11, w))),
      mq_send = (\<lambda>d m prio w. case sk_descr w d of None \<Rightarrow> (Err 9, w)
        | Some name \<Rightarrow> (case sk_queues w name of
            Some (a, ms) \<Rightarrow>
              if length m \<le> unat (mq_msgsize a) \<and> length ms < unat (mq_maxmsg a)
              then (Ok (), w\<lparr>sk_queues := (sk_queues w)(name \<mapsto> (a, ms @ [m]))\<rparr>) else (Err 90, w)
          | None \<Rightarrow> (Err 9, w))),
      on_freebsd = False, enosys = 38, sizeof_posix_queue = 40\<rparr>"

lemma sk_descr_add: "sk_descr (snd (sk_add w name)) = (sk_descr w)(int (length (sk_table w)) \<mapsto> name)"
  by (auto simp: sk_descr_def sk_add_def fun_eq_iff nth_append)

lemma sk_descr_close:
  "sk_descr w d \<noteq> None \<Longrightarrow> sk_descr (w\<lparr>sk_table := (sk_table w)[nat d := None]\<rparr>) = (sk_descr w)(d := None)"
  by (auto simp: sk_descr_def fun_eq_iff nth_list_update split: if_splits)

lemma sample_kernel_law: "mq_kernel sample_libc sample_mq_api sk_queues sk_descr"
proof -
  have "mq_send_law sample_mq_api sk_queues sk_descr"
    by (auto simp: mq_send_law_def sample_mq_api_def sk_descr_def)
  moreover have "mq_receive_law sample_mq_api sk_queues sk_descr"
    by (auto simp: mq_receive_law_def sample_mq_api_def sk_descr_def)
  moreover have "mq_getattr_law sample_mq_api sk_queues sk_descr"
    by (auto simp: mq_getattr_law_def sample_mq_api_def)
  moreover have "mq_close_law sample_mq_api sk_queues sk_descr"
    using sk_descr_close by (auto simp: mq_close_law_def sample_mq_api_def) (auto simp: sk_descr_def)
  moreover have "mq_open_law sample_mq_api sk_queues sk_descr"
    using sk_descr_add
    by (auto simp: mq_open_law_def sample_mq_api_def) (auto simp: sk_add_def sk_descr_def fun_eq_iff nth_append)
  moreover have "heap_apart sample_libc sk_queues sk_descr"
    by (simp add: heap_apart_def sample_libc_def)
  ultimately show ?thesis by (simp add: mq_kernel_def)
qed

section \<open>Lemmas under the kernel laws\<close>

lemma heap_apartD:
  assumes "heap_apart lc kq kd" and "alloc lc n s = (b, s')"
  shows "kq (world s') = kq (world s)" and "kd (world s') = kd (world s)"
  using assms by (auto simp: heap_apart_def alloc_def split: prod.splits) (metis snd_conv)+

lemma heap_apart_error:
  assumes "heap_apart lc kq kd" and "error_set lc e m s = Ret (e', s')"
  shows "kq (world s') = kq (world s)" and "kd (world s') = kd (world s)"
  using assms by (auto simp: error_set_def split: option.splits prod.splits bool.splits dest: heap_apartD)

lemma kernel_laws:
  assumes "mq_kernel lc api kq kd"
  shows "mq_send_law api kq kd" "mq_receive_law api kq kd" "mq_open_law api kq kd"
    "mq_getattr_law api kq kd" "mq_close_law api kq kd" "heap_apart lc kq kd"
  using assms by (simp_all add: mq_kernel_def)

lemma mq_open_create:
  assumes "mq_open_law api kq kd" and "acc = o_rdonly api \<or> acc = o_wronly api" and "kq w name = None"
  shows "\<exists>d w'. mq_open api name (acc OR o_creat api OR o_excl api) 432 um a w = (Ok d, w') \<and>
    d \<noteq> NOT_MQD_T \<and> kd w d = None \<and> kq w' = (kq w)(name \<mapsto> (a, [])) \<and> kd w' = (kd w)(d \<mapsto> name)"
  using assms unfolding mq_open_law_def by auto

lemma mq_open_exists:
  assumes "mq_open_law api kq kd" and "acc = o_rdonly api \<or> acc = o_wronly api" and "kq w name \<noteq> None"
  shows "\<exists>n w'. mq_open api name (acc OR o_creat api OR o_excl api) 432 um a w = (Err n, w') \<and>
    kq w' = kq w \<and> kd w' = kd w"
  using assms unfolding mq_open_law_def by auto

lemma mq_open_plain:
  assumes "mq_open_law api kq kd" and "acc = o_rdonly api \<or> acc = o_wronly api" and "kq w name \<noteq> None"
  shows "\<exists>d w'. mq_open api name acc 432 um a w = (Ok d, w') \<and>
    d \<noteq> NOT_MQD_T \<and> kd w d = None \<and> kq w' = kq w \<and> kd w' = (kd w)(d \<mapsto> name)"
  using assms unfolding mq_open_law_def by auto

text \<open>\<open>queue_send\<close> appends to the queue behind its descriptor, \<open>queue_receive\<close> takes its head.\<close>

lemma posix_send_appends:
  assumes "mq_send_law api kq kd" and "kd (world s) (mq q) = Some name" and "kq (world s) name = Some (a, ms)"
    and "length msg \<le> unat (mq_msgsize a)" and "length ms < unat (mq_maxmsg a)"
  shows "\<exists>w. posix_queue_send lc api q msg (- 1) e s = Ret (True, q, e, s\<lparr>world := w\<rparr>) \<and>
    kq w = (kq (world s))(name \<mapsto> (a, ms @ [msg])) \<and> kd w = kd (world s)"
proof -
  obtain w where "mq_send api (mq q) msg 0 (world s) = (Ok (), w)"
    "kq w = (kq (world s))(name \<mapsto> (a, ms @ [msg]))" "kd w = kd (world s)"
    using assms unfolding mq_send_law_def by blast
  then show ?thesis by (auto simp: posix_queue_send_def syscall_def)
qed

lemma posix_receive_takes:
  assumes "mq_receive_law api kq kd" and "kd (world s) (mq q) = Some name"
    and "kq (world s) name = Some (a, m # ms)" and "unat (mq_msgsize a) \<le> sz" and "length m < length buffer"
  shows "\<exists>w. posix_queue_receive lc api q buffer sz e s =
      Ret (int (length m), q, m @ NUL # drop (Suc (length m)) buffer, e, s\<lparr>world := w\<rparr>) \<and>
    kq w = (kq (world s))(name \<mapsto> (a, ms)) \<and> kd w = kd (world s)"
proof -
  obtain w where w: "mq_receive api (mq q) sz (world s) = (Ok m, w)"
    "kq w = (kq (world s))(name \<mapsto> (a, ms))" "kd w = kd (world s)"
    using assms(1-4) unfolding mq_receive_law_def by blast
  have "drop (length m) buffer = buffer ! length m # drop (Suc (length m)) buffer"
    using assms(5) by (simp add: Cons_nth_drop_Suc)
  with w assms(5) show ?thesis
    by (auto simp: posix_queue_receive_def syscall_def write_at_def poke_def list_update_append)
qed

lemma posix_open_owner:
  assumes "mq_open_law api kq kd" and "heap_apart lc kq kd" and "allocates lc"
    and "kq (world s) name = None"
  shows "\<exists>d w. posix_queue_open lc api q name QUEUE_FL_OWNER e s =
      Ret (True, q\<lparr>filename := Some name, mq := d\<rparr>, e, s\<lparr>world := w\<rparr>) \<and>
    d \<noteq> NOT_MQD_T \<and> kd (world s) d = None \<and>
    kq w = (kq (world s))(name \<mapsto> (attr q, [])) \<and> kd w = (kd (world s))(d \<mapsto> name)"
proof -
  let ?s = "s\<lparr>umask := 0\<rparr>"
  obtain w1 where al: "alloc lc (length name + 1) ?s = (True, ?s\<lparr>world := w1\<rparr>)"
    using allocatesD [OF assms(3)] by blast
  then have k1: "kq w1 = kq (world s)" "kd w1 = kd (world s)" using heap_apartD [OF assms(2) al] by simp_all
  obtain d w where d: "mq_open api name (o_rdonly api OR o_creat api OR o_excl api) 432 0 (attr q) w1 = (Ok d, w)"
    "d \<noteq> NOT_MQD_T" "kd w1 d = None" "kq w = (kq w1)(name \<mapsto> (attr q, []))" "kd w = (kd w1)(d \<mapsto> name)"
    using mq_open_create [OF assms(1), of "o_rdonly api" w1 name 0 "attr q"] assms(4) k1 by auto
  then show ?thesis using al k1
    by (intro exI [of _ d] exI [of _ w])
      (simp add: posix_queue_open_def posix_queue_open_mq_def set_umask_def syscall_def Let_def)
qed

lemma posix_open_sender:
  assumes "mq_open_law api kq kd" and "mq_getattr_law api kq kd" and "kq (world s) name = Some (a, ms)"
  shows "\<exists>d w. posix_queue_open lc api q name QUEUE_FL_SENDER e s =
      Ret (True, q\<lparr>mq := d, attr := a\<rparr>, e, s\<lparr>world := w\<rparr>) \<and>
    d \<noteq> NOT_MQD_T \<and> kd (world s) d = None \<and> kq w = kq (world s) \<and> kd w = (kd (world s))(d \<mapsto> name)"
proof -
  obtain d w1 where d: "mq_open api name (o_wronly api) 432 (umask s) (attr q) (world s) = (Ok d, w1)"
    "d \<noteq> NOT_MQD_T" "kd (world s) d = None" "kq w1 = kq (world s)" "kd w1 = (kd (world s))(d \<mapsto> name)"
    using mq_open_plain [OF assms(1), of "o_wronly api" "world s" name "umask s" "attr q"] assms(3) by auto
  then have "kd w1 d = Some name" "kq w1 name = Some (a, ms)" using assms(3) by simp_all
  then obtain w where "mq_getattr api d w1 = (Ok a, w)" "kq w = kq w1" "kd w = kd w1"
    using assms(2) unfolding mq_getattr_law_def by blast
  with d show ?thesis
    by (intro exI [of _ d] exI [of _ w])
      (simp add: posix_queue_open_def posix_queue_open_mq_def syscall_def Let_def)
qed

lemma posix_close_opened:
  assumes "mq_close_law api kq kd" and "kd (world s) (mq q) = Some name" and "mq q \<noteq> NOT_MQD_T"
    and "filename q = None \<or> filename q = Some own \<and> kq (world s) own \<noteq> None"
  shows "\<exists>w. posix_queue_close lc api (Some q) e s = Ret (True, None, e, s\<lparr>world := w\<rparr>) \<and>
    kd w = (kd (world s))(mq q := None) \<and>
    kq w = (if filename q = None then kq (world s) else (kq (world s))(own := None))"
proof -
  obtain w1 where w1: "mq_close api (mq q) (world s) = (Ok (), w1)" "kq w1 = kq (world s)"
    "kd w1 = (kd (world s))(mq q := None)"
    using assms(1,2) unfolding mq_close_law_def by blast
  show ?thesis
  proof (cases "filename q")
    case None
    with w1 assms(3) show ?thesis
      by (intro exI [of _ w1]) (simp add: posix_queue_close_def posix_queue_unlink_def syscall_def)
  next
    case (Some n)
    with assms(4) have n: "n = own" "kq w1 own \<noteq> None" using w1 by auto
    then obtain w where "mq_unlink api own w1 = (Ok (), w)" "kq w = (kq w1)(own := None)" "kd w = kd w1"
      using assms(1) unfolding mq_close_law_def by blast
    with Some n w1 assms(3) show ?thesis
      by (intro exI [of _ w]) (simp add: posix_queue_close_def posix_queue_unlink_def syscall_def)
  qed
qed

lemma posix_receive_message:
  assumes "mq_receive api (mq q) sz (world s) = (Ok m, w)" and "length m < length buffer"
  shows "posix_queue_receive lc api q buffer sz e s =
      Ret (int (length m), q, m @ NUL # drop (Suc (length m)) buffer, e, s\<lparr>world := w\<rparr>)"
proof -
  have "drop (length m) buffer = buffer ! length m # drop (Suc (length m)) buffer"
    using assms(2) by (simp add: Cons_nth_drop_Suc)
  then show ?thesis using assms
    by (simp add: posix_queue_receive_def syscall_def write_at_def poke_def list_update_append)
qed

text \<open>A POSIX queue is a channel: \<open>q\<close> has a descriptor of the queue \<open>name\<close>, no message is longer than the size
  that the queue announces, and the buffer is larger than that.\<close>

definition posix_waiting ::
  "string \<Rightarrow> mq_attr \<Rightarrow> (string \<Rightarrow> (mq_attr \<times> char list list) option) \<times> (int \<Rightarrow> string option) \<Rightarrow>
   posix_queue \<Rightarrow> nat \<Rightarrow> char list list \<Rightarrow> bool" where
  "posix_waiting name a o2 q k ms \<longleftrightarrow>
     snd o2 (mq q) = Some name \<and> fst o2 name = Some (a, ms) \<and> unat (mq_msgsize a) < k \<and>
     list_all (\<lambda>m. length m \<le> unat (mq_msgsize a)) ms"

interpretation posix_channel: message_channel "posix_ops lc api" "mq_receive_law api kq kd" "\<lambda>w. (kq w, kd w)" "posix_waiting name a"
  for lc api kq kd name a
proof (unfold_locales, goal_cases)
  case (1 s q k m ms b e)
  have a: "kd (world s) (mq q) = Some name" "kq (world s) name = Some (a, m # ms)" "unat (mq_msgsize a) < k"
    "list_all (\<lambda>m. length m \<le> unat (mq_msgsize a)) (m # ms)"
    using 1(2) by (simp_all add: posix_waiting_def)
  obtain w where w: "mq_receive api (mq q) k (world s) = (Ok m, w)" "kq w = (kq (world s))(name \<mapsto> (a, ms))" "kd w = kd (world s)"
    using 1(1) a(1-3) unfolding mq_receive_law_def by (metis less_imp_le)
  have "length m < length b" using a(3,4) 1(3) by simp
  from posix_receive_message [OF w(1) this] have
    "q_receive (posix_ops lc api) q b k e s = Ret (int (length m), q, m @ NUL # drop (Suc (length m)) b, e, s\<lparr>world := w\<rparr>)" by simp
  moreover have "c_str (m @ NUL # drop (Suc (length m)) b) = Ret (message_text m)" by (simp add: c_str_first_NUL message_text_def)
  moreover have "posix_waiting name a (kq w, kd w) q k ms" using a w by (simp add: posix_waiting_def)
  ultimately show ?case using \<open>length m < length b\<close> 1(3) by (intro exI conjI) (assumption | simp)+
qed

text \<open>An owner that fails to create its queue because another process has it already still remembers the name.\<close>

lemma posix_open_owner_exists:
  assumes "mq_kernel lc api kq kd" and "allocates lc" and "formats lc" and "kq (world s) name \<noteq> None"
  shows "\<exists>m s'. posix_queue_open lc api q name QUEUE_FL_OWNER (Some None) s =
      Ret (False, q\<lparr>filename := Some name, mq := NOT_MQD_T\<rparr>, Some (Some m), s') \<and> kq (world s') = kq (world s) \<and> kd (world s') = kd (world s)"
proof -
  have heap: "heap_apart lc kq kd" by (rule kernel_laws(6) [OF assms(1)])
  obtain w1 where al: "alloc lc (length name + 1) (s\<lparr>umask := 0\<rparr>) = (True, s\<lparr>umask := 0, world := w1\<rparr>)"
    using allocatesD [OF assms(2), of _ "s\<lparr>umask := 0\<rparr>"] by auto
  then have k1: "kq w1 = kq (world s)" "kd w1 = kd (world s)" using heap_apartD [OF heap al] by simp_all
  obtain n w2 where mo: "mq_open api name (o_rdonly api OR o_creat api OR o_excl api) 432 0 (attr q) w1 = (Err n, w2)"
    and k2: "kq w2 = kq (world s)" "kd w2 = kd (world s)"
    using mq_open_exists [OF kernel_laws(3) [OF assms(1)], of "o_rdonly api" w1 name 0 "attr q"] assms(4) k1 by auto
  have first: "\<exists>s'. error_set lc (Some None) m s1 = Ret (Some (Some m), s') \<and> kq (world s') = kq (world s1) \<and> kd (world s') = kd (world s1)" for m s1
  proof -
    obtain w where e: "error_set lc (Some None) m s1 = Ret (Some (Some m), s1\<lparr>world := w\<rparr>)" using error_set_first [OF assms(3,2)] by blast
    then show ?thesis using heap_apart_error [OF heap e] by simp
  qed
  let ?s = "s\<lparr>world := w2, errno := n\<rparr>" and ?q = "q\<lparr>filename := Some name, mq := NOT_MQD_T\<rparr>"
  have "\<exists>m. posix_queue_open lc api q name QUEUE_FL_OWNER (Some None) s = andthen (error_set lc (Some None) m ?s) (\<lambda>(e, s). Ret (False, ?q, e, s))"
    using al mo by (cases s) (auto simp: posix_queue_open_def posix_queue_open_mq_def set_error_defs set_umask_def syscall_def Let_def)
  then obtain m where m: "posix_queue_open lc api q name QUEUE_FL_OWNER (Some None) s = andthen (error_set lc (Some None) m ?s) (\<lambda>(e, s). Ret (False, ?q, e, s))" by blast
  obtain s' where "error_set lc (Some None) m ?s = Ret (Some (Some m), s')" "kq (world s') = kq w2" "kd (world s') = kd w2" using first [of m ?s] by auto
  then show ?thesis using m k2 by (intro exI [of _ m] exI [of _ s']) simp
qed

lemma posix_close_failed:
  assumes "mq_kernel lc api kq kd" and "filename q = Some name" and "mq q = NOT_MQD_T" and "kq (world s) name \<noteq> None"
  shows "\<exists>w. posix_queue_close lc api (Some q) None s = Ret (True, None, None, s\<lparr>world := w\<rparr>) \<and> kq w = (kq (world s))(name := None)"
proof -
  obtain w where "mq_unlink api name (world s) = (Ok (), w)" "kq w = (kq (world s))(name := None)"
    using kernel_laws(5) [OF assms(1)] assms(4) unfolding mq_close_law_def by blast
  then show ?thesis using assms(2,3) by (auto simp: posix_queue_close_def posix_queue_unlink_def syscall_def)
qed

section \<open>Properties\<close>

text \<open>C13: what is sent is what is received.  A message sent through one open queue to the name of
  another, empty one, arrives there unchanged: the receive returns its length, the buffer holds
  its characters and a terminator, and the queue is empty again.\<close>

theorem posix_send_receive:
  assumes "mq_kernel lc api kq kd" and "kd (world s) (mq sender) = Some name"
    and "kd (world s) (mq owner) = Some name" and "kq (world s) name = Some (a, [])"
    and "NUL \<notin> set msg" and "length msg \<le> unat (mq_msgsize a)" and "0 < mq_maxmsg a"
    and "unat (mq_msgsize a) \<le> sz" and "length msg < length buffer"
  shows "\<exists>w1 w2 buffer'.
    posix_queue_send lc api sender msg (- 1) e s = Ret (True, sender, e, s\<lparr>world := w1\<rparr>) \<and>
    posix_queue_receive lc api owner buffer sz e (s\<lparr>world := w1\<rparr>) =
      Ret (int (length msg), owner, buffer', e, s\<lparr>world := w2\<rparr>) \<and>
    length buffer' = length buffer \<and> c_str buffer' = Ret msg \<and> kq w2 = kq (world s)"
proof -
  have max: "length [] < unat (mq_maxmsg a)" using assms(7) by (simp add: word_less_nat_alt)
  obtain w1 where w1: "posix_queue_send lc api sender msg (- 1) e s = Ret (True, sender, e, s\<lparr>world := w1\<rparr>)"
    "kq w1 = (kq (world s))(name \<mapsto> (a, [] @ [msg]))" "kd w1 = kd (world s)"
    using posix_send_appends [OF kernel_laws(1) [OF assms(1)] assms(2,4,6) max] by blast
  then have "kd (world (s\<lparr>world := w1\<rparr>)) (mq owner) = Some name"
    "kq (world (s\<lparr>world := w1\<rparr>)) name = Some (a, msg # [])" using assms(3) by simp_all
  from posix_receive_takes [OF kernel_laws(2) [OF assms(1)] this assms(8,9), of lc e]
  obtain w2 where w2: "posix_queue_receive lc api owner buffer sz e (s\<lparr>world := w1\<rparr>) =
      Ret (int (length msg), owner, msg @ NUL # drop (Suc (length msg)) buffer, e, s\<lparr>world := w2\<rparr>)"
    "kq w2 = (kq w1)(name \<mapsto> (a, []))" by auto
  have "kq w2 = kq (world s)" using w1(2) w2(2) assms(4) by auto
  moreover have "length (msg @ NUL # drop (Suc (length msg)) buffer) = length buffer" using assms(9) by simp
  ultimately show ?thesis using w1(1) w2(1) c_str_append_NUL [OF assms(5)] by blast
qed

definition sample_open_kernel :: sample_kernel where
  "sample_open_kernel = \<lparr>sk_queues = [''/banipd'' \<mapsto> (\<lparr>mq_maxmsg = 10, mq_msgsize = 1024\<rparr>, [])],
     sk_table = [Some ''/banipd'', Some ''/banipd'']\<rparr>"

definition sample_queue :: "int \<Rightarrow> posix_queue" where
  "sample_queue d = \<lparr>mq = d, filename = None, attr = \<lparr>mq_maxmsg = 10, mq_msgsize = 1024\<rparr>\<rparr>"

theorem posix_send_receive_witness:
  "\<exists>w1 w2 buffer'.
    posix_queue_send sample_libc sample_mq_api (sample_queue 1) ''10.0.0.1'' (- 1) (Some None)
      (sample_proc sample_open_kernel) =
      Ret (True, sample_queue 1, Some None, (sample_proc sample_open_kernel)\<lparr>world := w1\<rparr>) \<and>
    posix_queue_receive sample_libc sample_mq_api (sample_queue 0) (replicate 1025 NUL) 1025 (Some None)
      ((sample_proc sample_open_kernel)\<lparr>world := w1\<rparr>) =
      Ret (int (length ''10.0.0.1''), sample_queue 0, buffer', Some None, (sample_proc sample_open_kernel)\<lparr>world := w2\<rparr>) \<and>
    length buffer' = length (replicate 1025 NUL) \<and> c_str buffer' = Ret ''10.0.0.1'' \<and>
    sk_queues w2 = sk_queues (world (sample_proc sample_open_kernel))"
  by (rule posix_send_receive [OF sample_kernel_law, where name = "''/banipd''" and a = "\<lparr>mq_maxmsg = 10, mq_msgsize = 1024\<rparr>"])
    (simp_all add: sample_proc_def sample_open_kernel_def sample_queue_def sk_descr_def)

text \<open>C33: \<open>queue_receive\<close> writes the terminator behind the message; it stays inside the buffer
  exactly when the message is shorter than the buffer, and then the buffer reads as the message
  up to its first null character.\<close>

theorem posix_receive_bounds:
  assumes "mq_receive api (mq q) sz (world s) = (Ok m, w)"
  shows "(if length m < length buffer then
      posix_queue_receive lc api q buffer sz e s =
        Ret (int (length m), q, m @ NUL # drop (Suc (length m)) buffer, e, s\<lparr>world := w\<rparr>) \<and>
      c_str (m @ NUL # drop (Suc (length m)) buffer) = Ret (takeWhile (\<lambda>c. c \<noteq> NUL) m)
    else posix_queue_receive lc api q buffer sz e s = Undef Out_Of_Bounds)"
proof (cases "length m < length buffer")
  case True
  then have "drop (length m) buffer = buffer ! length m # drop (Suc (length m)) buffer"
    by (simp add: Cons_nth_drop_Suc)
  moreover have "c_str (m @ NUL # drop (Suc (length m)) buffer) = Ret (takeWhile (\<lambda>c. c \<noteq> NUL) m)"
    by (rule c_str_first_NUL)
  ultimately show ?thesis using True assms
    by (simp add: posix_queue_receive_def syscall_def write_at_def poke_def list_update_append)
next
  case False
  then show ?thesis using assms
    by (cases "length m = length buffer") (simp_all add: posix_queue_receive_def syscall_def write_at_def poke_def)
qed

theorem posix_receive_bounds_witness:
  "posix_queue_receive sample_libc (sample_mq_api\<lparr>mq_receive := \<lambda>d size w. (Ok ''10.0.0.1'', w)\<rparr>)
     (sample_queue 0) (replicate 8 NUL) 8 None (sample_proc sample_open_kernel) = Undef Out_Of_Bounds"
  using posix_receive_bounds [of "sample_mq_api\<lparr>mq_receive := \<lambda>d size w. (Ok ''10.0.0.1'', w)\<rparr>" "sample_queue 0" 8
      "sample_proc sample_open_kernel" "''10.0.0.1''" sample_open_kernel "replicate 8 NUL" sample_libc None]
  by (simp add: sample_proc_def)


text \<open>\<open>queue_open\<close> gives the file mode creation mask of the process back, on success and on failure,
  with one exception: when the owner fails to copy the name, the mask of the process stays 0.\<close>

lemma posix_open_umask:
  assumes "posix_queue_open lc api q name flags error s = Ret (ok, q', error', s')"
  shows "umask s' =
    (if HAS_FLAG flags QUEUE_FL_OWNER \<and> \<not> fst (alloc lc (length name + 1) (s\<lparr>umask := 0\<rparr>)) then 0 else umask s) \<and>
    (umask s' \<noteq> umask s \<longrightarrow> \<not> ok)"
  using assms
  by (auto simp: posix_queue_open_def posix_queue_open_mq_def set_error_defs set_umask_def outcome_simps Let_def
      split: prod.splits bool.splits sysret.splits if_splits
      dest!: syscall_Ok syscall_Err alloc_keeps error_set_keeps)

lemma posix_open_umask_witness:
  "\<exists>error' s'. posix_queue_open (sample_libc\<lparr>malloc := \<lambda>n w. (n \<noteq> 8, w)\<rparr>) sample_mq_api (sample_queue (- 1)) ''/banipd''
      QUEUE_FL_OWNER (Some None) ((sample_proc sample_open_kernel)\<lparr>umask := 18\<rparr>) =
      Ret (False, sample_queue (- 1), error', s') \<and> umask s' = 0"
proof -
  let ?lc = "sample_libc\<lparr>malloc := \<lambda>n w. (n \<noteq> 8, w)\<rparr> :: sample_kernel libc"
  let ?s = "(sample_proc sample_open_kernel)\<lparr>umask := 18\<rparr>"
  obtain error' s' where r: "posix_queue_open ?lc sample_mq_api (sample_queue (- 1)) ''/banipd'' QUEUE_FL_OWNER (Some None) ?s =
      Ret (False, sample_queue (- 1), error', s')"
    by (simp add: posix_queue_open_def set_umask_def alloc_def sample_libc_def sample_proc_def sample_queue_def
        set_error_defs error_set_def)
  from posix_open_umask [OF r] have "umask s' = 0" by (simp add: alloc_def)
  with r show ?thesis by blast
qed


text \<open>C20: the life cycle of an owned queue leaves nothing behind.  On a kernel without a queue of
  that name, initialising, opening as owner and closing all succeed; in between the queue exists,
  empty and with the default attributes, behind a fresh descriptor; afterwards the queues, the
  descriptors and the mask of the process are those from before, and the pointer is null.\<close>

theorem posix_owner_lifecycle:
  assumes "mq_kernel lc api kq kd" and "allocates lc" and "kq (world s) name = None"
  shows "\<exists>q q' w1 w2 w3.
    posix_queue_init lc api e s = Ret (Some q, e, s\<lparr>world := w1\<rparr>) \<and>
    posix_queue_open lc api q name QUEUE_FL_OWNER e (s\<lparr>world := w1\<rparr>) = Ret (True, q', e, s\<lparr>world := w2\<rparr>) \<and>
    kq w2 name = Some (\<lparr>mq_maxmsg = 10, mq_msgsize = 1024\<rparr>, []) \<and> kd w2 (mq q') = Some name \<and>
    posix_queue_close lc api (Some q') e (s\<lparr>world := w2\<rparr>) = Ret (True, None, e, s\<lparr>world := w3\<rparr>) \<and>
    kq w3 = kq (world s) \<and> kd w3 = kd (world s)"
proof -
  let ?a = "\<lparr>mq_maxmsg = 10, mq_msgsize = 1024\<rparr>"
  let ?q = "\<lparr>mq = NOT_MQD_T, filename = None, attr = ?a\<rparr>"
  obtain w1 where al: "alloc lc (sizeof_posix_queue api) s = (True, s\<lparr>world := w1\<rparr>)"
    using allocatesD [OF assms(2)] by blast
  then have init: "posix_queue_init lc api e s = Ret (Some ?q, e, s\<lparr>world := w1\<rparr>)"
    by (simp add: posix_queue_init_def)
  have k1: "kq w1 = kq (world s)" "kd w1 = kd (world s)"
    using heap_apartD [OF kernel_laws(6) [OF assms(1)] al] by simp_all
  from posix_open_owner [OF kernel_laws(3,6) [OF assms(1)] assms(2), of "s\<lparr>world := w1\<rparr>" name ?q e]
  obtain d w2 where op: "posix_queue_open lc api ?q name QUEUE_FL_OWNER e (s\<lparr>world := w1\<rparr>) =
      Ret (True, ?q\<lparr>filename := Some name, mq := d\<rparr>, e, s\<lparr>world := w2\<rparr>)"
    "d \<noteq> NOT_MQD_T" "kd (world s) d = None" "kq w2 = (kq (world s))(name \<mapsto> (?a, []))" "kd w2 = (kd (world s))(d \<mapsto> name)"
    using assms(3) k1 by auto
  let ?q' = "?q\<lparr>filename := Some name, mq := d\<rparr>"
  obtain w3 where "posix_queue_close lc api (Some ?q') e (s\<lparr>world := w2\<rparr>) = Ret (True, None, e, s\<lparr>world := w3\<rparr>)"
    "kd w3 = (kd w2)(d := None)" "kq w3 = (kq w2)(name := None)"
    using posix_close_opened [OF kernel_laws(5) [OF assms(1)], where q = ?q' and s = "s\<lparr>world := w2\<rparr>" and name = name
        and own = name and lc = lc and e = e] op by auto
  moreover have "kq w2 name = Some (?a, [])" "kd w2 d = Some name" using op by simp_all
  moreover have "(kq w2)(name := None) = kq (world s)" "(kd w2)(d := None) = kd (world s)"
    using op assms(3) by auto
  ultimately show ?thesis using init op(1)
    by (intro exI [of _ ?q] exI [of _ ?q'] exI [of _ w1] exI [of _ w2] exI [of _ w3]) simp
qed

theorem posix_owner_lifecycle_witness:
  "\<exists>q q' w1 w2 w3.
    posix_queue_init sample_libc sample_mq_api None (sample_proc sample_open_kernel) =
      Ret (Some q, None, (sample_proc sample_open_kernel)\<lparr>world := w1\<rparr>) \<and>
    posix_queue_open sample_libc sample_mq_api q ''/ban'' QUEUE_FL_OWNER None ((sample_proc sample_open_kernel)\<lparr>world := w1\<rparr>) =
      Ret (True, q', None, (sample_proc sample_open_kernel)\<lparr>world := w2\<rparr>) \<and>
    sk_queues w2 ''/ban'' = Some (\<lparr>mq_maxmsg = 10, mq_msgsize = 1024\<rparr>, []) \<and> sk_descr w2 (mq q') = Some ''/ban'' \<and>
    posix_queue_close sample_libc sample_mq_api (Some q') None ((sample_proc sample_open_kernel)\<lparr>world := w2\<rparr>) =
      Ret (True, None, None, (sample_proc sample_open_kernel)\<lparr>world := w3\<rparr>) \<and>
    sk_queues w3 = sk_queues (world (sample_proc sample_open_kernel)) \<and>
    sk_descr w3 = sk_descr (world (sample_proc sample_open_kernel))"
  by (rule posix_owner_lifecycle [OF sample_kernel_law])
    (simp_all add: allocates_def sample_libc_def sample_proc_def sample_open_kernel_def)

end
