(* ===== verification/Systemv_Queue.thy ===== *)
theory Systemv_Queue
  imports Queue CString
begin

text \<open>
  The queue on System V message queues (\<open>queues/systemv.c\<close>).  The rendezvous is a file: the owner
  creates it, stores the project identifier in it and derives the key from both; the others read
  the identifier back.  The calls of the system are the fields of \<open>sysv_api\<close>.  The contents of
  fresh stack and heap memory are unspecified: they are the fields \<open>stack_bytes\<close>, \<open>stack_int\<close> and
  \<open>heap_bytes\<close> of the platform.  Sizes are those of a platform with 64-bit \<open>long\<close> and pointers.
\<close>

unbundle bit_operations_syntax

section \<open>State and system interface\<close>

text \<open>
  The allocation behind \<open>buffer\<close> starts with the message type (\<open>mtype\<close>, a \<open>long\<close>); \<open>mtext\<close> are the
  bytes after it.
\<close>

record msgbuf =
  mtype :: int
  mtext :: "char list"

record systemv_queue =
  qid :: int
  sv_buffer :: "msgbuf option"
  sv_filename :: "string option"
  sv_buffer_size :: ulong

record 'w sysv_api =
  maxpathlen :: nat
  char_signed :: bool
  sizeof_systemv_queue :: nat
  stack_bytes :: "'w \<Rightarrow> nat \<Rightarrow> char"
  stack_int :: "'w \<Rightarrow> cint"
  heap_bytes :: "'w \<Rightarrow> nat \<Rightarrow> char"
  ipc_creat :: cint
  ipc_excl :: cint
  fopen :: "string \<Rightarrow> string \<Rightarrow> 'w \<Rightarrow> int sysret \<times> 'w"
  fwrite_int :: "int \<Rightarrow> cint \<Rightarrow> 'w \<Rightarrow> unit sysret \<times> 'w"
  fread_int :: "int \<Rightarrow> 'w \<Rightarrow> cint sysret \<times> 'w"
  fflush :: "int \<Rightarrow> 'w \<Rightarrow> unit sysret \<times> 'w"
  fclose :: "int \<Rightarrow> 'w \<Rightarrow> unit sysret \<times> 'w"
  ftok :: "string \<Rightarrow> cint \<Rightarrow> 'w \<Rightarrow> int option"
  msgget :: "int \<Rightarrow> cint \<Rightarrow> 'w \<Rightarrow> int sysret \<times> 'w"
  msg_stat :: "int \<Rightarrow> 'w \<Rightarrow> ulong sysret \<times> 'w"
  msg_rmid :: "int \<Rightarrow> 'w \<Rightarrow> unit sysret \<times> 'w"
  msgrcv :: "int \<Rightarrow> nat \<Rightarrow> 'w \<Rightarrow> (int \<times> char list) sysret \<times> 'w"
  msgsnd :: "int \<Rightarrow> int \<Rightarrow> char list \<Rightarrow> 'w \<Rightarrow> unit sysret \<times> 'w"
  unlink :: "string \<Rightarrow> 'w \<Rightarrow> unit sysret \<times> 'w"

section \<open>Operations\<close>

definition systemv_queue_init ::
  "'w libc \<Rightarrow> 'w sysv_api \<Rightarrow> errp \<Rightarrow> 'w proc \<Rightarrow> (systemv_queue option \<times> errp \<times> 'w proc) outcome" where
  "systemv_queue_init lc api error s =
     (case alloc lc (sizeof_systemv_queue api) s of
        (False, s) \<Rightarrow>
          andthen (set_malloc_error lc error (sizeof_systemv_queue api) s) (\<lambda>(error, s). Ret (None, error, s))
      | (True, s) \<Rightarrow>
          Ret (Some \<lparr>qid = - 1, sv_buffer = None, sv_filename = None, sv_buffer_size = 0\<rparr>, error, s))"

definition systemv_queue_set_attribute ::
  "systemv_queue \<Rightarrow> queue_attr \<Rightarrow> ulong \<Rightarrow> queue_err \<times> systemv_queue" where
  "systemv_queue_set_attribute q a v =
     (if sv_filename q = None then (QUEUE_ERR_NOT_OWNER, q) else (QUEUE_ERR_NOT_SUPPORTED, q))"

text \<open>
  \<open>queue_open\<close> in three parts.  First the path: \<open>filename\<close> is an automatic array that starts with
  whatever the stack holds.  \<open>strncpy\<close> stores the part before the colon and no terminator.
\<close>

definition fresh_filename :: "'w sysv_api \<Rightarrow> 'w proc \<Rightarrow> char list" where
  "fresh_filename api s = map (stack_bytes api (world s)) [0..<maxpathlen api]"

definition systemv_copy_name ::
  "'w libc \<Rightarrow> 'w sysv_api \<Rightarrow> string \<Rightarrow> errp \<Rightarrow> 'w proc \<Rightarrow> (char list option \<times> errp \<times> 'w proc) outcome" where
  "systemv_copy_name lc api name error s =
     andthen (strlcpy (fresh_filename api s) (name @ [NUL]) (maxpathlen api)) (\<lambda>(n, filename).
     if n \<ge> maxpathlen api then
       andthen (set_buffer_overflow_error lc error ''name'' name ''filename'' (maxpathlen api) s)
         (\<lambda>(error, s). Ret (None, error, s))
     else Ret (Some filename, error, s))"

text \<open>The conversion of a plain \<open>char\<close> to \<open>int\<close>.\<close>

definition int_of_plain_char :: "bool \<Rightarrow> char \<Rightarrow> cint" where
  "int_of_plain_char neg c =
     (if neg then signed_take_bit 7 (word_of_nat (of_char c)) else word_of_nat (of_char c))"

definition systemv_owner_path ::
  "'w libc \<Rightarrow> 'w sysv_api \<Rightarrow> string \<Rightarrow> errp \<Rightarrow> 'w proc \<Rightarrow>
   ((cint \<times> char list) option \<times> errp \<times> 'w proc) outcome" where
  "systemv_owner_path lc api name error s =
     (case strchr name CHR '':'' of
        None \<Rightarrow>
          andthen (systemv_copy_name lc api name error s)
            (\<lambda>(f, error, s). Ret (map_option (Pair (int_of_plain_char (char_signed api) CHR ''b'')) f, error, s))
      | Some i \<Rightarrow>
          if (name @ [NUL]) ! i = NUL then
            andthen (systemv_copy_name lc api name error s)
              (\<lambda>(f, error, s). Ret (map_option (Pair (int_of_plain_char (char_signed api) CHR ''b'')) f, error, s))
          else
            let ident = int_of_plain_char (char_signed api) ((name @ [NUL]) ! Suc i) in
            if i \<ge> maxpathlen api then
              andthen (set_buffer_overflow_error lc error ''name'' name ''filename'' (maxpathlen api) s)
                (\<lambda>(error, s). Ret (None, error, s))
            else
              andthen (strncpy (fresh_filename api s) name i) (\<lambda>filename.
              Ret (Some (ident, filename), error, s)))"

text \<open>
  Second the file.  The owner creates it and writes the identifier; the others read it.  The
  result of \<open>fread\<close> is tested by \<^verbatim>\<open>1 != fread(...) < sizeof(id)\<close>, which compares 1 with the
  truth value of a comparison: the number of items read is 0 or 1.
\<close>

definition systemv_owner_file ::
  "'w libc \<Rightarrow> 'w sysv_api \<Rightarrow> string \<Rightarrow> errp \<Rightarrow> 'w proc \<Rightarrow>
   ((cint \<times> string) option \<times> errp \<times> 'w proc) outcome" where
  "systemv_owner_file lc api name error s =
     andthen (systemv_owner_path lc api name error s) (\<lambda>(p, error, s).
     case p of
       None \<Rightarrow> Ret (None, error, s)
     | Some (ident, arr) \<Rightarrow>
         andthen (c_str arr) (\<lambda>filename.
         case syscall (fopen api filename ''wx'') s of
           (Err n, s) \<Rightarrow>
             andthen (set_system_error lc error ''fopen(\"%s\", \"wx\") failed'' [SArg filename] s)
               (\<lambda>(error, s). Ret (None, error, s))
         | (Ok fp, s) \<Rightarrow>
             (case syscall (fwrite_int api fp ident) s of
                (Err n, s) \<Rightarrow>
                  andthen (set_system_error lc error ''fwrite to '%s' failed'' [SArg filename] s)
                    (\<lambda>(error, s). Ret (None, error, s))
              | (Ok _, s) \<Rightarrow>
                  let s = snd (syscall (fflush api fp) s); s = snd (syscall (fclose api fp) s) in
                  Ret (Some (ident, filename), error, s))))"

definition systemv_other_file ::
  "'w libc \<Rightarrow> 'w sysv_api \<Rightarrow> string \<Rightarrow> errp \<Rightarrow> 'w proc \<Rightarrow>
   ((cint \<times> string) option \<times> errp \<times> 'w proc) outcome" where
  "systemv_other_file lc api name error s =
     (let id0 = stack_int api (world s) in
      andthen (systemv_copy_name lc api name error s) (\<lambda>(p, error, s).
      case p of
        None \<Rightarrow> Ret (None, error, s)
      | Some arr \<Rightarrow>
          andthen (c_str arr) (\<lambda>filename.
          case syscall (fopen api filename ''r'') s of
            (Err n, s) \<Rightarrow>
              andthen (set_system_error lc error ''fopen(\"%s\", \"r\") failed'' [SArg filename] s)
                (\<lambda>(error, s). Ret (None, error, s))
          | (Ok fp, s) \<Rightarrow>
              (case (case syscall (fread_int api fp) s of (Ok i, s) \<Rightarrow> (1, i, s) | (Err n, s) \<Rightarrow> (0, id0, s)) of
                 (nread, ident, s) \<Rightarrow>
                   if (1::nat) \<noteq> of_bool (nread < (4::nat)) then
                     andthen (set_system_error lc error ''fread from '%s' failed'' [SArg filename] s)
                       (\<lambda>(error, s). Ret (None, error, s))
                   else Ret (Some (ident, filename), error, snd (syscall (fclose api fp) s))))))"

text \<open>
  Third the queue and the buffer (lines 164 to 174).  \<open>sizeof(q->buffer)\<close> is the size of a pointer;
  the product and the sum wrap around like \<open>size_t\<close>.
\<close>

definition systemv_alloc_buffer ::
  "'w libc \<Rightarrow> 'w sysv_api \<Rightarrow> systemv_queue \<Rightarrow> errp \<Rightarrow> 'w proc \<Rightarrow>
   (bool \<times> systemv_queue \<times> errp \<times> 'w proc) outcome" where
  "systemv_alloc_buffer lc api q error s =
     (case syscall (msg_stat api (qid q)) s of
        (Err n, s) \<Rightarrow>
          andthen (set_system_error lc error ''msgctl(%d, IPC_STAT, %p) failed'' [IArg (qid q), PArg] s)
            (\<lambda>(error, s). Ret (False, q, error, s))
      | (Ok qbytes, s) \<Rightarrow>
          let q = q\<lparr>sv_buffer_size := qbytes div 8\<rparr>;
              nbytes = unat (8 + 8 * sv_buffer_size q) in
          (case alloc lc nbytes s of
             (False, s) \<Rightarrow>
               andthen (set_malloc_error lc error nbytes s)
                 (\<lambda>(error, s). Ret (False, q\<lparr>sv_buffer := None\<rparr>, error, s))
           | (True, s) \<Rightarrow>
               if nbytes < 8 then Undef Out_Of_Bounds
               else
                 Ret (True, q\<lparr>sv_buffer := Some \<lparr>mtype = 1, mtext = map (heap_bytes api (world s)) [0..<nbytes - 8]\<rparr>\<rparr>,
                   error, s)))"

definition systemv_open_msgget ::
  "'w libc \<Rightarrow> 'w sysv_api \<Rightarrow> systemv_queue \<Rightarrow> cint \<Rightarrow> int \<Rightarrow> string \<Rightarrow> errp \<Rightarrow> 'w proc \<Rightarrow>
   (bool \<times> systemv_queue \<times> errp \<times> 'w proc) outcome" where
  "systemv_open_msgget lc api q flags key filename error s =
     andthen
       (if HAS_FLAG flags QUEUE_FL_OWNER then
          (case alloc lc (length filename + 1) s of
             (False, s) \<Rightarrow>
               andthen (set_generic_error lc error ''strdup failed to copy \"%s\"'' [SArg filename] s)
                 (\<lambda>(error, s). Ret (q\<lparr>sv_filename := None\<rparr>, None, error, s))
           | (True, s) \<Rightarrow>
               (case set_umask 0 s of (oldmask, s) \<Rightarrow>
                case syscall (msgget api key (432 OR ipc_creat api OR ipc_excl api)) s of (r, s) \<Rightarrow>
                Ret (q\<lparr>sv_filename := Some filename\<rparr>, Some r, error, snd (set_umask oldmask s))))
        else
          (case syscall (msgget api key 432) s of (r, s) \<Rightarrow> Ret (q, Some r, error, s)))
       (\<lambda>(q, r, error, s).
          case r of
            None \<Rightarrow> Ret (False, q, error, s)
          | Some (Err n) \<Rightarrow>
              andthen (set_system_error lc error ''msgget failed'' [] s)
                (\<lambda>(error, s). Ret (False, q\<lparr>qid := - 1\<rparr>, error, s))
          | Some (Ok d) \<Rightarrow> systemv_alloc_buffer lc api (q\<lparr>qid := d\<rparr>) error s)"

definition systemv_queue_open ::
  "'w libc \<Rightarrow> 'w sysv_api \<Rightarrow> systemv_queue \<Rightarrow> string \<Rightarrow> cint \<Rightarrow> errp \<Rightarrow> 'w proc \<Rightarrow>
   (bool \<times> systemv_queue \<times> errp \<times> 'w proc) outcome" where
  "systemv_queue_open lc api q name flags error s =
     andthen
       (if HAS_FLAG flags QUEUE_FL_OWNER then systemv_owner_file lc api name error s
        else systemv_other_file lc api name error s)
       (\<lambda>(f, error, s).
          case f of
            None \<Rightarrow> Ret (False, q, error, s)
          | Some (ident, filename) \<Rightarrow>
              (case ftok api filename ident (world s) of
                 None \<Rightarrow>
                   andthen (set_generic_error lc error ''ftok(\"%s\", %d) failed'' [SArg filename, IArg (sint ident)] s)
                     (\<lambda>(error, s). Ret (False, q, error, s))
               | Some key \<Rightarrow> systemv_open_msgget lc api q flags key filename error s))"

definition systemv_queue_get_attribute ::
  "'w sysv_api \<Rightarrow> systemv_queue \<Rightarrow> queue_attr \<Rightarrow> 'w proc \<Rightarrow> queue_err \<times> ulong option \<times> 'w proc" where
  "systemv_queue_get_attribute api q a s =
     (if a = QUEUE_ATTR_MAX_QUEUE_SIZE \<or> a = QUEUE_ATTR_MAX_MESSAGE_SIZE then
        (case syscall (msg_stat api (qid q)) s of
           (Err n, s) \<Rightarrow> (QUEUE_ERR_GENERAL_FAILURE, None, s)
         | (Ok qbytes, s) \<Rightarrow> (QUEUE_ERR_OK, Some qbytes, s))
      else (QUEUE_ERR_NOT_SUPPORTED, None, s))"

text \<open>\<open>msgrcv\<close> stores the message without a terminator over the old contents of \<open>q->buffer\<close>.\<close>

definition systemv_queue_receive ::
  "'w libc \<Rightarrow> 'w sysv_api \<Rightarrow> systemv_queue \<Rightarrow> char list \<Rightarrow> nat \<Rightarrow> errp \<Rightarrow> 'w proc \<Rightarrow>
   (int \<times> systemv_queue \<times> char list \<times> errp \<times> 'w proc) outcome" where
  "systemv_queue_receive lc api q buffer sz error s =
     (case syscall (msgrcv api (qid q) sz) s of
        (Ok (ty, msg), s) \<Rightarrow>
          (case sv_buffer q of
             None \<Rightarrow> Undef Null_Deref
           | Some b \<Rightarrow>
               andthen (write_at (mtext b) 0 msg) (\<lambda>cells.
               andthen (c_str cells) (\<lambda>str.
               andthen (strcpy buffer 0 str) (\<lambda>buffer.
               Ret (int (length msg), q\<lparr>sv_buffer := Some \<lparr>mtype = ty, mtext = cells\<rparr>\<rparr>, buffer, error, s)))))
      | (Err n, s) \<Rightarrow>
          andthen (set_system_error lc error ''msgrcv failed'' [] s)
            (\<lambda>(error, s). Ret (- 1, q, buffer, error, s)))"

text \<open>\<open>msg_len\<close> is computed and not used: the length that is sent is \<open>q->buffer_size\<close>.\<close>

definition systemv_queue_send ::
  "'w libc \<Rightarrow> 'w sysv_api \<Rightarrow> systemv_queue \<Rightarrow> string \<Rightarrow> int \<Rightarrow> errp \<Rightarrow> 'w proc \<Rightarrow>
   (bool \<times> systemv_queue \<times> errp \<times> 'w proc) outcome" where
  "systemv_queue_send lc api q msg msg_len error s =
     (case sv_buffer q of
        None \<Rightarrow> Undef Null_Deref
      | Some b \<Rightarrow>
          andthen (strcpy (mtext b) 0 msg) (\<lambda>cells.
          let q = q\<lparr>sv_buffer := Some (b\<lparr>mtext := cells\<rparr>)\<rparr> in
          if length cells < unat (sv_buffer_size q) then Undef Out_Of_Bounds
          else
            (case syscall (msgsnd api (qid q) (mtype b) (take (unat (sv_buffer_size q)) cells)) s of
               (Err n, s) \<Rightarrow>
                 andthen (set_system_error lc error ''msgsnd failed'' [] s)
                   (\<lambda>(error, s). Ret (False, q, error, s))
             | (Ok _, s) \<Rightarrow> Ret (True, q, error, s))))"

definition systemv_queue_close ::
  "'w libc \<Rightarrow> 'w sysv_api \<Rightarrow> systemv_queue option \<Rightarrow> errp \<Rightarrow> 'w proc \<Rightarrow>
   (bool \<times> systemv_queue option \<times> errp \<times> 'w proc) outcome" where
  "systemv_queue_close lc api p error s =
     (case p of
        None \<Rightarrow> Ret (True, None, error, s)
      | Some q \<Rightarrow>
          (case sv_filename q of
             None \<Rightarrow> Ret (True, None, error, s)
           | Some name \<Rightarrow>
               andthen
                 (if qid q \<noteq> - 1 then
                    (case syscall (msg_rmid api (qid q)) s of
                       (Err n, s) \<Rightarrow>
                         andthen (set_system_error lc error ''msgctl(%d, IPC_RMID, NULL) failed'' [IArg (qid q)] s)
                           (\<lambda>(error, s). Ret (False, q, error, s))
                     | (Ok _, s) \<Rightarrow> Ret (True, q\<lparr>qid := - 1\<rparr>, error, s))
                  else Ret (True, q, error, s))
                 (\<lambda>(removed, q, error, s).
                    if \<not> removed then Ret (False, Some q, error, s)
                    else
                      (case syscall (unlink api name) s of
                         (Err n, s) \<Rightarrow>
                           andthen (set_system_error lc error ''unlink(\"%s\") failed'' [SArg name] s)
                             (\<lambda>(error, s). Ret (False, Some q, error, s))
                       | (Ok _, s) \<Rightarrow> Ret (True, None, error, s)))))"

definition systemv_ops :: "'w libc \<Rightarrow> 'w sysv_api \<Rightarrow> (systemv_queue, 'w) queue_ops" where
  "systemv_ops lc api =
     \<lparr>q_init = systemv_queue_init lc api, q_set_attribute = systemv_queue_set_attribute,
      q_open = systemv_queue_open lc api, q_get_attribute = systemv_queue_get_attribute api,
      q_receive = systemv_queue_receive lc api, q_send = systemv_queue_send lc api,
      q_close = systemv_queue_close lc api\<rparr>"

definition systemv_unopened :: "systemv_queue \<Rightarrow> bool" where
  "systemv_unopened q \<longleftrightarrow> sv_filename q = None \<and> qid q = - 1 \<and> sv_buffer q = None"

lemmas systemv_open_defs =
  systemv_queue_open_def systemv_open_msgget_def systemv_alloc_buffer_def systemv_other_file_def
  systemv_owner_file_def systemv_owner_path_def systemv_copy_name_def

section \<open>The contract\<close>

lemma systemv_ops_simps [simp]:
  "q_init (systemv_ops lc api) = systemv_queue_init lc api"
  "q_set_attribute (systemv_ops lc api) = systemv_queue_set_attribute"
  "q_open (systemv_ops lc api) = systemv_queue_open lc api"
  "q_get_attribute (systemv_ops lc api) = systemv_queue_get_attribute api"
  "q_receive (systemv_ops lc api) = systemv_queue_receive lc api"
  "q_send (systemv_ops lc api) = systemv_queue_send lc api"
  "q_close (systemv_ops lc api) = systemv_queue_close lc api"
  by (simp_all add: systemv_ops_def)


text \<open>
  What a step of \<open>queue_open\<close> does to the mask and to \<open>error\<close>.
\<close>

lemma systemv_copy_name_Ret:
  "systemv_copy_name lc api name e s = Ret (f, e', s') \<Longrightarrow> umask s' = umask s \<and> reports lc (f \<noteq> None) e e'"
  by (auto simp: systemv_copy_name_def set_error_defs outcome_simps split: if_splits dest!: error_set_reports)

lemma systemv_owner_path_Ret:
  "systemv_owner_path lc api name e s = Ret (f, e', s') \<Longrightarrow> umask s' = umask s \<and> reports lc (f \<noteq> None) e e'"
  by (auto simp: systemv_owner_path_def set_error_defs outcome_simps Let_def split: if_splits option.splits
      dest!: error_set_reports systemv_copy_name_Ret)

lemma systemv_owner_file_Ret:
  "systemv_owner_file lc api name e s = Ret (f, e', s') \<Longrightarrow> umask s' = umask s \<and> reports lc (f \<noteq> None) e e'"
  by (auto simp: systemv_owner_file_def set_error_defs Let_def frame_simps elim!: andthenE
      split: option.splits sysret.splits prod.splits
      dest!: systemv_owner_path_Ret syscall_Ok syscall_Err error_set_reports)

lemma systemv_other_file_Ret:
  "systemv_other_file lc api name e s = Ret (f, e', s') \<Longrightarrow> umask s' = umask s \<and> reports lc (f \<noteq> None) e e'"
  by (auto simp: systemv_other_file_def set_error_defs Let_def frame_simps elim!: andthenE
      split: option.splits sysret.splits prod.splits if_splits
      dest!: systemv_copy_name_Ret syscall_Ok syscall_Err error_set_reports)

lemma systemv_alloc_buffer_Ret:
  "systemv_alloc_buffer lc api q e s = Ret (ok, q', e', s') \<Longrightarrow> umask s' = umask s \<and> reports lc ok e e'"
  by (auto simp: systemv_alloc_buffer_def set_error_defs outcome_simps Let_def
      split: sysret.splits prod.splits if_splits bool.splits
      dest!: syscall_Ok syscall_Err alloc_keeps error_set_reports)

lemma systemv_open_msgget_Ret:
  "systemv_open_msgget lc api q fl key f e s = Ret (ok, q', e', s') \<Longrightarrow> umask s' = umask s \<and> reports lc ok e e'"
  by (auto simp: systemv_open_msgget_def set_error_defs set_umask_def outcome_simps
      split: sysret.splits prod.splits if_splits bool.splits option.splits
      dest!: syscall_Ok syscall_Err alloc_keeps error_set_reports systemv_alloc_buffer_Ret)

lemma systemv_queue_open_Ret:
  "systemv_queue_open lc api q name fl e s = Ret (ok, q', e', s') \<Longrightarrow> umask s' = umask s \<and> reports lc ok e e'"
  by (auto simp: systemv_queue_open_def set_error_defs elim!: andthenE
      split: if_splits option.splits prod.splits
      dest!: error_set_reports systemv_owner_file_Ret systemv_other_file_Ret systemv_open_msgget_Ret)

interpretation systemv: queue_backend "systemv_ops lc api" systemv_unopened "formats lc" for lc api
proof (unfold_locales, goal_cases)
  case (1 e s q e' s')
  then show ?case
    by (auto simp: systemv_queue_init_def systemv_unopened_def elim!: andthenE split: prod.splits bool.splits)
next
  case (2 e s p e' s')
  then show ?case
    by (auto simp: systemv_queue_init_def set_error_defs elim!: andthenE split: prod.splits bool.splits
        dest!: alloc_keeps error_set_keeps)
next
  case (3 s e' s')
  then show ?case
    by (auto simp: systemv_queue_init_def set_error_defs elim!: andthenE split: prod.splits bool.splits
        dest: error_set_stores)
next
  case (4 q a v)
  then show ?case by (simp add: systemv_unopened_def systemv_queue_set_attribute_def)
next
  case (5 e s)
  then show ?case by (simp add: systemv_queue_close_def)
next
  case (6 p e s p' e' s')
  then show ?case
    by (auto simp: systemv_queue_close_def elim!: andthenE split: prod.splits option.splits sysret.splits if_splits)
next
  case (7 q name fl s q' e' s')
  then show ?case using systemv_queue_open_Ret [of lc api q name fl "Some None" s] by (auto simp: reports_def)
next
  case (8 q name fl e s q' e' s')
  then show ?case using systemv_queue_open_Ret [of lc api q name fl e s] by auto
next
  case (9 q b k s q' b' e' s')
  then show ?case
    by (auto simp: systemv_queue_receive_def set_error_defs elim!: andthenE
        split: prod.splits sysret.splits option.splits dest: error_set_stores)
next
  case (10 q b k e s n q' b' e' s')
  then show ?case
    by (auto simp: systemv_queue_receive_def elim!: andthenE split: prod.splits sysret.splits option.splits)
next
  case (11 q msg k s q' e' s')
  then show ?case
    by (auto simp: systemv_queue_send_def set_error_defs Let_def reports_def elim!: andthenE
        split: prod.splits sysret.splits option.splits if_splits dest!: error_set_reports)
next
  case (12 q msg k e s q' e' s')
  then show ?case
    by (auto simp: systemv_queue_send_def Let_def elim!: andthenE
        split: prod.splits sysret.splits option.splits if_splits)
next
  case (13 q b k e s n q' b' e' s')
  then show ?case
    by (auto simp: systemv_queue_receive_def strcpy_def elim!: andthenE
        split: prod.splits sysret.splits option.splits dest!: length_write_at)
qed


section \<open>The system\<close>

text \<open>
  What is documented of the calls, for a system that has the resources and grants the permissions,
  as changes of an abstract state that \<open>obs\<close> reads off the world: the files with their serial
  numbers and the identifier stored in them, the open streams, the queues behind the keys, and
  the capacity and the waiting messages, oldest first, of each queue.  The key that \<open>ftok\<close> makes
  depends on the file and the identifier only.
\<close>

record sv_state =
  sv_files :: "string \<Rightarrow> (nat \<times> cint option) option"
  sv_streams :: "int \<Rightarrow> string option"
  sv_keys :: "int \<Rightarrow> int option"
  sv_msgs :: "int \<Rightarrow> (ulong \<times> (int \<times> char list) list) option"

definition sv_create_law :: "'w sysv_api \<Rightarrow> ('w \<Rightarrow> sv_state) \<Rightarrow> bool" where
  "sv_create_law api obs \<longleftrightarrow>
     (\<forall>w path. sv_files (obs w) path = None \<longrightarrow>
        (\<exists>fp ino w'. fopen api path ''wx'' w = (Ok fp, w') \<and>
          obs w' = (obs w)\<lparr>sv_files := (sv_files (obs w))(path \<mapsto> (ino, None)),
            sv_streams := (sv_streams (obs w))(fp \<mapsto> path)\<rparr>)) \<and>
     (\<forall>w fp path ino c ident. sv_streams (obs w) fp = Some path \<and> sv_files (obs w) path = Some (ino, c) \<longrightarrow>
        (\<exists>w'. fwrite_int api fp ident w = (Ok (), w') \<and>
          obs w' = (obs w)\<lparr>sv_files := (sv_files (obs w))(path \<mapsto> (ino, Some ident))\<rparr>))"

definition sv_read_law :: "'w sysv_api \<Rightarrow> ('w \<Rightarrow> sv_state) \<Rightarrow> bool" where
  "sv_read_law api obs \<longleftrightarrow>
     (\<forall>w path. sv_files (obs w) path \<noteq> None \<longrightarrow>
        (\<exists>fp w'. fopen api path ''r'' w = (Ok fp, w') \<and>
          obs w' = (obs w)\<lparr>sv_streams := (sv_streams (obs w))(fp \<mapsto> path)\<rparr>)) \<and>
     (\<forall>w fp path ino ident. sv_streams (obs w) fp = Some path \<and> sv_files (obs w) path = Some (ino, Some ident) \<longrightarrow>
        (\<exists>w'. fread_int api fp w = (Ok ident, w') \<and> obs w' = obs w))"

definition sv_close_law :: "'w sysv_api \<Rightarrow> ('w \<Rightarrow> sv_state) \<Rightarrow> bool" where
  "sv_close_law api obs \<longleftrightarrow>
     (\<forall>w fp. obs (snd (fflush api fp w)) = obs w) \<and>
     (\<forall>w fp. obs (snd (fclose api fp w)) = (obs w)\<lparr>sv_streams := (sv_streams (obs w))(fp := None)\<rparr>)"

definition sv_queue_law :: "'w sysv_api \<Rightarrow> (nat \<Rightarrow> cint \<Rightarrow> int) \<Rightarrow> ('w \<Rightarrow> sv_state) \<Rightarrow> bool" where
  "sv_queue_law api key obs \<longleftrightarrow>
     (\<forall>w path ino c ident. sv_files (obs w) path = Some (ino, c) \<longrightarrow> ftok api path ident w = Some (key ino ident)) \<and>
     (\<forall>w k. sv_keys (obs w) k = None \<longrightarrow>
        (\<exists>d qbytes w'. msgget api k (432 OR ipc_creat api OR ipc_excl api) w = (Ok d, w') \<and> d \<noteq> - 1 \<and>
          unat qbytes + 8 < 2 ^ 64 \<and> sv_msgs (obs w) d = None \<and>
          obs w' = (obs w)\<lparr>sv_keys := (sv_keys (obs w))(k \<mapsto> d), sv_msgs := (sv_msgs (obs w))(d \<mapsto> (qbytes, []))\<rparr>)) \<and>
     (\<forall>w k d. sv_keys (obs w) k = Some d \<longrightarrow> (\<exists>w'. msgget api k 432 w = (Ok d, w') \<and> obs w' = obs w)) \<and>
     (\<forall>w d qbytes ms. sv_msgs (obs w) d = Some (qbytes, ms) \<longrightarrow>
        (\<exists>w'. msg_stat api d w = (Ok qbytes, w') \<and> obs w' = obs w))"

definition sv_msg_law :: "'w sysv_api \<Rightarrow> ('w \<Rightarrow> sv_state) \<Rightarrow> bool" where
  "sv_msg_law api obs \<longleftrightarrow>
     (\<forall>w d qbytes ms ty m. sv_msgs (obs w) d = Some (qbytes, ms) \<and> 0 < ty \<and>
        sum_list (map (length \<circ> snd) ms) + length m \<le> unat qbytes \<longrightarrow>
        (\<exists>w'. msgsnd api d ty m w = (Ok (), w') \<and>
          obs w' = (obs w)\<lparr>sv_msgs := (sv_msgs (obs w))(d \<mapsto> (qbytes, ms @ [(ty, m)]))\<rparr>)) \<and>
     (\<forall>w d qbytes ms ty m sz. sv_msgs (obs w) d = Some (qbytes, (ty, m) # ms) \<and> length m \<le> sz \<longrightarrow>
        (\<exists>w'. msgrcv api d sz w = (Ok (ty, m), w') \<and>
          obs w' = (obs w)\<lparr>sv_msgs := (sv_msgs (obs w))(d \<mapsto> (qbytes, ms))\<rparr>))"

definition sv_heap_law :: "'w libc \<Rightarrow> ('w \<Rightarrow> sv_state) \<Rightarrow> bool" where
  "sv_heap_law lc obs \<longleftrightarrow> (\<forall>n w. obs (snd (malloc lc n w)) = obs w)"

definition sv_system ::
  "'w libc \<Rightarrow> 'w sysv_api \<Rightarrow> (nat \<Rightarrow> cint \<Rightarrow> int) \<Rightarrow> ('w \<Rightarrow> sv_state) \<Rightarrow> bool" where
  "sv_system lc api key obs \<longleftrightarrow>
     sv_create_law api obs \<and> sv_read_law api obs \<and> sv_close_law api obs \<and> sv_queue_law api key obs \<and>
     sv_msg_law api obs \<and> sv_heap_law lc obs"

text \<open>The owner removes the queue, with its key, and the file.\<close>

definition sv_remove_law :: "'w sysv_api \<Rightarrow> ('w \<Rightarrow> sv_state) \<Rightarrow> bool" where
  "sv_remove_law api obs \<longleftrightarrow>
     (\<forall>w d. sv_msgs (obs w) d \<noteq> None \<longrightarrow>
        (\<exists>w'. msg_rmid api d w = (Ok (), w') \<and>
          obs w' = (obs w)\<lparr>sv_keys := (\<lambda>k. if sv_keys (obs w) k = Some d then None else sv_keys (obs w) k),
            sv_msgs := (sv_msgs (obs w))(d := None)\<rparr>)) \<and>
     (\<forall>w path. sv_files (obs w) path \<noteq> None \<longrightarrow>
        (\<exists>w'. unlink api path w = (Ok (), w') \<and> obs w' = (obs w)\<lparr>sv_files := (sv_files (obs w))(path := None)\<rparr>))"

text \<open>The capacity of a new queue is a limit of the system (\<open>MSGMNB\<close>).\<close>

definition sv_capacity_law :: "'w sysv_api \<Rightarrow> ('w \<Rightarrow> sv_state) \<Rightarrow> ulong \<Rightarrow> bool" where
  "sv_capacity_law api obs qbytes \<longleftrightarrow>
     (\<forall>k w d w'. msgget api k (432 OR ipc_creat api OR ipc_excl api) w = (Ok d, w') \<longrightarrow> sv_msgs (obs w') d = Some (qbytes, []))"

text \<open>A sample system: the queues are a table that grows.\<close>

record sample_system =
  ss_files :: "string \<Rightarrow> (nat \<times> cint option) option"
  ss_streams :: "int \<Rightarrow> string option"
  ss_keys :: "int \<Rightarrow> int option"
  ss_table :: "(ulong \<times> (int \<times> char list) list) option list"
  ss_next :: nat

definition ss_msgs :: "sample_system \<Rightarrow> int \<Rightarrow> (ulong \<times> (int \<times> char list) list) option" where
  "ss_msgs w d = (if 0 \<le> d \<and> nat d < length (ss_table w) then ss_table w ! nat d else None)"

definition ss_obs :: "sample_system \<Rightarrow> sv_state" where
  "ss_obs w = \<lparr>sv_files = ss_files w, sv_streams = ss_streams w, sv_keys = ss_keys w, sv_msgs = ss_msgs w\<rparr>"

definition sample_key :: "nat \<Rightarrow> cint \<Rightarrow> int" where
  "sample_key ino ident = 256 * int ino + uint (ident AND 255)"

definition ss_fopen :: "string \<Rightarrow> string \<Rightarrow> sample_system \<Rightarrow> int sysret \<times> sample_system" where
  "ss_fopen path mode w =
     (let fp = int (ss_next w); w' = w\<lparr>ss_next := Suc (ss_next w), ss_streams := (ss_streams w)(fp \<mapsto> path)\<rparr> in
      case ss_files w path of
        None \<Rightarrow>
          if mode = ''wx'' then (Ok fp, w'\<lparr>ss_files := (ss_files w)(path \<mapsto> (ss_next w, None))\<rparr>) else (Err 2, w)
      | Some f \<Rightarrow> if mode = ''wx'' then (Err 17, w) else (Ok fp, w'))"

definition ss_fwrite :: "int \<Rightarrow> cint \<Rightarrow> sample_system \<Rightarrow> unit sysret \<times> sample_system" where
  "ss_fwrite fp ident w =
     (case Option.bind (ss_streams w fp) (\<lambda>path. map_option (Pair path) (ss_files w path)) of
        None \<Rightarrow> (Err 9, w)
      | Some (path, ino, c) \<Rightarrow> (Ok (), w\<lparr>ss_files := (ss_files w)(path \<mapsto> (ino, Some ident))\<rparr>))"

definition ss_fread :: "int \<Rightarrow> sample_system \<Rightarrow> cint sysret \<times> sample_system" where
  "ss_fread fp w =
     (case Option.bind (Option.bind (ss_streams w fp) (ss_files w)) snd of
        None \<Rightarrow> (Err 0, w) | Some ident \<Rightarrow> (Ok ident, w))"

definition ss_msgget :: "int \<Rightarrow> cint \<Rightarrow> sample_system \<Rightarrow> int sysret \<times> sample_system" where
  "ss_msgget k fl w =
     (case ss_keys w k of
        Some d \<Rightarrow> if fl = 432 then (Ok d, w) else (Err 17, w)
      | None \<Rightarrow>
          if fl = 432 then (Err 2, w)
          else (Ok (int (length (ss_table w))),
            w\<lparr>ss_keys := (ss_keys w)(k \<mapsto> int (length (ss_table w))), ss_table := ss_table w @ [Some (2048, [])]\<rparr>))"

definition ss_msgrcv :: "int \<Rightarrow> nat \<Rightarrow> sample_system \<Rightarrow> (int \<times> char list) sysret \<times> sample_system" where
  "ss_msgrcv d sz w =
     (case ss_msgs w d of
        Some (qb, (ty, m) # ms) \<Rightarrow>
          if length m \<le> sz then (Ok (ty, m), w\<lparr>ss_table := (ss_table w)[nat d := Some (qb, ms)]\<rparr>) else (Err 7, w)
      | _ \<Rightarrow> (Err 22, w))"

definition ss_msgsnd :: "int \<Rightarrow> int \<Rightarrow> char list \<Rightarrow> sample_system \<Rightarrow> unit sysret \<times> sample_system" where
  "ss_msgsnd d ty m w =
     (case ss_msgs w d of
        Some (qb, ms) \<Rightarrow>
          if sum_list (map (length \<circ> snd) ms) + length m \<le> unat qb
          then (Ok (), w\<lparr>ss_table := (ss_table w)[nat d := Some (qb, ms @ [(ty, m)])]\<rparr>) else (Err 11, w)
      | None \<Rightarrow> (Err 22, w))"

definition ss_msg_rmid :: "int \<Rightarrow> sample_system \<Rightarrow> unit sysret \<times> sample_system" where
  "ss_msg_rmid d w =
     (if ss_msgs w d = None then (Err 22, w)
      else (Ok (), w\<lparr>ss_keys := (\<lambda>k. if ss_keys w k = Some d then None else ss_keys w k), ss_table := (ss_table w)[nat d := None]\<rparr>))"

definition sample_sysv_api :: "sample_system sysv_api" where
  "sample_sysv_api =
     \<lparr>maxpathlen = 16, char_signed = True, sizeof_systemv_queue = 32,
      stack_bytes = (\<lambda>w i. if i = 15 then NUL else CHR ''x''), stack_int = (\<lambda>w. 7), heap_bytes = (\<lambda>w i. CHR ''y''),
      ipc_creat = 512, ipc_excl = 1024, fopen = ss_fopen, fwrite_int = ss_fwrite, fread_int = ss_fread,
      fflush = (\<lambda>fp w. (Ok (), w)), fclose = (\<lambda>fp w. (Ok (), w\<lparr>ss_streams := (ss_streams w)(fp := None)\<rparr>)),
      ftok = (\<lambda>path ident w. map_option (\<lambda>(ino, c). sample_key ino ident) (ss_files w path)),
      msgget = ss_msgget,
      msg_stat = (\<lambda>d w. case ss_msgs w d of None \<Rightarrow> (Err 22, w) | Some (qb, ms) \<Rightarrow> (Ok qb, w)),
      msg_rmid = ss_msg_rmid, msgrcv = ss_msgrcv, msgsnd = ss_msgsnd,
      unlink = (\<lambda>path w. (Ok (), w\<lparr>ss_files := (ss_files w)(path := None)\<rparr>))\<rparr>"

lemma ss_msgs_update:
  "ss_msgs w d \<noteq> None \<Longrightarrow> ss_msgs (w\<lparr>ss_table := (ss_table w)[nat d := x]\<rparr>) = (ss_msgs w)(d := x)"
  by (auto simp: ss_msgs_def fun_eq_iff nth_list_update split: if_splits)

lemma ss_msgs_add:
  "ss_msgs (w\<lparr>ss_keys := f, ss_table := ss_table w @ [x]\<rparr>) = (ss_msgs w)(int (length (ss_table w)) := x)"
  by (auto simp: ss_msgs_def fun_eq_iff nth_append split: if_splits)

lemma ss_msgs_other [simp]:
  "ss_msgs (w\<lparr>ss_files := f\<rparr>) = ss_msgs w" "ss_msgs (w\<lparr>ss_streams := g\<rparr>) = ss_msgs w"
  "ss_msgs (w\<lparr>ss_next := n\<rparr>) = ss_msgs w"
  by (simp_all add: ss_msgs_def fun_eq_iff)

lemma ss_obs_simps [simp]:
  "sv_files (ss_obs w) = ss_files w" "sv_streams (ss_obs w) = ss_streams w" "sv_keys (ss_obs w) = ss_keys w"
  "sv_msgs (ss_obs w) = ss_msgs w"
  by (simp_all add: ss_obs_def)

lemma sample_system_law: "sv_system sample_libc sample_sysv_api sample_key ss_obs"
proof -
  have "sv_create_law sample_sysv_api ss_obs"
    by (auto simp: sv_create_law_def sample_sysv_api_def ss_fopen_def ss_fwrite_def Let_def ss_obs_def)
  moreover have "sv_read_law sample_sysv_api ss_obs"
    by (auto simp: sv_read_law_def sample_sysv_api_def ss_fopen_def ss_fread_def Let_def ss_obs_def)
  moreover have "sv_close_law sample_sysv_api ss_obs"
    by (auto simp: sv_close_law_def sample_sysv_api_def ss_obs_def)
  moreover have "sv_queue_law sample_sysv_api sample_key ss_obs"
    using ss_msgs_add
    by (auto simp: sv_queue_law_def sample_sysv_api_def ss_msgget_def)
      (auto simp: ss_obs_def ss_msgs_def intro!: exI [of _ "2048 :: ulong"])
  moreover have "sv_msg_law sample_sysv_api ss_obs"
    using ss_msgs_update
    by (auto simp: sv_msg_law_def sample_sysv_api_def ss_msgsnd_def ss_msgrcv_def ss_obs_def)
  moreover have "sv_heap_law sample_libc ss_obs" by (simp add: sv_heap_law_def sample_libc_def)
  ultimately show ?thesis by (simp add: sv_system_def)
qed


section \<open>Lemmas under the system laws\<close>

lemma sv_laws:
  assumes "sv_system lc api key obs"
  shows "sv_create_law api obs" "sv_read_law api obs" "sv_close_law api obs" "sv_queue_law api key obs"
    "sv_msg_law api obs" "sv_heap_law lc obs"
  using assms by (simp_all add: sv_system_def)

lemma length_fresh_filename [simp]: "length (fresh_filename api s) = maxpathlen api"
  by (simp add: fresh_filename_def)

lemma systemv_copy_name_fits:
  assumes "NUL \<notin> set name" and "length name < maxpathlen api"
  shows "\<exists>arr. systemv_copy_name lc api name e s = Ret (Some arr, e, s) \<and> c_str arr = Ret name"
proof -
  have "c_str (take (maxpathlen api - 1) name @ NUL # rest) = Ret name" for rest
    using c_str_append_NUL [OF assms(1)] assms(2) by (simp add: take_all)
  then show ?thesis
    using strlcpy_eq [OF assms(1), of "maxpathlen api" "fresh_filename api s" "[]"] assms(2)
    by (auto simp: systemv_copy_name_def)
qed

text \<open>The owner's file: created, with the default identifier.\<close>

lemma systemv_owner_file_creates:
  assumes laws: "sv_create_law api obs" "sv_close_law api obs"
    and name: "NUL \<notin> set name" "CHR '':'' \<notin> set name" "length name < maxpathlen api"
    and new: "sv_files (obs (world s)) name = None"
  shows "\<exists>ino streams w n. systemv_owner_file lc api name e s = Ret (Some (98, name), e, s\<lparr>errno := n, world := w\<rparr>) \<and>
    obs w = (obs (world s))\<lparr>sv_files := (sv_files (obs (world s)))(name \<mapsto> (ino, Some 98)), sv_streams := streams\<rparr>"
proof -
  have b: "int_of_plain_char (char_signed api) CHR ''b'' = 98"
    by (simp add: int_of_plain_char_def)
  obtain arr where path: "systemv_owner_path lc api name e s = Ret (Some (98, arr), e, s)" "c_str arr = Ret name"
    using systemv_copy_name_fits [OF name(1,3), of lc e s] b strchr_absent [OF name(2)]
    by (auto simp: systemv_owner_path_def)
  let ?o = "obs (world s)"
  obtain fp ino w1 where w1: "fopen api name ''wx'' (world s) = (Ok fp, w1)"
    "obs w1 = ?o\<lparr>sv_files := (sv_files ?o)(name \<mapsto> (ino, None)), sv_streams := (sv_streams ?o)(fp \<mapsto> name)\<rparr>"
    using laws(1) new unfolding sv_create_law_def by blast
  then have "sv_streams (obs w1) fp = Some name" "sv_files (obs w1) name = Some (ino, None)" by simp_all
  then obtain w2 where w2: "fwrite_int api fp 98 w1 = (Ok (), w2)"
    "obs w2 = (obs w1)\<lparr>sv_files := (sv_files (obs w1))(name \<mapsto> (ino, Some 98))\<rparr>"
    using laws(1) unfolding sv_create_law_def by blast
  obtain w3 n3 where w3: "snd (syscall (fflush api fp) (s\<lparr>world := w2\<rparr>)) = s\<lparr>errno := n3, world := w3\<rparr>" "obs w3 = obs w2"
    using laws(2) syscall_snd [of "fflush api fp" "s\<lparr>world := w2\<rparr>"] unfolding sv_close_law_def by fastforce
  obtain w4 n4 where w4: "snd (syscall (fclose api fp) (s\<lparr>errno := n3, world := w3\<rparr>)) = s\<lparr>errno := n4, world := w4\<rparr>"
    "obs w4 = (obs w3)\<lparr>sv_streams := (sv_streams (obs w3))(fp := None)\<rparr>"
    using laws(2) syscall_snd [of "fclose api fp" "s\<lparr>errno := n3, world := w3\<rparr>"] unfolding sv_close_law_def by fastforce
  have "syscall (fopen api name ''wx'') s = (Ok fp, s\<lparr>world := w1\<rparr>)"
    "syscall (fwrite_int api fp 98) (s\<lparr>world := w1\<rparr>) = (Ok (), s\<lparr>world := w2\<rparr>)"
    using w1(1) w2(1) by (simp_all add: syscall_def)
  then have "systemv_owner_file lc api name e s = Ret (Some (98, name), e, s\<lparr>errno := n4, world := w4\<rparr>)"
    using path w3(1) w4(1) by (simp add: systemv_owner_file_def Let_def)
  then show ?thesis using w1(2) w2(2) w3(2) w4(2) by auto
qed


text \<open>Another process finds the file and reads the identifier back.\<close>

lemma systemv_other_file_finds:
  assumes laws: "sv_read_law api obs" "sv_close_law api obs"
    and name: "NUL \<notin> set name" "length name < maxpathlen api"
    and old: "sv_files (obs (world s)) name = Some (ino, Some ident)"
  shows "\<exists>streams w n. systemv_other_file lc api name e s = Ret (Some (ident, name), e, s\<lparr>errno := n, world := w\<rparr>) \<and>
    obs w = (obs (world s))\<lparr>sv_streams := streams\<rparr>"
proof -
  let ?o = "obs (world s)"
  obtain arr where path: "systemv_copy_name lc api name e s = Ret (Some arr, e, s)" "c_str arr = Ret name"
    using systemv_copy_name_fits [OF name, of lc e s] by auto
  obtain fp w1 where w1: "fopen api name ''r'' (world s) = (Ok fp, w1)"
    "obs w1 = ?o\<lparr>sv_streams := (sv_streams ?o)(fp \<mapsto> name)\<rparr>"
    using laws(1) old unfolding sv_read_law_def by blast
  then have "sv_streams (obs w1) fp = Some name" "sv_files (obs w1) name = Some (ino, Some ident)" using old by simp_all
  then obtain w2 where w2: "fread_int api fp w1 = (Ok ident, w2)" "obs w2 = obs w1"
    using laws(1) unfolding sv_read_law_def by blast
  obtain w3 n3 where w3: "snd (syscall (fclose api fp) (s\<lparr>world := w2\<rparr>)) = s\<lparr>errno := n3, world := w3\<rparr>"
    "obs w3 = (obs w2)\<lparr>sv_streams := (sv_streams (obs w2))(fp := None)\<rparr>"
    using laws(2) syscall_snd [of "fclose api fp" "s\<lparr>world := w2\<rparr>"] unfolding sv_close_law_def by fastforce
  have "syscall (fopen api name ''r'') s = (Ok fp, s\<lparr>world := w1\<rparr>)"
    "syscall (fread_int api fp) (s\<lparr>world := w1\<rparr>) = (Ok ident, s\<lparr>world := w2\<rparr>)"
    using w1(1) w2(1) by (simp_all add: syscall_def)
  then have "systemv_other_file lc api name e s = Ret (Some (ident, name), e, s\<lparr>errno := n3, world := w3\<rparr>)"
    using path w3(1) by (simp add: systemv_other_file_def Let_def)
  then show ?thesis using w1(2) w2(2) w3(2) by auto
qed

text \<open>The size of the allocation does not wrap around for the capacities of real systems.\<close>

lemma buffer_bytes:
  fixes qbytes :: ulong
  assumes "unat qbytes + 8 < 2 ^ 64"
  shows "unat (8 + 8 * (qbytes div 8)) = 8 + 8 * (unat qbytes div 8)"
proof -
  have "unat (8 * (qbytes div 8)) = 8 * (unat qbytes div 8)"
    using assms by (simp add: unat_word_ariths unat_div)
  then show ?thesis using assms by (simp add: unat_word_ariths)
qed

definition sv_buffer_wf :: "systemv_queue \<Rightarrow> bool" where
  "sv_buffer_wf q \<longleftrightarrow>
     (case sv_buffer q of None \<Rightarrow> False | Some b \<Rightarrow> mtype b = 1 \<and> length (mtext b) = 8 * unat (sv_buffer_size q))"

lemma systemv_alloc_buffer_ok:
  assumes "sv_queue_law api key obs" and "sv_heap_law lc obs" and "allocates lc"
    and "sv_msgs (obs (world s)) (qid q) = Some (qbytes, ms)" and "unat qbytes + 8 < 2 ^ 64"
  shows "\<exists>b w. systemv_alloc_buffer lc api q e s =
      Ret (True, q\<lparr>sv_buffer_size := qbytes div 8, sv_buffer := Some b\<rparr>, e, s\<lparr>world := w\<rparr>) \<and> obs w = obs (world s) \<and>
      sv_buffer_wf (q\<lparr>sv_buffer_size := qbytes div 8, sv_buffer := Some b\<rparr>)"
proof -
  obtain w1 where w1: "msg_stat api (qid q) (world s) = (Ok qbytes, w1)" "obs w1 = obs (world s)"
    using assms(1,4) unfolding sv_queue_law_def by blast
  let ?n = "8 + 8 * (unat qbytes div 8)"
  obtain w2 where w2: "malloc lc ?n w1 = (True, w2)" "alloc lc ?n (s\<lparr>world := w1\<rparr>) = (True, s\<lparr>world := w2\<rparr>)"
    using allocatesD [OF assms(3), of ?n "s\<lparr>world := w1\<rparr>"] by auto
  then have "obs w2 = obs w1" using assms(2) unfolding sv_heap_law_def by (metis snd_conv)
  with w1 w2 show ?thesis
    by (intro exI [of _ "\<lparr>mtype = 1, mtext = map (heap_bytes api w2) [0..<?n - 8]\<rparr>"] exI [of _ w2])
      (simp add: systemv_alloc_buffer_def syscall_def buffer_bytes [OF assms(5)] sv_buffer_wf_def unat_div)
qed

text \<open>What an opened queue is.\<close>

definition sv_opened :: "('w \<Rightarrow> sv_state) \<Rightarrow> 'w \<Rightarrow> int \<Rightarrow> systemv_queue \<Rightarrow> bool" where
  "sv_opened obs w d q \<longleftrightarrow>
     qid q = d \<and> sv_buffer_wf q \<and> (\<exists>qbytes ms. sv_msgs (obs w) d = Some (qbytes, ms) \<and> sv_buffer_size q = qbytes div 8)"

lemma systemv_open_owner:
  assumes sys: "sv_system lc api key obs" and "allocates lc"
    and name: "NUL \<notin> set name" "CHR '':'' \<notin> set name" "length name < maxpathlen api"
    and new: "sv_files (obs (world s)) name = None" "\<And>ino. sv_keys (obs (world s)) (key ino 98) = None"
  shows "\<exists>d ino q' w n qbytes. systemv_queue_open lc api q name QUEUE_FL_OWNER e s = Ret (True, q', e, s\<lparr>errno := n, world := w\<rparr>) \<and>
    sv_opened obs w d q' \<and> sv_filename q' = Some name \<and> sv_files (obs w) name = Some (ino, Some 98) \<and>
    sv_keys (obs w) (key ino 98) = Some d \<and> sv_msgs (obs w) d = Some (qbytes, []) \<and> unat qbytes + 8 < 2 ^ 64 \<and> d \<noteq> - 1 \<and>
    (\<exists>k w2 w3. msgget api k (432 OR ipc_creat api OR ipc_excl api) w2 = (Ok d, w3) \<and> sv_msgs (obs w3) d = Some (qbytes, []))"
proof -
  let ?o = "obs (world s)"
  obtain ino st w1 n1 where f: "systemv_owner_file lc api name e s = Ret (Some (98, name), e, s\<lparr>errno := n1, world := w1\<rparr>)"
    "obs w1 = ?o\<lparr>sv_files := (sv_files ?o)(name \<mapsto> (ino, Some 98)), sv_streams := st\<rparr>"
    using systemv_owner_file_creates [OF sv_laws(1,3) [OF sys] name new(1), of lc e] by auto
  let ?s1 = "s\<lparr>errno := n1, world := w1\<rparr>"
  have "sv_files (obs w1) name = Some (ino, Some 98)" using f(2) by simp
  then have ft: "ftok api name 98 w1 = Some (key ino 98)"
    using sv_laws(4) [OF sys] unfolding sv_queue_law_def by blast
  obtain w2 where al: "malloc lc (length name + 1) w1 = (True, w2)" "alloc lc (length name + 1) ?s1 = (True, ?s1\<lparr>world := w2\<rparr>)"
    using allocatesD [OF assms(2), of "length name + 1" ?s1] by auto
  then have o2: "obs w2 = obs w1" using sv_laws(6) [OF sys] unfolding sv_heap_law_def by (metis snd_conv)
  then have "sv_keys (obs w2) (key ino 98) = None" using f(2) new(2) by simp
  then obtain d qbytes w3 where w3: "msgget api (key ino 98) (432 OR ipc_creat api OR ipc_excl api) w2 = (Ok d, w3)"
    "d \<noteq> - 1" "unat qbytes + 8 < 2 ^ 64"
    "obs w3 = (obs w2)\<lparr>sv_keys := (sv_keys (obs w2))(key ino 98 \<mapsto> d), sv_msgs := (sv_msgs (obs w2))(d \<mapsto> (qbytes, []))\<rparr>"
    using sv_laws(4) [OF sys] unfolding sv_queue_law_def by blast
  let ?q = "q\<lparr>sv_filename := Some name, qid := d\<rparr>"
  let ?s3 = "s\<lparr>errno := n1, world := w3\<rparr>"
  have m3: "sv_msgs (obs (world ?s3)) (qid ?q) = Some (qbytes, [])" using w3(4) by simp
  obtain b w4 where w4: "systemv_alloc_buffer lc api ?q e ?s3 =
      Ret (True, ?q\<lparr>sv_buffer_size := qbytes div 8, sv_buffer := Some b\<rparr>, e, ?s3\<lparr>world := w4\<rparr>)" "obs w4 = obs w3"
    "sv_buffer_wf (?q\<lparr>sv_buffer_size := qbytes div 8, sv_buffer := Some b\<rparr>)"
    using systemv_alloc_buffer_ok [OF sv_laws(4,6) [OF sys] assms(2) m3 w3(3), of e] by auto
  have "systemv_queue_open lc api q name QUEUE_FL_OWNER e s =
      Ret (True, ?q\<lparr>sv_buffer_size := qbytes div 8, sv_buffer := Some b\<rparr>, e, s\<lparr>errno := n1, world := w4\<rparr>)"
    using f(1) ft al(2) w3(1) w4(1)
    by (simp add: systemv_queue_open_def systemv_open_msgget_def set_umask_def syscall_def)
  moreover have "sv_opened obs w4 d (?q\<lparr>sv_buffer_size := qbytes div 8, sv_buffer := Some b\<rparr>)"
    using w4(2,3) m3 by (simp add: sv_opened_def)
  moreover have "\<exists>k w2 w3. msgget api k (432 OR ipc_creat api OR ipc_excl api) w2 = (Ok d, w3) \<and> sv_msgs (obs w3) d = Some (qbytes, [])"
    using w3(1,4) by fastforce
  ultimately show ?thesis using w4(2) w3(2-4) o2 f(2)
    by (intro exI [of _ d] exI [of _ ino] exI [of _ w4] exI [of _ n1] exI [of _ qbytes]
        exI [of _ "?q\<lparr>sv_buffer_size := qbytes div 8, sv_buffer := Some b\<rparr>"]) simp
qed


lemma systemv_open_sender:
  assumes sys: "sv_system lc api key obs" and "allocates lc"
    and name: "NUL \<notin> set name" "length name < maxpathlen api"
    and old: "sv_files (obs (world s)) name = Some (ino, Some ident)" "sv_keys (obs (world s)) (key ino ident) = Some d"
      "sv_msgs (obs (world s)) d = Some (qbytes, ms)" "unat qbytes + 8 < 2 ^ 64"
  shows "\<exists>q' w n streams. systemv_queue_open lc api q name QUEUE_FL_SENDER e s = Ret (True, q', e, s\<lparr>errno := n, world := w\<rparr>) \<and>
    sv_opened obs w d q' \<and> sv_filename q' = sv_filename q \<and> obs w = (obs (world s))\<lparr>sv_streams := streams\<rparr>"
proof -
  obtain st w1 n1 where f: "systemv_other_file lc api name e s = Ret (Some (ident, name), e, s\<lparr>errno := n1, world := w1\<rparr>)"
    "obs w1 = (obs (world s))\<lparr>sv_streams := st\<rparr>"
    using systemv_other_file_finds [OF sv_laws(2,3) [OF sys] name old(1), of lc e] by auto
  have "sv_files (obs w1) name = Some (ino, Some ident)" "sv_keys (obs w1) (key ino ident) = Some d" using f(2) old by simp_all
  then obtain w2 where w2: "ftok api name ident w1 = Some (key ino ident)" "msgget api (key ino ident) 432 w1 = (Ok d, w2)"
    "obs w2 = obs w1"
    using sv_laws(4) [OF sys] unfolding sv_queue_law_def by blast
  let ?q = "q\<lparr>qid := d\<rparr>" and ?s2 = "s\<lparr>errno := n1, world := w2\<rparr>"
  have m2: "sv_msgs (obs (world ?s2)) (qid ?q) = Some (qbytes, ms)" using w2(3) f(2) old by simp
  obtain b w3 where w3: "systemv_alloc_buffer lc api ?q e ?s2 =
      Ret (True, ?q\<lparr>sv_buffer_size := qbytes div 8, sv_buffer := Some b\<rparr>, e, ?s2\<lparr>world := w3\<rparr>)" "obs w3 = obs w2"
    "sv_buffer_wf (?q\<lparr>sv_buffer_size := qbytes div 8, sv_buffer := Some b\<rparr>)"
    using systemv_alloc_buffer_ok [OF sv_laws(4,6) [OF sys] assms(2) m2 old(4), of e] by auto
  let ?q' = "?q\<lparr>sv_buffer_size := qbytes div 8, sv_buffer := Some b\<rparr>"
  have "systemv_queue_open lc api q name QUEUE_FL_SENDER e s = Ret (True, ?q', e, s\<lparr>errno := n1, world := w3\<rparr>)"
    using f(1) w2(1,2) w3(1) by (simp add: systemv_queue_open_def systemv_open_msgget_def syscall_def)
  moreover have "sv_opened obs w3 d ?q'" using w3(2,3) m2 by (simp add: sv_opened_def)
  ultimately show ?thesis using w3(2) w2(3) f(2)
    by (intro exI [of _ ?q'] exI [of _ w3] exI [of _ n1] exI [of _ st]) simp
qed

text \<open>\<open>queue_send\<close> appends the first \<open>buffer_size\<close> bytes of its buffer; \<open>queue_receive\<close> takes the head
  and reads a string from its own buffer.\<close>

lemma systemv_send_appends:
  assumes "sv_msg_law api obs" and "sv_buffer q = Some b" and "sv_buffer_wf q"
    and "sv_msgs (obs (world s)) (qid q) = Some (qbytes, ms)" and "length msg < length (mtext b)"
    and "sum_list (map (length \<circ> snd) ms) + unat (sv_buffer_size q) \<le> unat qbytes"
  shows "\<exists>q' w. systemv_queue_send lc api q msg n e s = Ret (True, q', e, s\<lparr>world := w\<rparr>) \<and>
    obs w = (obs (world s))\<lparr>sv_msgs := (sv_msgs (obs (world s)))(qid q \<mapsto> (qbytes, ms @
      [(1, take (unat (sv_buffer_size q)) (msg @ NUL # drop (Suc (length msg)) (mtext b)))]))\<rparr>"
proof -
  let ?cells = "msg @ NUL # drop (Suc (length msg)) (mtext b)"
  have b: "mtype b = 1" "length (mtext b) = 8 * unat (sv_buffer_size q)" using assms(2,3) by (simp_all add: sv_buffer_wf_def)
  have cells: "strcpy (mtext b) 0 msg = Ret ?cells" "length ?cells = length (mtext b)"
    using assms(5) by (simp_all add: strcpy_def write_at_def)
  let ?m = "take (unat (sv_buffer_size q)) ?cells"
  have "length ?m = unat (sv_buffer_size q)" using cells(2) b(2) by simp
  then have "sv_msgs (obs (world s)) (qid q) = Some (qbytes, ms) \<and> 0 < (1 :: int) \<and>
      sum_list (map (length \<circ> snd) ms) + length ?m \<le> unat qbytes" using assms(4,6) by simp
  then obtain w where "msgsnd api (qid q) 1 (take (unat (sv_buffer_size q)) ?cells) (world s) = (Ok (), w)"
    "obs w = (obs (world s))\<lparr>sv_msgs := (sv_msgs (obs (world s)))(qid q \<mapsto> (qbytes, ms @ [(1, take (unat (sv_buffer_size q)) ?cells)]))\<rparr>"
    using assms(1) unfolding sv_msg_law_def by blast
  then show ?thesis using assms(2) b cells by (auto simp: systemv_queue_send_def syscall_def)
qed

lemma systemv_receive_takes:
  assumes "sv_msg_law api obs" and "sv_buffer q = Some b" and "sv_msgs (obs (world s)) (qid q) = Some (qbytes, (ty, m) # ms)"
    and "length m \<le> sz" and "length m \<le> length (mtext b)" and "c_str (m @ drop (length m) (mtext b)) = Ret str"
    and "length str < length buffer"
  shows "\<exists>w. systemv_queue_receive lc api q buffer sz e s =
      Ret (int (length m), q\<lparr>sv_buffer := Some \<lparr>mtype = ty, mtext = m @ drop (length m) (mtext b)\<rparr>\<rparr>, str @ NUL # drop (Suc (length str)) buffer, e, s\<lparr>world := w\<rparr>) \<and>
    obs w = (obs (world s))\<lparr>sv_msgs := (sv_msgs (obs (world s)))(qid q \<mapsto> (qbytes, ms))\<rparr>"
proof -
  obtain w where "msgrcv api (qid q) sz (world s) = (Ok (ty, m), w)"
    "obs w = (obs (world s))\<lparr>sv_msgs := (sv_msgs (obs (world s)))(qid q \<mapsto> (qbytes, ms))\<rparr>"
    using assms(1,3,4) unfolding sv_msg_law_def by blast
  then show ?thesis using assms(2,5-7)
    by (auto simp: systemv_queue_receive_def syscall_def write_at_def strcpy_def)
qed

text \<open>The owner's close removes queue, key and file.\<close>

lemma systemv_close_owner:
  assumes "sv_remove_law api obs" and "sv_filename q = Some name" and "qid q \<noteq> - 1"
    and "sv_msgs (obs (world s)) (qid q) \<noteq> None" and "sv_files (obs (world s)) name \<noteq> None"
  shows "\<exists>w. systemv_queue_close lc api (Some q) e s = Ret (True, None, e, s\<lparr>world := w\<rparr>) \<and>
    obs w = (obs (world s))\<lparr>sv_files := (sv_files (obs (world s)))(name := None),
      sv_keys := (\<lambda>k. if sv_keys (obs (world s)) k = Some (qid q) then None else sv_keys (obs (world s)) k),
      sv_msgs := (sv_msgs (obs (world s)))(qid q := None)\<rparr>"
proof -
  let ?o = "obs (world s)"
  obtain w1 where w1: "msg_rmid api (qid q) (world s) = (Ok (), w1)"
    "obs w1 = ?o\<lparr>sv_keys := (\<lambda>k. if sv_keys ?o k = Some (qid q) then None else sv_keys ?o k), sv_msgs := (sv_msgs ?o)(qid q := None)\<rparr>"
    using assms(1,4) unfolding sv_remove_law_def by blast
  then have "sv_files (obs w1) name \<noteq> None" using assms(5) by simp
  then obtain w2 where "unlink api name w1 = (Ok (), w2)" "obs w2 = (obs w1)\<lparr>sv_files := (sv_files (obs w1))(name := None)\<rparr>"
    using assms(1) unfolding sv_remove_law_def by blast
  then show ?thesis using w1 assms(2,3) by (intro exI [of _ w2]) (simp add: systemv_queue_close_def syscall_def)
qed

text \<open>A System V queue is a channel for the messages that \<open>queue_send\<close> sends: they contain a null character, and
  their \<open>blk\<close> bytes fit both buffers of the receiver.  \<open>fixed\<close> is what no receive changes: the files, the keys, the name of
  the file that an owner removes and the size of the buffer of the caller.\<close>

definition systemv_waiting ::
  "int \<Rightarrow> ulong \<Rightarrow> nat \<Rightarrow> (string \<Rightarrow> (nat \<times> cint option) option) \<times> (int \<Rightarrow> int option) \<times> string option \<times> nat \<Rightarrow>
   sv_state \<Rightarrow> systemv_queue \<Rightarrow> nat \<Rightarrow> char list list \<Rightarrow> bool" where
  "systemv_waiting i qbytes blk fixed o2 q k ms \<longleftrightarrow>
     qid q = i \<and> fixed = (sv_files o2, sv_keys o2, sv_filename q, k) \<and> blk \<le> k \<and>
     (\<exists>b raw. sv_buffer q = Some b \<and> blk \<le> length (mtext b) \<and> sv_msgs o2 i = Some (qbytes, raw) \<and> map snd raw = ms \<and>
       list_all (\<lambda>m. NUL \<in> set m \<and> length m \<le> blk) ms)"

lemma length_message_text: "NUL \<in> set m \<Longrightarrow> length (message_text m) < length m"
  by (induction m) (auto simp: message_text_def)

interpretation systemv_channel: message_channel "systemv_ops lc api" "sv_msg_law api obs" obs "systemv_waiting i qbytes blk fixed"
  for lc api obs i qbytes blk fixed
proof (unfold_locales, goal_cases)
  case (1 s q k m ms b e)
  obtain c ty raw where a: "sv_buffer q = Some c" "sv_msgs (obs (world s)) (qid q) = Some (qbytes, (ty, m) # raw)" "map snd raw = ms"
    "list_all (\<lambda>m. NUL \<in> set m \<and> length m \<le> blk) (m # ms)" "blk \<le> length (mtext c)" "blk \<le> k" "qid q = i"
    "fixed = (sv_files (obs (world s)), sv_keys (obs (world s)), sv_filename q, k)"
    using 1(2) by (auto simp: systemv_waiting_def Cons_eq_map_conv)
  let ?q = "q\<lparr>sv_buffer := Some \<lparr>mtype = ty, mtext = m @ drop (length m) (mtext c)\<rparr>\<rparr>"
  have m: "NUL \<in> set m" "length m \<le> k" "length m \<le> length (mtext c)" "length (message_text m) < length b"
    using a(4-6) 1(3) length_message_text [of m] by auto
  obtain w where w: "systemv_queue_receive lc api q b k e s =
      Ret (int (length m), ?q, message_text m @ NUL # drop (Suc (length (message_text m))) b, e, s\<lparr>world := w\<rparr>)"
    "obs w = (obs (world s))\<lparr>sv_msgs := (sv_msgs (obs (world s)))(qid q \<mapsto> (qbytes, raw))\<rparr>"
    using systemv_receive_takes [OF 1(1) a(1,2) m(2,3) message_text_prefix [OF m(1)] m(4)] by blast
  moreover have "systemv_waiting i qbytes blk fixed (obs w) ?q k ms" using a(3-8) w(2) m(3) by (auto simp: systemv_waiting_def)
  moreover have "c_str (message_text m @ NUL # drop (Suc (length (message_text m))) b) = Ret (message_text m)"
    by (rule c_str_append_NUL [OF message_text_clean])
  ultimately show ?case using m(4) 1(3) by (intro exI conjI) (simp | assumption)+
qed

section \<open>Properties\<close>

text \<open>C18: the rendezvous.  The owner that opens a name without a colon creates the file and the queue;
  a sender that opens the same name afterwards reads the identifier back and reaches the same
  queue, and both have a buffer for its messages.\<close>

theorem systemv_rendezvous:
  assumes "sv_system lc api key obs" and "allocates lc"
    and "NUL \<notin> set name" and "CHR '':'' \<notin> set name" and "length name < maxpathlen api"
    and "sv_files (obs (world s)) name = None" and "\<And>ino. sv_keys (obs (world s)) (key ino 98) = None"
  shows "\<exists>owner' s1 sender' s2.
    systemv_queue_open lc api owner name QUEUE_FL_OWNER e s = Ret (True, owner', e, s1) \<and>
    systemv_queue_open lc api sender name QUEUE_FL_SENDER e s1 = Ret (True, sender', e, s2) \<and>
    qid sender' = qid owner' \<and> sv_msgs (obs (world s2)) (qid owner') \<noteq> None \<and>
    sv_buffer_size sender' = sv_buffer_size owner' \<and> sv_buffer_wf owner' \<and> sv_buffer_wf sender'"
proof -
  obtain d ino owner' w n qbytes where own: "systemv_queue_open lc api owner name QUEUE_FL_OWNER e s =
      Ret (True, owner', e, s\<lparr>errno := n, world := w\<rparr>)" "sv_opened obs w d owner'"
    "sv_files (obs w) name = Some (ino, Some 98)" "sv_keys (obs w) (key ino 98) = Some d"
    "sv_msgs (obs w) d = Some (qbytes, [])" "unat qbytes + 8 < 2 ^ 64"
    using systemv_open_owner [OF assms(1-6) assms(7), of owner e] by blast
  let ?s = "s\<lparr>errno := n, world := w\<rparr>"
  have "sv_files (obs (world ?s)) name = Some (ino, Some 98)" "sv_keys (obs (world ?s)) (key ino 98) = Some d"
    "sv_msgs (obs (world ?s)) d = Some (qbytes, [])" using own by simp_all
  from systemv_open_sender [OF assms(1-3,5) this own(6), of sender e]
  obtain sender' w2 n2 st where "systemv_queue_open lc api sender name QUEUE_FL_SENDER e ?s =
      Ret (True, sender', e, ?s\<lparr>errno := n2, world := w2\<rparr>)" "sv_opened obs w2 d sender'" "obs w2 = (obs w)\<lparr>sv_streams := st\<rparr>"
    by auto
  then show ?thesis using own(1,2,5) by (auto simp: sv_opened_def)
qed


definition sample_system0 :: sample_system where
  "sample_system0 = \<lparr>ss_files = (\<lambda>_. None), ss_streams = (\<lambda>_. None), ss_keys = (\<lambda>_. None), ss_table = [], ss_next = 0\<rparr>"

definition sample_svq :: systemv_queue where
  "sample_svq = \<lparr>qid = - 1, sv_buffer = None, sv_filename = None, sv_buffer_size = 0\<rparr>"

theorem systemv_rendezvous_witness:
  "\<exists>owner' s1 sender' s2.
    systemv_queue_open sample_libc sample_sysv_api sample_svq ''/tmp/banip'' QUEUE_FL_OWNER None
      (sample_proc sample_system0) = Ret (True, owner', None, s1) \<and>
    systemv_queue_open sample_libc sample_sysv_api sample_svq ''/tmp/banip'' QUEUE_FL_SENDER None s1 =
      Ret (True, sender', None, s2) \<and>
    qid sender' = qid owner' \<and> sv_msgs (ss_obs (world s2)) (qid owner') \<noteq> None \<and>
    sv_buffer_size sender' = sv_buffer_size owner' \<and> sv_buffer_wf owner' \<and> sv_buffer_wf sender'"
  by (rule systemv_rendezvous [OF sample_system_law])
    (simp_all add: allocates_def sample_libc_def sample_proc_def sample_system0_def sample_sysv_api_def)

text \<open>C19: what is sent is what is received, for a message shorter than \<open>buffer_size\<close> (an eighth of the
  capacity of the queue).  The result of the receive is not the length of the message but
  \<open>buffer_size\<close>, the number of bytes that every send transmits.\<close>

theorem systemv_send_receive:
  assumes "sv_system lc api key obs" and "sv_opened obs (world s) d sender" and "sv_opened obs (world s) d owner"
    and "sv_msgs (obs (world s)) d = Some (qbytes, [])" and "NUL \<notin> set msg"
    and "length msg < unat (sv_buffer_size sender)" and "unat qbytes \<le> sz" and "length msg < length buffer"
  shows "\<exists>sender' owner' w1 w2 buffer'.
    systemv_queue_send lc api sender msg n e s = Ret (True, sender', e, s\<lparr>world := w1\<rparr>) \<and>
    systemv_queue_receive lc api owner buffer sz e (s\<lparr>world := w1\<rparr>) =
      Ret (int (unat (sv_buffer_size sender)), owner', buffer', e, s\<lparr>world := w2\<rparr>) \<and>
    length buffer' = length buffer \<and> c_str buffer' = Ret msg \<and> obs w2 = obs (world s)"
proof -
  obtain b1 b2 where b: "sv_buffer sender = Some b1" "sv_buffer owner = Some b2" "qid sender = d" "qid owner = d"
    "sv_buffer_size sender = qbytes div 8" "sv_buffer_size owner = qbytes div 8" "sv_buffer_wf sender"
    "length (mtext b1) = 8 * (unat qbytes div 8)" "length (mtext b2) = 8 * (unat qbytes div 8)"
    using assms(2-4) by (auto simp: sv_opened_def sv_buffer_wf_def unat_div split: option.splits)
  let ?k = "unat (sv_buffer_size sender)"
  define m where "m = take ?k (msg @ NUL # drop (Suc (length msg)) (mtext b1))"
  have k: "?k = unat qbytes div 8" using b(5) by (simp add: unat_div)
  have lens: "length msg < length (mtext b1)" "?k \<le> unat qbytes" "length m = ?k" using assms(6) k b(8) by (simp_all add: m_def)
  obtain sender' w1 where w1: "systemv_queue_send lc api sender msg n e s = Ret (True, sender', e, s\<lparr>world := w1\<rparr>)"
    "obs w1 = (obs (world s))\<lparr>sv_msgs := (sv_msgs (obs (world s)))(d \<mapsto> (qbytes, [] @ [(1, m)]))\<rparr>"
    using systemv_send_appends [OF sv_laws(5) [OF assms(1)] b(1,7), of s qbytes "[]" msg lc n e] assms(4) b(3) lens
    by (auto simp: m_def)
  have "m = msg @ NUL # take (?k - Suc (length msg)) (drop (Suc (length msg)) (mtext b1))"
    using assms(6) by (simp add: m_def take_Cons')
  then have "c_str (m @ drop (length m) (mtext b2)) = Ret msg" using c_str_append_NUL [OF assms(5)] by simp
  from systemv_receive_takes [OF sv_laws(5) [OF assms(1)] b(2) _ _ _ this assms(8), of "s\<lparr>world := w1\<rparr>" qbytes 1 "[]" sz lc e]
  obtain owner' w2 where w2: "systemv_queue_receive lc api owner buffer sz e (s\<lparr>world := w1\<rparr>) =
      Ret (int ?k, owner', msg @ NUL # drop (Suc (length msg)) buffer, e, s\<lparr>world := w2\<rparr>)"
    "obs w2 = (obs w1)\<lparr>sv_msgs := (sv_msgs (obs w1))(d \<mapsto> (qbytes, []))\<rparr>"
    using w1(2) b(4,9) lens(2,3) k assms(7) by auto
  have "obs w2 = obs (world s)" using w1(2) w2(2) assms(4) by (simp add: fun_upd_idem)
  moreover have "length (msg @ NUL # drop (Suc (length msg)) buffer) = length buffer" using assms(8) by simp
  ultimately show ?thesis using w1(1) w2(1) c_str_append_NUL [OF assms(5)] by blast
qed

definition sample_system1 :: sample_system where
  "sample_system1 = sample_system0\<lparr>ss_table := [Some (64, [])]\<rparr>"

definition sample_svq1 :: "char \<Rightarrow> systemv_queue" where
  "sample_svq1 c = \<lparr>qid = 0, sv_buffer = Some \<lparr>mtype = 1, mtext = replicate 64 c\<rparr>, sv_filename = None, sv_buffer_size = 8\<rparr>"

lemma sample_svq1_opened: "sv_opened ss_obs (world (sample_proc sample_system1)) 0 (sample_svq1 c)"
  by (simp add: sv_opened_def sample_svq1_def sv_buffer_wf_def sample_proc_def sample_system1_def ss_msgs_def)

theorem systemv_send_receive_witness:
  "\<exists>sender' owner' w1 w2 buffer'.
    systemv_queue_send sample_libc sample_sysv_api (sample_svq1 CHR ''y'') ''::1'' (- 1) None (sample_proc sample_system1) =
      Ret (True, sender', None, (sample_proc sample_system1)\<lparr>world := w1\<rparr>) \<and>
    systemv_queue_receive sample_libc sample_sysv_api (sample_svq1 CHR ''z'') (replicate 65 NUL) 65 None
      ((sample_proc sample_system1)\<lparr>world := w1\<rparr>) =
      Ret (int (unat (sv_buffer_size (sample_svq1 CHR ''y''))), owner', buffer', None, (sample_proc sample_system1)\<lparr>world := w2\<rparr>) \<and>
    length buffer' = length (replicate 65 NUL) \<and> c_str buffer' = Ret ''::1'' \<and>
    ss_obs w2 = ss_obs (world (sample_proc sample_system1))"
  by (rule systemv_send_receive [OF sample_system_law sample_svq1_opened sample_svq1_opened, where qbytes = 64])
    (simp_all add: sample_proc_def sample_system1_def ss_msgs_def sample_svq1_def)

text \<open>A message of \<open>buffer_size\<close> characters or more is sent without its end, and the send reports
  success.  The receiver reads the first \<open>buffer_size\<close> characters followed by what its own buffer
  held at that place before.\<close>

lemma systemv_long_message:
  assumes "sv_system lc api key obs" and "sv_opened obs (world s) d sender" and "sv_opened obs (world s) d owner"
    and "sv_msgs (obs (world s)) d = Some (qbytes, [])" and "NUL \<notin> set msg"
    and "unat (sv_buffer_size sender) \<le> length msg" and "length msg < 8 * unat (sv_buffer_size sender)"
    and "sv_buffer owner = Some b" and "c_str (drop (unat (sv_buffer_size sender)) (mtext b)) = Ret stale"
    and "unat qbytes \<le> sz" and "unat (sv_buffer_size sender) + length stale < length buffer"
  shows "\<exists>sender' owner' s1 s2 buffer'.
    systemv_queue_send lc api sender msg n e s = Ret (True, sender', e, s1) \<and>
    systemv_queue_receive lc api owner buffer sz e s1 =
      Ret (int (unat (sv_buffer_size sender)), owner', buffer', e, s2) \<and>
    c_str buffer' = Ret (take (unat (sv_buffer_size sender)) msg @ stale)"
proof -
  obtain b1 where b: "sv_buffer sender = Some b1" "qid sender = d" "qid owner = d"
    "sv_buffer_size sender = qbytes div 8" "sv_buffer_wf sender"
    "length (mtext b1) = 8 * unat (sv_buffer_size sender)" "length (mtext b) = 8 * unat (sv_buffer_size sender)"
    using assms(2-4,8) by (auto simp: sv_opened_def sv_buffer_wf_def split: option.splits)
  let ?k = "unat (sv_buffer_size sender)"
  have k: "?k \<le> unat qbytes" using b(4) by (simp add: unat_div)
  have m: "take ?k (msg @ NUL # drop (Suc (length msg)) (mtext b1)) = take ?k msg" "length (take ?k msg) = ?k"
    using assms(6) by simp_all
  obtain sender' w1 where w1: "systemv_queue_send lc api sender msg n e s = Ret (True, sender', e, s\<lparr>world := w1\<rparr>)"
    "obs w1 = (obs (world s))\<lparr>sv_msgs := (sv_msgs (obs (world s)))(d \<mapsto> (qbytes, [] @ [(1, take ?k msg)]))\<rparr>"
    using systemv_send_appends [OF sv_laws(5) [OF assms(1)] b(1,5), of s qbytes "[]" msg lc n e] assms(4,7) b(2,6) k m by auto
  have nul: "NUL \<notin> set (take ?k msg)" using assms(5) in_set_takeD by fast
  then have str: "c_str (take ?k msg @ drop (length (take ?k msg)) (mtext b)) = Ret (take ?k msg @ stale)"
    using c_str_prefix [OF _ assms(9)] m(2) by simp
  have len: "length (take ?k msg @ stale) < length buffer" using assms(11) m(2) by simp
  from systemv_receive_takes [OF sv_laws(5) [OF assms(1)] assms(8) _ _ _ str len, of "s\<lparr>world := w1\<rparr>" qbytes 1 "[]" sz lc e]
  obtain owner' w2 where w2: "systemv_queue_receive lc api owner buffer sz e (s\<lparr>world := w1\<rparr>) =
      Ret (int ?k, owner', (take ?k msg @ stale) @ NUL # drop (Suc (length (take ?k msg @ stale))) buffer, e, s\<lparr>world := w2\<rparr>)"
    using w1(2) b(3,7) m k assms(10) by auto
  have "NUL \<notin> set (take ?k msg @ stale)" using nul c_str_no_NUL [OF assms(9)] by simp
  then show ?thesis using w1(1) w2 c_str_append_NUL by blast
qed


lemma systemv_long_message_witness:
  "\<exists>sender' owner' s1 s2 buffer'.
    systemv_queue_send sample_libc sample_sysv_api (sample_svq1 CHR ''y'') ''192.0.2.17'' (- 1) None (sample_proc sample_system1) =
      Ret (True, sender', None, s1) \<and>
    systemv_queue_receive sample_libc sample_sysv_api (sample_svq1 NUL) (replicate 65 NUL) 65 None s1 =
      Ret (int (unat (sv_buffer_size (sample_svq1 CHR ''y''))), owner', buffer', None, s2) \<and>
    c_str buffer' = Ret (take (unat (sv_buffer_size (sample_svq1 CHR ''y''))) ''192.0.2.17'' @ [])"
  by (rule systemv_long_message [OF sample_system_law sample_svq1_opened sample_svq1_opened,
        where qbytes = 64 and b = "\<lparr>mtype = 1, mtext = replicate 64 NUL\<rparr>"])
    (simp_all add: sample_proc_def sample_system1_def ss_msgs_def sample_svq1_def c_str_def)

text \<open>C34: \<open>queue_send\<close> copies the message without looking at its length: on an opened queue the call is
  defined exactly when the message with its terminator fits into the allocation, which is eight
  times \<open>buffer_size\<close> bytes long.  (The formatting of an error message needs memory.)\<close>

theorem systemv_send_bounds:
  assumes "sv_buffer_wf q" and "allocates lc"
  shows "defined (systemv_queue_send lc api q msg n (Some None) s) \<longleftrightarrow> length msg < 8 * unat (sv_buffer_size q)"
proof -
  obtain b where b: "sv_buffer q = Some b" "length (mtext b) = 8 * unat (sv_buffer_size q)"
    using assms(1) by (auto simp: sv_buffer_wf_def split: option.splits)
  have err: "\<exists>r. error_set lc (Some None) m s' = Ret r" for m s'
    using assms(2) by (auto simp: error_set_def allocates_def alloc_def split: option.splits prod.splits bool.splits)
      (metis fst_conv)
  show ?thesis
  proof (cases "length msg < length (mtext b)")
    case True
    then have "strcpy (mtext b) 0 msg = Ret (msg @ NUL # drop (Suc (length msg)) (mtext b))"
      by (simp add: strcpy_def write_at_def)
    moreover have "\<exists>r. set_system_error lc (Some None) ''msgsnd failed'' [] s' = Ret r" for s'
      using err by (simp add: set_error_defs)
    ultimately show ?thesis using True b
      by (auto simp: systemv_queue_send_def Let_def defined_iff split: sysret.splits prod.splits)
        (metis andthen.simps(1) surj_pair case_prod_conv)
  next
    case False
    then show ?thesis using b by (simp add: systemv_queue_send_def strcpy_def write_at_def)
  qed
qed

theorem systemv_send_bounds_witness:
  "\<not> defined (systemv_queue_send sample_libc sample_sysv_api (sample_svq1 NUL) (replicate 64 CHR ''1'') (- 1) (Some None)
     (sample_proc sample_system1))"
  using systemv_send_bounds [of "sample_svq1 NUL" sample_libc sample_sysv_api "replicate 64 CHR ''1''" "- 1" "sample_proc sample_system1"]
  by (simp add: sample_svq1_def sv_buffer_wf_def allocates_def sample_libc_def)

text \<open>A name of the form \<open>path:id\<close>.  The part before the colon is copied without a terminator, so
  the file that the owner creates is named by that part followed by the bytes the stack happens
  to hold behind it, up to the first null byte.\<close>

lemma systemv_colon_path:
  assumes "CHR '':'' \<notin> set path" and "length path < maxpathlen api"
  shows "systemv_owner_path lc api (path @ CHR '':'' # c # rest) e s =
    Ret (Some (int_of_plain_char (char_signed api) c, path @ drop (length path) (fresh_filename api s)), e, s)"
proof -
  have "strchr (path @ CHR '':'' # c # rest) CHR '':'' = Some (length path)"
    using strchr_append [OF assms(1)] by simp
  moreover have "strncpy (fresh_filename api s) (path @ CHR '':'' # c # rest) (length path) =
      Ret (path @ drop (length path) (fresh_filename api s))"
    using assms(2) by (simp add: strncpy_def write_at_def)
  ultimately show ?thesis using assms(2)
    by (simp add: systemv_owner_path_def nth_append)
qed

lemma systemv_colon_path_witness:
  "systemv_owner_path sample_libc sample_sysv_api (''/tmp/q'' @ CHR '':'' # CHR ''a'' # []) None (sample_proc sample_system0) =
     Ret (Some (int_of_plain_char True CHR ''a'', ''/tmp/q'' @ ''xxxxxxxxx'' @ [NUL]), None, sample_proc sample_system0)"
  using systemv_colon_path [of "''/tmp/q''" sample_sysv_api sample_libc "CHR ''a''" "[]" None "sample_proc sample_system0"]
  by (simp add: fresh_filename_def sample_sysv_api_def upt_rec)

text \<open>The test of \<open>fread\<close> never fires.  When the identifier cannot be read from the file, the open
  goes on with the indeterminate value of the variable and leaves \<open>error\<close> alone.\<close>

lemma systemv_fread_unchecked:
  assumes "NUL \<notin> set name" and "length name < maxpathlen api"
    and "fopen api name ''r'' (world s) = (Ok fp, w1)" and "fread_int api fp w1 = (Err n, w2)"
  shows "systemv_other_file lc api name e s =
    Ret (Some (stack_int api (world s), name), e, snd (syscall (fclose api fp) (s\<lparr>world := w2, errno := n\<rparr>)))"
proof -
  obtain arr where "systemv_copy_name lc api name e s = Ret (Some arr, e, s)" "c_str arr = Ret name"
    using systemv_copy_name_fits [OF assms(1,2), of lc e s] by auto
  then show ?thesis using assms(3,4) by (simp add: systemv_other_file_def syscall_def Let_def)
qed

lemma systemv_fread_unchecked_witness:
  "systemv_other_file sample_libc sample_sysv_api ''/tmp/q'' None
     (sample_proc (sample_system0\<lparr>ss_files := [''/tmp/q'' \<mapsto> (5, None)]\<rparr>)) =
     Ret (Some (7, ''/tmp/q''), None,
       snd (syscall (fclose sample_sysv_api 0) (sample_proc
         (sample_system0\<lparr>ss_files := [''/tmp/q'' \<mapsto> (5, None)], ss_next := 1, ss_streams := [0 \<mapsto> ''/tmp/q'']\<rparr>))))"
  using systemv_fread_unchecked [of "''/tmp/q''" sample_sysv_api
      "sample_proc (sample_system0\<lparr>ss_files := [''/tmp/q'' \<mapsto> (5, None)]\<rparr>)" 0
      "sample_system0\<lparr>ss_files := [''/tmp/q'' \<mapsto> (5, None)], ss_next := 1, ss_streams := [0 \<mapsto> ''/tmp/q'']\<rparr>" 0
      "sample_system0\<lparr>ss_files := [''/tmp/q'' \<mapsto> (5, None)], ss_next := 1, ss_streams := [0 \<mapsto> ''/tmp/q'']\<rparr>"
      sample_libc None]
  by (simp add: sample_sysv_api_def sample_proc_def ss_fopen_def ss_fread_def sample_system0_def)

text \<open>\<open>queue_open\<close> on System V never changes the mask of the process.\<close>

lemma systemv_open_umask:
  "systemv_queue_open lc api q name flags e s = Ret (ok, q', e', s') \<Longrightarrow> umask s' = umask s"
  using systemv_queue_open_Ret by blast

lemma systemv_open_umask_witness:
  "\<exists>q' e' s'. systemv_queue_open sample_libc sample_sysv_api sample_svq ''/tmp/banip'' QUEUE_FL_SENDER None
      (sample_proc sample_system0) = Ret (False, q', e', s') \<and> umask s' = 18"
proof -
  obtain q' e' s' where r: "systemv_queue_open sample_libc sample_sysv_api sample_svq ''/tmp/banip'' QUEUE_FL_SENDER None
      (sample_proc sample_system0) = Ret (False, q', e', s')"
    using systemv_copy_name_fits [of "''/tmp/banip''" sample_sysv_api sample_libc None "sample_proc sample_system0"]
    by (auto simp: systemv_queue_open_def systemv_other_file_def sample_sysv_api_def ss_fopen_def syscall_def
        sample_proc_def sample_system0_def set_error_defs error_set_null)
  with systemv_open_umask [OF r] show ?thesis by (auto simp: sample_proc_def)
qed

end
