(* ===== verification/Parse_Total.thy ===== *)
theory Parse_Total
  imports Parse
begin

text \<open>
  When \<open>parse_addr\<close> returns at all: on a machine with memory, for every text whose prefix, if it has one,
  is a number other than 0 and \<open>ULONG_MAX\<close> (\<open>clean_prefix\<close>), the function reaches its end, and \<open>error\<close> is fresh afterwards exactly when the text was
  accepted.  The daemon and the tests call it under these conditions.
\<close>

section \<open>Conditions\<close>

text \<open>The text after the slash, if there is one, is a number that \<open>strtoul\<close> reads to the end of the text, other than 0 and \<open>ULONG_MAX\<close>: then
  \<open>parse_ulong\<close> succeeds, whatever \<open>errno\<close> holds.  The texts \<open>x/y\<close>, \<open>x/24x\<close>, \<open>x/0\<close> and \<open>x/\<close> do not satisfy it.\<close>

definition clean_prefix :: "string \<Rightarrow> bool" where
  "clean_prefix str =
     (case strchr str CHR ''/'' of
        None \<Rightarrow> True
      | Some i \<Rightarrow>
          (case strtoul (drop (Suc i) str) of
             (v, n, er) \<Rightarrow> drop (Suc i) str \<noteq> [] \<and> n = length (drop (Suc i) str) \<and> \<not> er \<and> v \<noteq> 0 \<and> v \<noteq> ULONG_MAX))"

text \<open>A successful \<open>getaddrinfo\<close> gives at least one result, with a socket address of its family.\<close>

definition sane_addr :: "addrinfo \<Rightarrow> bool" where
  "sane_addr r =
     (case ai_addr r of None \<Rightarrow> True | Some a \<Rightarrow> 16 \<le> length a \<and> (ai_family r = AF_INET6 \<longrightarrow> 28 \<le> length a))"

definition gai_sane :: "'w netlib \<Rightarrow> bool" where
  "gai_sane nl \<longleftrightarrow>
     (\<forall>host nh w res w'. getaddrinfo nl host nh w = (Inr res, w') \<longrightarrow> res \<noteq> [] \<and> list_all sane_addr res)"

section \<open>Lemmas\<close>

lemma clean_prefix_parse:
  assumes "clean_prefix str" and "strchr str CHR ''/'' = Some i"
  shows "\<exists>v. parse_ulong lc (drop (Suc i) str) e s = Ret (True, v, e, s)"
proof -
  obtain v where "strtoul (drop (Suc i) str) = (v, length (drop (Suc i) str), False) \<and> drop (Suc i) str \<noteq> []" "v \<noteq> 0" "v \<noteq> ULONG_MAX"
    using assms by (auto simp: clean_prefix_def split: prod.splits)
  then show ?thesis unfolding strtoul_whole_iff by (auto simp: parse_ulong_True_iff)
qed

lemma set_generic_error_first:
  assumes "formats lc" and "allocates lc"
  shows "\<exists>w. set_generic_error lc (Some None) f args s = Ret (Some (Some (f, args)), s\<lparr>world := w\<rparr>)"
  using error_set_first [OF assms] by (simp add: set_error_defs)

lemma set_system_error_first:
  assumes "formats lc" and "allocates lc"
  shows "\<exists>m w. set_system_error lc (Some None) f args s = Ret (Some (Some m), s\<lparr>world := w\<rparr>)"
  using error_set_first [OF assms, of "(f @ '': %s'', args @ [SArg (strerror lc (errno s))])" s]
  unfolding set_error_defs by blast

lemma parse_addr_cidr_total:
  assumes "inet_pton_sound nl" and "gai_sane nl" and "formats lc" and "allocates lc"
    and "clean_prefix str" and i: "strchr str CHR ''/'' = Some i"
  shows "case parse_addr_cidr lc nl str i (Some None) s of
      Ret (ok, a, buffer, e', s') \<Rightarrow> (if ok then e' = Some None else (\<exists>m. e' = Some (Some m))) \<and> stderr_log s' = stderr_log s
    | Undef u \<Rightarrow> False"
proof -
  note err = set_generic_error_first [OF assms(3,4)]
  obtain w1 where al: "alloc lc (length str + 1) s = (True, s\<lparr>world := w1\<rparr>)" using allocatesD [OF assms(4)] by blast
  obtain v where pu: "parse_ulong lc (drop (Suc i) str) (Some None) (s\<lparr>world := w1\<rparr>) = Ret (True, v, Some None, s\<lparr>world := w1\<rparr>)"
    using clean_prefix_parse [OF assms(5) i] by blast
  obtain g w2 where g: "getaddrinfo nl (take i str) True w1 = (g, w2)" by (cases "getaddrinfo nl (take i str) True w1")
  show ?thesis
  proof (cases g)
    case (Inl ret)
    obtain w where "set_generic_error lc (Some None) ''getaddrinfo failed: %s'' [SArg (gai_strerror lc ret)] (s\<lparr>world := w2\<rparr>) =
        Ret (Some (Some (''getaddrinfo failed: %s'', [SArg (gai_strerror lc ret)])), s\<lparr>world := w\<rparr>)"
      using err [of _ _ "s\<lparr>world := w2\<rparr>"] by fastforce
    then show ?thesis using al pu g Inl by (auto simp: parse_addr_cidr_def)
  next
    case (Inr l)
    then obtain res rest where l: "g = Inr (res # rest)" using g assms(2) unfolding gai_sane_def by (cases l) fastforce+
    have e: "\<exists>w. set_generic_error lc (Some None) f args (s\<lparr>world := w2\<rparr>) = Ret (Some (Some (f, args)), s\<lparr>world := w\<rparr>)" for f args
      using err [of f args "s\<lparr>world := w2\<rparr>"] by simp
    have pt: "write_at (sa addr_zero) 0 bs = Ret (bs @ replicate (16 - length bs) 0)"
      if "ai_family res = AF_INET \<or> ai_family res = AF_INET6" "inet_pton nl (ai_family res) (take i str) = Some bs" for bs
      using that assms(1) unfolding inet_pton_sound_def by (intro write_at_zero) fastforce
    show ?thesis
      using al pu g l pt e [of "''prefix too long for AF_INET''" "[]"] e [of "''prefix too long for AF_INET6''" "[]"]
        e [of "''valid address expected, got: %s''" "[SArg (take i str)]"]
      by (cases "ai_family res"; cases "inet_pton nl (ai_family res) (take i str)") (auto simp: parse_addr_cidr_def Let_def)
  qed
qed

lemma parse_addr_True_wf:
  assumes "inet_pton_sound nl" and "NUL \<notin> set str" and "parse_addr lc nl str e s = Ret (True, a, e', s')"
  shows "addr_wf a"
proof -
  obtain f host bs n where "a = addr_of f host bs n" "length host < HUMANREPR_SIZE" "NUL \<notin> set host"
    "f = AF_INET \<and> length bs = 4 \<and> n \<le> 32 \<or> f = AF_INET6 \<and> length bs = 16 \<and> n \<le> 128"
    using parse_addr_True [OF assms] by blast
  then show ?thesis using addr_of_wf(1) [of host f bs n] by simp
qed

text \<open>After the branch of the slash, the end of the function succeeds.\<close>

lemma parse_addr_cidr_finish:
  assumes "inet_pton_sound nl" and "NUL \<notin> set str"
    and "parse_addr_cidr lc nl str i e s = Ret (True, a, buffer, e', s')"
  shows "\<exists>r. parse_addr_finish lc a buffer e' s' = Ret (True, r, e', s')"
proof -
  obtain f bs m prefix where d: "buffer = take i str" "inet_pton nl f buffer = Some bs"
    "write_at (sa addr_zero) 0 bs = Ret m" "f = AF_INET \<and> (prefix :: ulong) \<le> 32 \<or> f = AF_INET6 \<and> prefix \<le> 128"
    "a = addr_zero\<lparr>sa := m, sa_size := (if f = AF_INET then 4 else 16), netmask := ucast prefix, fa := f\<rparr>"
    using parse_addr_cidr_True [OF assms(3)] by blast
  have nul: "NUL \<notin> set buffer" using d(1) assms(2) in_set_takeD by fast
  from assms(1) d(2,4) have len: "f = AF_INET \<and> length bs = 4 \<or> f = AF_INET6 \<and> length bs = 16" "length buffer < HUMANREPR_SIZE"
    unfolding inet_pton_sound_def by fastforce+
  have n: "unat prefix \<le> 128" using d(4) by (auto simp: word_le_nat_alt)
  have "m = bs @ replicate (16 - length bs) 0" using len(1) d(3) by (auto simp: write_at_zero)
  then have "a = addr_zero\<lparr>sa := bs @ replicate (16 - length bs) 0, fa := f, netmask := of_nat (unat prefix), sa_size := length bs\<rparr>"
    using d(5) len(1) by (auto simp: addr_zero_def)
  then show ?thesis using parse_addr_finish_addr_of [OF nul len(2) _ n, of bs lc f e' s'] len(1) by auto
qed

lemma parse_addr_total:
  assumes "inet_pton_sound nl" and "gai_sane nl" and "formats lc" and "allocates lc" and "NUL \<notin> set str" and "clean_prefix str"
  shows "\<exists>ok a e' s'. parse_addr lc nl str (Some None) s = Ret (ok, a, e', s') \<and>
    (if ok then e' = Some None \<and> addr_wf a else (\<exists>m. e' = Some (Some m))) \<and> stderr_log s' = stderr_log s"
proof (cases "strchr str CHR ''/''")
  case None
  then have sl: "CHR ''/'' \<notin> set str" by (simp add: strchr_None_iff)
  consider bs where "inet_pton nl AF_INET str = Some bs"
    | bs where "inet_pton nl AF_INET str = None" "inet_pton nl AF_INET6 str = Some bs"
    | "inet_pton nl AF_INET str = None" "inet_pton nl AF_INET6 str = None" by (metis option.exhaust)
  then show ?thesis
  proof cases
    case 1
    note r = parse_addr_host_v4 [OF assms(1) 1 assms(5) sl, of lc "Some None" s]
    then show ?thesis using parse_addr_True_wf [OF assms(1,5) r] by auto
  next
    case 2
    note r = parse_addr_host_v6 [OF assms(1) 2 assms(5) sl, of lc "Some None" s]
    then show ?thesis using parse_addr_True_wf [OF assms(1,5) r] by auto
  next
    case 3
    then show ?thesis using None set_generic_error_first [OF assms(3,4), of "''valid address expected, got: %s''" "[SArg str]" s]
      by (auto simp: parse_addr_def parse_addr_host_def)
  qed
next
  case (Some i)
  obtain ok a buffer e' s' where c: "parse_addr_cidr lc nl str i (Some None) s = Ret (ok, a, buffer, e', s')"
    "if ok then e' = Some None else (\<exists>m. e' = Some (Some m))" "stderr_log s' = stderr_log s"
    using parse_addr_cidr_total [OF assms(1-4,6) Some, of s] by (auto split: outcome.splits)
  show ?thesis
  proof (cases ok)
    case True
    obtain r where "parse_addr_finish lc a buffer e' s' = Ret (True, r, e', s')"
      using parse_addr_cidr_finish [OF assms(1,5), of lc i "Some None" s a buffer e' s'] c(1) True by auto
    then have "parse_addr lc nl str (Some None) s = Ret (True, r, e', s')" using Some c(1) True by (simp add: parse_addr_def)
    then show ?thesis using parse_addr_True_wf [OF assms(1,5)] c True by auto
  next
    case False
    then show ?thesis using Some c by (auto simp: parse_addr_def)
  qed
qed

end
