(* ===== verification/Engine.thy ===== *)
theory Engine
  imports Parse_Total
begin

text \<open>
  The interface of the packet filter engines (\<open>engine.h\<close>), the diagnostics of \<open>err.h\<close> and the dummy
  engine (\<open>dummy.c\<close>).  The locale \<open>engine_contract\<close> states what the daemon relies on when it calls an
  engine through its table of functions.
\<close>

section \<open>err.h\<close>

text \<open>
  The non-fatal \<open>_verr\<close>: the message goes to the diagnostic stream, followed by the text of
  \<open>errcode\<close> when that is not zero.  The time stamp and the program name in front of every message
  are left out.
\<close>

definition verr :: "'w libc \<Rightarrow> nat \<Rightarrow> string \<Rightarrow> carg list \<Rightarrow> 'w proc \<Rightarrow> 'w proc" where
  "verr lc errcode fmt args s =
     log_msg (if errcode \<noteq> 0 then (fmt @ '': %s'', args @ [SArg (strerror lc errcode)]) else (fmt, args)) s"

definition warnc :: "'w libc \<Rightarrow> string \<Rightarrow> carg list \<Rightarrow> 'w proc \<Rightarrow> 'w proc" where
  "warnc lc fmt args s = verr lc (errno s) fmt args s"

text \<open>\<open>_verr(false, 0, "%s", error)\<close> with the message that an operation left; a null pointer does not
  fit the conversion.\<close>

definition verr_error :: "'w libc \<Rightarrow> errp \<Rightarrow> 'w proc \<Rightarrow> 'w proc outcome" where
  "verr_error lc error s =
     (case error of
        Some (Some m) \<Rightarrow> Ret (log_msg m s)
      | _ \<Rightarrow> Undef Bad_Format)"

section \<open>engine.h\<close>

text \<open>
  The \<open>void *\<close> that \<open>open\<close> returns: a structure on the heap that holds a descriptor, or the number 1
  converted to a pointer.  Only the former can be freed.
\<close>

datatype ctxt = Fd_Ctxt int | One_Ctxt

definition free_ctxt :: "ctxt \<Rightarrow> unit outcome" where
  "free_ctxt c = (case c of Fd_Ctxt _ \<Rightarrow> Ret () | One_Ctxt \<Rightarrow> Undef Invalid_Free)"

lemma free_ctxt_Ret_iff [simp]: "free_ctxt c = Ret u \<longleftrightarrow> (\<exists>fd. c = Fd_Ctxt fd)"
  by (cases c) (simp_all add: free_ctxt_def)

record 'w engine =
  drop_privileges :: bool
  engine_name :: string
  e_open :: "(string \<Rightarrow> errp \<Rightarrow> 'w proc \<Rightarrow> (ctxt option \<times> errp \<times> 'w proc) outcome) option"
  e_handle :: "ctxt option \<Rightarrow> string \<Rightarrow> addr_t \<Rightarrow> errp \<Rightarrow> 'w proc \<Rightarrow> (bool \<times> errp \<times> 'w proc) outcome"
  e_close :: "(ctxt \<Rightarrow> 'w proc \<Rightarrow> (ctxt \<times> 'w proc) outcome) option"

section \<open>dummy.c\<close>

definition dummy_handle ::
  "ctxt option \<Rightarrow> string \<Rightarrow> addr_t \<Rightarrow> errp \<Rightarrow> 'w proc \<Rightarrow> (bool \<times> errp \<times> 'w proc) outcome" where
  "dummy_handle c tablename addr error s =
     andthen (c_str (humanrepr addr)) (\<lambda>host.
     Ret (True, error, log_msg (''Received: '' @ [CHR 0x27] @ ''%s'' @ [CHR 0x27], [SArg host]) s))"

definition dummy_engine :: "'w engine" where
  "dummy_engine =
     \<lparr>drop_privileges = True, engine_name = ''dummy'', e_open = None, e_handle = dummy_handle, e_close = None\<rparr>"

section \<open>The contract of an engine\<close>

text \<open>
  The laws: where \<open>open\<close> or \<open>handle\<close> fails with a fresh \<open>error\<close>, a message is there; where it
  succeeds, \<open>error\<close> is untouched; a context that \<open>open\<close> returned can be closed and freed.
\<close>

locale engine_contract =
  fixes eng :: "'w engine" and messages :: bool
  assumes open_fails: "e_open eng = Some f \<Longrightarrow> f t (Some None) s = Ret (None, e', s') \<Longrightarrow> messages \<Longrightarrow>
      \<exists>m. e' = Some (Some m)"
    and open_ok: "e_open eng = Some f \<Longrightarrow> f t e s = Ret (Some c, e', s') \<Longrightarrow> e' = e \<and> free_ctxt c = Ret ()"
    and handle_fails: "e_handle eng p t a (Some None) s = Ret (False, e', s') \<Longrightarrow> messages \<Longrightarrow>
      \<exists>m. e' = Some (Some m)"
    and handle_ok: "e_handle eng p t a e s = Ret (True, e', s') \<Longrightarrow> e' = e"
    and close_frees: "e_close eng = Some g \<Longrightarrow> free_ctxt c = Ret () \<Longrightarrow>
      \<exists>c' s'. g c s = Ret (c', s') \<and> free_ctxt c' = Ret ()"
begin

text \<open>A call of \<open>handle\<close> with a fresh \<open>error\<close> either leaves it fresh or leaves a message to print.\<close>

lemma handle_reports:
  assumes "e_handle eng p t a (Some None) s = Ret (ok, e', s')" and messages
  shows "if ok then e' = Some None else \<exists>m. e' = Some (Some m) \<and> verr_error lc e' s' = Ret (log_msg m s')"
  using assms handle_fails [of p t a s e' s'] handle_ok [of p t a "Some None" s e' s']
  by (cases ok) (auto simp: verr_error_def)

text \<open>What \<open>open\<close> returned can be closed and freed.\<close>

lemma open_close_free:
  assumes "e_open eng = Some f" and "f t e s = Ret (Some c, e', s')" and "e_close eng = Some g"
  shows "\<exists>c' s2. g c s1 = Ret (c', s2) \<and> free_ctxt c' = Ret ()"
  using open_ok [OF assms(1,2)] close_frees [OF assms(3)] by blast

end

interpretation dummy: engine_contract dummy_engine True
  by unfold_locales (auto simp: dummy_engine_def dummy_handle_def outcome_simps)

end
