(* ===== verification/Command.thy ===== *)
theory Command
  imports Engine
begin

text \<open>
  The engines that run programs: \<open>command.c\<close>, \<open>ipset.c\<close> and \<open>iptables.c\<close>.  The shell is the parameter
  \<open>sh\<close>, which takes a command line and gives the value of \<open>system\<close>.
\<close>

type_synonym 'w shell = "string \<Rightarrow> 'w \<Rightarrow> int \<times> 'w"

section \<open>Formatting\<close>

text \<open>The text that \<open>vsnprintf\<close> produces for the conversions \<open>%s\<close>, \<open>%c\<close> and \<open>%%\<close>; every other
  conversion and a missing or unfitting argument is undefined here.  Arguments left over are
  ignored.\<close>

fun render :: "string \<Rightarrow> carg list \<Rightarrow> string outcome" where
  "render [] args = Ret []"
| "render [c] args = (if c \<noteq> CHR ''%'' then Ret [c] else Undef Bad_Format)"
| "render (c # d # cs) args =
     (if c \<noteq> CHR ''%'' then andthen (render (d # cs) args) (\<lambda>t. Ret (c # t))
      else if d = CHR ''%'' then andthen (render cs args) (\<lambda>t. Ret (CHR ''%'' # t))
      else
        (case args of
           SArg x # args' \<Rightarrow> if d = CHR ''s'' then andthen (render cs args') (\<lambda>t. Ret (x @ t)) else Undef Bad_Format
         | CArg x # args' \<Rightarrow> if d = CHR ''c'' then andthen (render cs args') (\<lambda>t. Ret (x # t)) else Undef Bad_Format
         | _ \<Rightarrow> Undef Bad_Format))"

section \<open>command.c\<close>

abbreviation COMMAND_SIZE :: nat where
  "COMMAND_SIZE \<equiv> 4096"

text \<open>
  \<open>run_command\<close>.  The comparison of the \<open>int\<close> result of \<open>vsnprintf\<close> with a \<open>size_t\<close> is unsigned, so
  that a negative result counts as an overflow too; in both cases the function returns 0, which
  its callers take for success.
\<close>

definition run_command :: "'w libc \<Rightarrow> 'w shell \<Rightarrow> string \<Rightarrow> carg list \<Rightarrow> 'w proc \<Rightarrow> (int \<times> 'w proc) outcome" where
  "run_command lc sh format args s =
     andthen (render format args) (\<lambda>txt.
     let l = (case vsnprintf_len lc (format, args) of None \<Rightarrow> (- 1 :: 64 word) | Some _ \<Rightarrow> of_nat (length txt)) in
     if of_nat COMMAND_SIZE \<le> l then Ret (0, s)
     else (case sh txt (world s) of (r, w) \<Rightarrow> Ret (r, s\<lparr>world := w\<rparr>)))"

section \<open>ipset.c\<close>

text \<open>The four steps of \<open>ipset_open\<close>: \<open>ok &= (EXIT_SUCCESS != run_command(...))\<close>, then a break when
  \<open>ok\<close> is false.\<close>

fun ipset_steps :: "'w libc \<Rightarrow> 'w shell \<Rightarrow> string list \<Rightarrow> string \<Rightarrow> bool \<Rightarrow> 'w proc \<Rightarrow> (bool \<times> 'w proc) outcome" where
  "ipset_steps lc sh [] tablename ok s = Ret (True, s)"
| "ipset_steps lc sh (format # fs) tablename ok s =
     andthen (run_command lc sh format [SArg tablename] s) (\<lambda>(r, s).
     let ok = (ok \<and> r \<noteq> 0) in
     if \<not> ok then Ret (ok, s) else ipset_steps lc sh fs tablename ok s)"

definition ipset_commands :: "string list" where
  "ipset_commands =
     [''ipset -! create %s4 hash:net family inet'', ''ipset -! create %s6 hash:net family inet6'',
      ''iptables -I INPUT -m set --match-set %s4 src -j DROP'', ''iptables -I INPUT -m set --match-set %s4 src -j DROP'']"

text \<open>\<open>return (void *) !ok\<close>\<close>

definition ipset_open ::
  "'w libc \<Rightarrow> 'w shell \<Rightarrow> string \<Rightarrow> errp \<Rightarrow> 'w proc \<Rightarrow> (ctxt option \<times> errp \<times> 'w proc) outcome" where
  "ipset_open lc sh tablename error s =
     andthen (ipset_steps lc sh ipset_commands tablename False s) (\<lambda>(ok, s).
     Ret (if \<not> ok then Some One_Ctxt else None, error, s))"

definition ipset_handle ::
  "'w libc \<Rightarrow> 'w shell \<Rightarrow> ctxt option \<Rightarrow> string \<Rightarrow> addr_t \<Rightarrow> errp \<Rightarrow> 'w proc \<Rightarrow> (bool \<times> errp \<times> 'w proc) outcome" where
  "ipset_handle lc sh c tablename addr error s =
     andthen (c_str (humanrepr addr)) (\<lambda>host.
     andthen (run_command lc sh ''ipset -! -A %s%c %s''
         [SArg tablename, CArg (if fa addr = AF_INET then CHR ''4'' else CHR ''6''), SArg host] s) (\<lambda>(r, s).
     Ret (0 = r, error, s)))"

definition ipset_engine :: "'w libc \<Rightarrow> 'w shell \<Rightarrow> 'w engine" where
  "ipset_engine lc sh =
     \<lparr>drop_privileges = False, engine_name = ''ipset'', e_open = Some (ipset_open lc sh),
      e_handle = ipset_handle lc sh, e_close = None\<rparr>"

section \<open>iptables.c\<close>

text \<open>
  \<open>iptables_handle\<close> calls \<open>run_command\<close> without its first argument: the format takes the place of
  \<open>error\<close>, which \<open>run_command\<close> does not use, the name of the table is the format, and the address its
  only argument.  The function returns \<open>int\<close> and takes three arguments, but the daemon calls it
  through the member \<open>handle\<close>, which returns \<open>bool\<close> and takes four.
\<close>

definition iptables_handle ::
  "'w libc \<Rightarrow> 'w shell \<Rightarrow> ctxt option \<Rightarrow> string \<Rightarrow> addr_t \<Rightarrow> 'w proc \<Rightarrow> (int \<times> 'w proc) outcome" where
  "iptables_handle lc sh c tablename addr s =
     andthen (c_str (humanrepr addr)) (\<lambda>host. run_command lc sh tablename [SArg host] s)"

definition iptables_engine :: "'w engine" where
  "iptables_engine =
     \<lparr>drop_privileges = False, engine_name = ''iptables'', e_open = None,
      e_handle = (\<lambda>c tablename addr error s. Undef Bad_Call), e_close = None\<rparr>"


section \<open>Lemmas\<close>

lemma render_append:
  "CHR ''%'' \<notin> set xs \<Longrightarrow> render (xs @ ys) args = andthen (render ys args) (\<lambda>t. Ret (xs @ t))"
proof (induction xs)
  case Nil
  then show ?case by (cases "render ys args") simp_all
next
  case (Cons a xs)
  then have a: "a \<noteq> CHR ''%''" by auto
  then have "render (a # zs) args = andthen (render zs args) (\<lambda>t. Ret (a # t))" for zs
    by (cases zs) auto
  with Cons show ?case by (cases "render ys args") simp_all
qed

lemma render_plain: "CHR ''%'' \<notin> set xs \<Longrightarrow> render xs args = Ret xs"
  using render_append [of xs "[]" args] by simp

text \<open>A command line that fits is run as it is; one that does not is not run, and counts as a success.\<close>

lemma run_command_fits:
  assumes "render format args = Ret txt" and "formats lc" and "length txt < COMMAND_SIZE"
  shows "run_command lc sh format args s = (case sh txt (world s) of (r, w) \<Rightarrow> Ret (r, s\<lparr>world := w\<rparr>))"
proof -
  obtain n where "vsnprintf_len lc (format, args) = Some n" using formatsD [OF assms(2)] by blast
  moreover have "\<not> of_nat COMMAND_SIZE \<le> (of_nat (length txt) :: 64 word)"
    using assms(3) by (simp add: word_le_nat_alt unat_of_nat)
  ultimately show ?thesis using assms(1) by (simp add: run_command_def)
qed

lemma run_command_too_long:
  assumes "render format args = Ret txt" and "COMMAND_SIZE \<le> length txt" and "length txt < 2 ^ 31"
  shows "run_command lc sh format args s = Ret (0, s)"
proof -
  have "of_nat COMMAND_SIZE \<le> (of_nat (length txt) :: 64 word)"
    using assms(2,3) by (simp add: word_le_nat_alt unat_of_nat)
  moreover have "of_nat COMMAND_SIZE \<le> (- 1 :: 64 word)" by simp
  ultimately show ?thesis using assms(1)
    by (cases "vsnprintf_len lc (format, args)") (simp_all add: run_command_def)
qed

definition ipset_add_line :: "string \<Rightarrow> af \<Rightarrow> string \<Rightarrow> string" where
  "ipset_add_line tablename f host =
     ''ipset -! -A '' @ tablename @ (if f = AF_INET then ''4'' else ''6'') @ '' '' @ host"

lemma render_ipset_add:
  "render ''ipset -! -A %s%c %s'' [SArg tablename, CArg (if f = AF_INET then CHR ''4'' else CHR ''6''), SArg host] =
     Ret (ipset_add_line tablename f host)"
  by (simp add: ipset_add_line_def)

lemma length_ipset_add_line: "length (ipset_add_line tablename f host) = length tablename + length host + 14"
  by (simp add: ipset_add_line_def)

lemma ipset_open_one:
  assumes "formats lc" and "length tablename < 4000"
  shows "\<exists>r w. sh (''ipset -! create '' @ tablename @ ''4 hash:net family inet'') (world s) = (r, w) \<and>
    ipset_open lc sh tablename error s = Ret (Some One_Ctxt, error, s\<lparr>world := w\<rparr>)"
proof -
  let ?t = "''ipset -! create '' @ tablename @ ''4 hash:net family inet''"
  have "render (hd ipset_commands) [SArg tablename] = Ret ?t" by (simp add: ipset_commands_def)
  then have "run_command lc sh (hd ipset_commands) [SArg tablename] s =
      (case sh ?t (world s) of (r, w) \<Rightarrow> Ret (r, s\<lparr>world := w\<rparr>))"
    using run_command_fits [OF _ assms(1)] assms(2) by simp
  then show ?thesis
    by (cases "sh ?t (world s)") (simp add: ipset_open_def ipset_commands_def)
qed

lemma ipset_handle_runs:
  assumes "formats lc" and "c_str (humanrepr addr) = Ret host" and "length tablename + length host < 4000"
  shows "ipset_handle lc sh c tablename addr error s =
    (case sh (''ipset -! -A '' @ tablename @ (if fa addr = AF_INET then ''4'' else ''6'') @ '' '' @ host) (world s) of
       (r, w) \<Rightarrow> Ret (r = 0, error, s\<lparr>world := w\<rparr>))"
  using run_command_fits [OF render_ipset_add assms(1), of tablename "fa addr" host sh s] assms(2,3)
  by (cases "sh (ipset_add_line tablename (fa addr) host) (world s)")
    (auto simp: ipset_handle_def length_ipset_add_line ipset_add_line_def)

section \<open>Properties\<close>


text \<open>\<open>ipset_open\<close> never fails and runs one command only, the creation of the IPv4 set: the flag
  that accumulates the results starts as false and never becomes true.  The context it returns
  is not a heap pointer, so that the daemon's \<open>free\<close> of it is undefined.\<close>

lemma ipset_open_first_command_only:
  assumes "formats lc" and "length tablename < 4000"
  shows "\<exists>r w. sh (''ipset -! create '' @ tablename @ ''4 hash:net family inet'') (world s) = (r, w) \<and>
    ipset_open lc sh tablename error s = Ret (Some One_Ctxt, error, s\<lparr>world := w\<rparr>) \<and>
    free_ctxt One_Ctxt = Undef Invalid_Free"
  using ipset_open_one [OF assms] by (simp add: free_ctxt_def)

definition sample_shell :: "string list shell" where
  "sample_shell cmd w = (if cmd = ''true'' then 0 else 256, w @ [cmd])"

lemma ipset_open_first_command_only_witness:
  "ipset_open sample_libc sample_shell ''ban'' (Some None) (sample_proc []) =
     Ret (Some One_Ctxt, Some None, sample_proc [''ipset -! create ban4 hash:net family inet''])"
  using ipset_open_first_command_only [of sample_libc "''ban''" sample_shell "sample_proc []" "Some None"]
  by (auto simp: sample_alloc_formats sample_shell_def sample_proc_def)

text \<open>What \<open>ipset_handle\<close> bans.  For an address that \<open>parse_addr\<close> made of \<open>host\<close> or \<open>host/n\<close>, the command
  adds \<open>host\<close> to the set of its family: the prefix length is not part of the command, so that a
  whole network is never banned.  A failing command is reported without a message.\<close>

lemma ipset_handle_command:
  assumes "formats lc" and "c_str (humanrepr addr) = Ret host" and "length tablename + length host < 4000"
  shows "ipset_handle lc sh c tablename addr error s =
    (case sh (''ipset -! -A '' @ tablename @ (if fa addr = AF_INET then ''4'' else ''6'') @ '' '' @ host) (world s) of
       (r, w) \<Rightarrow> Ret (r = 0, error, s\<lparr>world := w\<rparr>))"
  using assms by (rule ipset_handle_runs)

lemma ipset_handle_command_witness:
  "ipset_handle sample_libc sample_shell None ''ban'' (addr_of AF_INET ''10.1.2.3'' [10, 1, 2, 3] 8) (Some None) (sample_proc []) =
     Ret (False, Some None, sample_proc [''ipset -! -A ban4 10.1.2.3''])"
proof -
  have "c_str (humanrepr (addr_of AF_INET ''10.1.2.3'' [10, 1, 2, 3] 8)) = Ret ''10.1.2.3''"
    by (simp add: addr_of_def c_str_def)
  from ipset_handle_command [OF sample_alloc_formats(1) this, of "''ban''" sample_shell None "Some None" "sample_proc []"]
  show ?thesis by (simp add: addr_of_def sample_shell_def sample_proc_def)
qed

text \<open>A command line of 4096 characters or more is not run and reported as a success: the address
  is not banned and no caller notices.\<close>

lemma ipset_handle_overflow:
  assumes "c_str (humanrepr addr) = Ret host" and "COMMAND_SIZE \<le> length tablename" and "length tablename + length host < 2 ^ 30"
  shows "ipset_handle lc sh c tablename addr error s = Ret (True, error, s)"
  using run_command_too_long [OF render_ipset_add, of tablename "fa addr" host lc sh s] assms
  by (simp add: ipset_handle_def length_ipset_add_line del: render.simps split: if_splits)

lemma ipset_handle_overflow_witness:
  "ipset_handle sample_libc sample_shell None (replicate 4096 CHR ''t'') (addr_of AF_INET ''10.1.2.3'' [10, 1, 2, 3] 32) (Some None)
     (sample_proc []) = Ret (True, Some None, sample_proc [])"
  by (rule ipset_handle_overflow [where host = "''10.1.2.3''"]) (simp_all add: addr_of_def c_str_def)

text \<open>What \<open>iptables_handle\<close> runs: the name of the table, taken as a command line.  Neither \<open>iptables\<close>
  nor the address occurs in it.\<close>

lemma iptables_handle_runs_tablename:
  assumes "formats lc" and "c_str (humanrepr addr) = Ret host" and "CHR ''%'' \<notin> set tablename"
    and "length tablename < COMMAND_SIZE"
  shows "iptables_handle lc sh c tablename addr s = (case sh tablename (world s) of (r, w) \<Rightarrow> Ret (r, s\<lparr>world := w\<rparr>))"
  using run_command_fits [OF render_plain [OF assms(3)] assms(1,4)] assms(2) by (simp add: iptables_handle_def)

lemma iptables_handle_runs_tablename_witness:
  "iptables_handle sample_libc sample_shell None ''INPUT'' (addr_of AF_INET ''10.1.2.3'' [10, 1, 2, 3] 32) (sample_proc []) =
     Ret (256, sample_proc [''INPUT''])"
proof -
  have "c_str (humanrepr (addr_of AF_INET ''10.1.2.3'' [10, 1, 2, 3] 32)) = Ret ''10.1.2.3''"
    by (simp add: addr_of_def c_str_def)
  from iptables_handle_runs_tablename [OF sample_alloc_formats(1) this, of "''INPUT''" sample_shell None "sample_proc []"]
  show ?thesis by (simp add: sample_shell_def sample_proc_def)
qed

end
