(* ===== verification/Pf.thy ===== *)
theory Pf
  imports Engine
begin

text \<open>
  The engine for the packet filter of the BSDs (\<open>pf.c\<close>).  The two requests that it makes to the
  device, \<open>DIOCRADDADDRS\<close> and \<open>DIOCKILLSTATES\<close>, are calls of \<open>pf_api\<close> with the structures that the
  engine fills in.  The masks that the engine builds are shown to be those of \<open>parse_addr\<close>.
\<close>

unbundle bit_operations_syntax

section \<open>Structures and device\<close>

abbreviation PF_TABLE_NAME_SIZE :: nat where
  "PF_TABLE_NAME_SIZE \<equiv> 32"

record pfr_addr =
  pfra_u :: "byte list"      \<comment> \<open>the 16 bytes of the union of \<open>pfra_ip4addr\<close> and \<open>pfra_ip6addr\<close>\<close>
  pfra_af :: af
  pfra_net :: byte

record pfioc_table =
  pfrt_name :: "char list"
  pfrio_buffer :: pfr_addr

text \<open>Of \<open>struct pfioc_state_kill\<close>: the family, and address and mask of the source (16 bytes each).\<close>

record pfioc_state_kill =
  psk_af :: af
  psk_addr :: "byte list"
  psk_mask :: "byte list"

record 'w pf_api =
  pf_open_dev :: "string \<Rightarrow> 'w \<Rightarrow> int sysret \<times> 'w"
  pf_close_fd :: "int \<Rightarrow> 'w \<Rightarrow> unit sysret \<times> 'w"
  DIOCRADDADDRS :: "int \<Rightarrow> pfioc_table \<Rightarrow> 'w \<Rightarrow> unit sysret \<times> 'w"
  DIOCKILLSTATES :: "int \<Rightarrow> pfioc_state_kill \<Rightarrow> 'w \<Rightarrow> unit sysret \<times> 'w"

section \<open>Operations\<close>

definition pf_open ::
  "'w libc \<Rightarrow> 'w pf_api \<Rightarrow> string \<Rightarrow> errp \<Rightarrow> 'w proc \<Rightarrow> (ctxt option \<times> errp \<times> 'w proc) outcome" where
  "pf_open lc api tablename error s =
     (case alloc lc 4 s of
        (False, s) \<Rightarrow> andthen (set_malloc_error lc error 4 s) (\<lambda>(error, s). Ret (None, error, s))
      | (True, s) \<Rightarrow>
          (case syscall (pf_open_dev api ''/dev/pf'') s of
             (Err n, s) \<Rightarrow>
               andthen (set_system_error lc error ''failed opening /dev/pf'' [] s)
                 (\<lambda>(error, s). Ret (None, error, s))
           | (Ok fd, s) \<Rightarrow> Ret (Some (Fd_Ctxt fd), error, s)))"

text \<open>
  The mask of the states to kill (lines 96 and 153 to 168): all ones, narrowed for a prefix that is
  shorter than an address.  The shift of the 64-bit constant is cut to 32 bits.
\<close>

definition pf_mask4 :: "bool \<Rightarrow> nat \<Rightarrow> byte list" where
  "pf_mask4 be n = bytes_of_word be (htonl be (ucast (push_bit (32 - n) (0xFFFFFFFFFF :: 64 word))))"

definition pf_mask6 :: "nat \<Rightarrow> byte list outcome" where
  "pf_mask6 n =
     (let q = n div 8; r = n mod 8 in
      andthen (write_at (replicate 16 0) 0 (replicate q 0xFF)) (\<lambda>m.
      if 0 < r then poke m q (ucast (drop_bit r (0xFF00 :: 32 word) AND 0xFF)) else Ret m))"

definition pf_mask :: "bool \<Rightarrow> af \<Rightarrow> nat \<Rightarrow> byte list outcome" where
  "pf_mask be f n =
     (let m = replicate 16 0xFF in
      if f = AF_INET \<and> n < 32 then write_at m 0 (pf_mask4 be n)
      else if f = AF_INET6 \<and> n < 128 then pf_mask6 n
      else Ret m)"

text \<open>
  The loop over the results of \<open>getaddrinfo\<close> (lines 182 to 208), first the \<open>switch\<close> over the family: the
  address is at offset 4 of a \<open>sockaddr_in\<close> and at offset 8 of a \<open>sockaddr_in6\<close>.
\<close>

definition pf_kill_addr ::
  "'w libc \<Rightarrow> pfioc_state_kill \<Rightarrow> byte list \<Rightarrow> errp \<Rightarrow> 'w proc \<Rightarrow> (bool \<times> pfioc_state_kill \<times> errp \<times> 'w proc) outcome" where
  "pf_kill_addr lc psk a error s =
     (case psk_af psk of
        AF_INET \<Rightarrow>
          andthen (write_at (psk_addr psk) 0 (take 4 (drop 4 a))) (\<lambda>m.
          Ret (True, psk\<lparr>psk_addr := m\<rparr>, error, s))
      | AF_INET6 \<Rightarrow>
          if length a < 24 then Undef Out_Of_Bounds
          else
            andthen (write_at (psk_addr psk) 0 (take 16 (drop 8 a))) (\<lambda>m.
            Ret (True, psk\<lparr>psk_addr := m\<rparr>, error, s))
      | AF_OTHER k \<Rightarrow>
          andthen (set_generic_error lc error ''unknown address family %d'' [IArg (int k)] s)
            (\<lambda>(error, s). Ret (False, psk, error, s)))"

text \<open>\<open>last_src\<close> is a \<open>struct sockaddr\<close> of 16 bytes.\<close>

fun pf_kill_loop ::
  "'w libc \<Rightarrow> 'w pf_api \<Rightarrow> int \<Rightarrow> byte list \<Rightarrow> pfioc_state_kill \<Rightarrow> addrinfo list \<Rightarrow> errp \<Rightarrow> 'w proc \<Rightarrow>
   (bool \<times> errp \<times> 'w proc) outcome" where
  "pf_kill_loop lc api fd last_src psk [] error s = Ret (True, error, s)"
| "pf_kill_loop lc api fd last_src psk (resp # rest) error s =
     (case ai_addr resp of
        None \<Rightarrow> pf_kill_loop lc api fd last_src psk rest error s
      | Some a \<Rightarrow>
          if length a < 16 then Undef Out_Of_Bounds
          else if last_src = take 16 a then pf_kill_loop lc api fd last_src psk rest error s
          else
            andthen (pf_kill_addr lc (psk\<lparr>psk_af := ai_family resp\<rparr>) a error s) (\<lambda>(known, psk, error, s).
            if \<not> known then Ret (False, error, s)
            else
              (case syscall (DIOCKILLSTATES api fd psk) s of
                 (Err n, s) \<Rightarrow>
                   andthen (set_system_error lc error ''ioctl(DIOCKILLSTATES) failed'' [] s)
                     (\<lambda>(error, s). Ret (False, error, s))
               | (Ok _, s) \<Rightarrow> pf_kill_loop lc api fd (take 16 a) psk rest error s)))"

text \<open>\<open>pf_handle\<close>: the name is copied with \<open>strlcpy\<close> and cut where it does not fit.\<close>

definition pf_handle ::
  "'w libc \<Rightarrow> 'w netlib \<Rightarrow> 'w pf_api \<Rightarrow> ctxt option \<Rightarrow> string \<Rightarrow> addr_t \<Rightarrow> errp \<Rightarrow> 'w proc \<Rightarrow>
   (bool \<times> errp \<times> 'w proc) outcome" where
  "pf_handle lc nl api c tablename parsed_addr error s =
     (case c of
        Some (Fd_Ctxt fd) \<Rightarrow>
          andthen (strlcpy (replicate PF_TABLE_NAME_SIZE NUL) (tablename @ [NUL]) PF_TABLE_NAME_SIZE) (\<lambda>(_, name).
          let addr = \<lparr>pfra_u = take 16 (sa parsed_addr), pfra_af = fa parsed_addr, pfra_net = netmask parsed_addr\<rparr>;
              io = \<lparr>pfrt_name = name, pfrio_buffer = addr\<rparr> in
          andthen (pf_mask (big_endian lc) (fa parsed_addr) (unat (netmask parsed_addr))) (\<lambda>mask.
          case syscall (DIOCRADDADDRS api fd io) s of
            (Err n, s) \<Rightarrow>
              andthen (set_system_error lc error ''ioctl(DIOCRADDADDRS) failed'' [] s)
                (\<lambda>(error, s). Ret (False, error, s))
          | (Ok _, s) \<Rightarrow>
              andthen (c_str (humanrepr parsed_addr)) (\<lambda>host.
              case getaddrinfo nl host False (world s) of
                (Inl ret, w) \<Rightarrow>
                  andthen (set_generic_error lc error ''getaddrinfo failed: %s''
                      [SArg (gai_strerror lc ret)] (s\<lparr>world := w\<rparr>))
                    (\<lambda>(error, s). Ret (False, error, s))
              | (Inr res, w) \<Rightarrow>
                  pf_kill_loop lc api fd (replicate 16 0xFF)
                    \<lparr>psk_af = AF_OTHER 0, psk_addr = replicate 16 0, psk_mask = mask\<rparr> res error (s\<lparr>world := w\<rparr>))))
      | _ \<Rightarrow> Undef Null_Deref)"

definition pf_close :: "'w libc \<Rightarrow> 'w pf_api \<Rightarrow> ctxt \<Rightarrow> 'w proc \<Rightarrow> (ctxt \<times> 'w proc) outcome" where
  "pf_close lc api c s =
     (case c of
        Fd_Ctxt fd \<Rightarrow>
          if fd \<noteq> - 1 then
            (case syscall (pf_close_fd api fd) s of
               (Err n, s) \<Rightarrow> Ret (Fd_Ctxt (- 1), warnc lc ''closing /dev/pf failed'' [] s)
             | (Ok _, s) \<Rightarrow> Ret (Fd_Ctxt (- 1), s))
          else Ret (c, s)
      | One_Ctxt \<Rightarrow> Undef Null_Deref)"

definition pf_engine :: "'w libc \<Rightarrow> 'w netlib \<Rightarrow> 'w pf_api \<Rightarrow> 'w engine" where
  "pf_engine lc nl api =
     \<lparr>drop_privileges = True, engine_name = ''pf'', e_open = Some (pf_open lc api),
      e_handle = pf_handle lc nl api, e_close = Some (pf_close lc api)\<rparr>"

section \<open>The contract of an engine\<close>

lemma pf_kill_addr_reports:
  "pf_kill_addr lc psk a e s = Ret (known, psk', e', s') \<Longrightarrow> reports lc known e e'"
  by (auto simp: pf_kill_addr_def set_error_defs elim!: andthenE split: af.splits if_splits dest!: error_set_reports)

lemma pf_kill_loop_reports:
  "pf_kill_loop lc api fd src psk res e s = Ret (ok, e', s') \<Longrightarrow> reports lc ok e e'"
proof (induction res arbitrary: src psk e s)
  case Nil
  then show ?case by simp
next
  case (Cons r res)
  from Cons.prems show ?case
    by (auto simp: set_error_defs elim!: andthenE
        split: option.splits if_splits sysret.splits prod.splits
        dest!: error_set_reports pf_kill_addr_reports intro: Cons.IH)
qed

lemma pf_open_reports:
  "pf_open lc api t e s = Ret (c, e', s') \<Longrightarrow> reports lc (c \<noteq> None) e e' \<and> (c \<noteq> None \<longrightarrow> (\<exists>fd. c = Some (Fd_Ctxt fd)))"
  by (auto simp: pf_open_def set_error_defs elim!: andthenE
      split: prod.splits bool.splits sysret.splits dest!: error_set_reports)

lemma pf_handle_reports:
  "pf_handle lc nl api c t a e s = Ret (ok, e', s') \<Longrightarrow> reports lc ok e e'"
  by (auto simp: pf_handle_def set_error_defs Let_def elim!: andthenE
      split: prod.splits option.splits ctxt.splits sysret.splits sum.splits
      dest!: error_set_reports pf_kill_loop_reports)

interpretation pf: engine_contract "pf_engine lc nl api" "formats lc" for lc nl api
proof (unfold_locales, goal_cases)
  case (1 f t s e' s')
  then show ?case using pf_open_reports [of lc api t "Some None" s None] reports_False
    by (auto simp: pf_engine_def)
next
  case (2 f t e s c e' s')
  then show ?case using pf_open_reports [of lc api t e s "Some c"] by (auto simp: pf_engine_def)
next
  case (3 p t a s e' s')
  then show ?case using pf_handle_reports [of lc nl api p t a "Some None" s False] reports_False
    by (auto simp: pf_engine_def)
next
  case (4 p t a e s e' s')
  then show ?case using pf_handle_reports [of lc nl api p t a e s True] by (auto simp: pf_engine_def)
next
  case (5 g c s)
  then show ?case
    by (auto simp: pf_engine_def pf_close_def split: ctxt.splits sysret.splits prod.splits)
qed

section \<open>The masks\<close>

lemma bit_pf_const: "bit (0xFFFFFFFFFF :: 64 word) k \<longleftrightarrow> k < 40"
proof -
  have "(0xFFFFFFFFFF :: 64 word) = mask 40" by (simp add: mask_eq_exp_minus_1)
  then show ?thesis by (simp only: bit_mask_iff possible_bit_word) auto
qed

lemma pf_mask4_bits:
  assumes "n \<le> 32" and "p < 32"
  shows "bit_at (pf_mask4 be n) p \<longleftrightarrow> p < n"
proof -
  define c where "c = (0xFFFFFFFFFF :: 64 word)"
  have c: "bit c k \<longleftrightarrow> k < 40" for k unfolding c_def by (rule bit_pf_const)
  have "bit_at (pf_mask4 be n) p = bit (ucast (push_bit (32 - n) c) :: u32) (31 - p)"
    unfolding pf_mask4_def bytes_of_htonl c_def by (rule bit_at_word_be) (use assms in simp)
  also have "\<dots> = (32 - n \<le> 31 - p \<and> 31 - p - (32 - n) < 40)"
    using assms by (auto simp: bit_ucast_iff bit_push_bit_iff c)
  also have "\<dots> = (p < n)" using assms by auto
  finally show ?thesis .
qed


text \<open>The byte-wise construction of the IPv6 mask gives the network of the all-ones address.\<close>

lemma pf_part_byte:
  assumes "0 < r" and "r < 8"
  shows "ucast (drop_bit r (0xFF00 :: 32 word) AND 0xFF) = lead_ones r"
proof -
  from assms consider "r = 1" | "r = 2" | "r = 3" | "r = 4" | "r = 5" | "r = 6" | "r = 7" by linarith
  then show ?thesis by cases (simp_all add: lead_ones_def mask_eq_exp_minus_1 drop_bit_eq_div)
qed

lemma lead_ones_ends: "lead_ones 0 = 0" "8 \<le> k \<Longrightarrow> lead_ones k = 0xFF"
  by (simp_all add: lead_ones_def mask_eq_exp_minus_1)

lemma network_ones: "i < k \<Longrightarrow> network n (replicate k 0xFF) ! i = lead_ones (n - 8 * i)"
proof -
  have "(0xFF :: byte) = - 1" by simp
  then show "i < k \<Longrightarrow> network n (replicate k 0xFF) ! i = lead_ones (n - 8 * i)"
    by (simp only: network_def) simp
qed

lemma pf_mask6_eq:
  assumes "n < 128"
  shows "pf_mask6 n = Ret (network n (replicate 16 0xFF))"
proof -
  define q r where "q = n div 8" and "r = n mod 8"
  have n: "n = 8 * q + r" "r < 8" "q < 16" using assms by (auto simp: q_def r_def)
  let ?m = "replicate q 0xFF @ replicate (16 - q) (0 :: byte)"
  have m: "write_at (replicate 16 0) 0 (replicate q 0xFF) = Ret ?m" using n by (simp add: write_at_def)
  have nth: "network n (replicate 16 0xFF) ! i = (if i < q then 0xFF else if i = q then lead_ones r else 0)" if "i < 16" for i
    using n that lead_ones_ends by (auto simp: network_ones)
  have "(if 0 < r then ?m[q := lead_ones r] else ?m) = network n (replicate 16 0xFF)"
    using n lead_ones_ends(1) nth
    by (intro nth_equalityI) (auto simp: nth_append nth_list_update)
  moreover have "pf_mask6 n = Ret (if 0 < r then ?m[q := lead_ones r] else ?m)"
    using n m pf_part_byte [of r] by (simp add: pf_mask6_def poke_def q_def [symmetric] r_def [symmetric])
  ultimately show ?thesis by simp
qed

text \<open>Both masks of \<open>pf_handle\<close> fulfil the contract of a network mask.\<close>

definition pf_mask_v4 :: "bool \<Rightarrow> nat \<Rightarrow> byte list outcome" where
  "pf_mask_v4 be n = andthen (pf_mask be AF_INET n) (\<lambda>m. Ret (take 4 m))"

lemma pf_mask_v4_eq:
  assumes "n \<le> 32"
  shows "pf_mask_v4 be n = Ret (if n < 32 then pf_mask4 be n else replicate 4 0xFF)"
  using assms by (auto simp: pf_mask_v4_def pf_mask_def write_at_def pf_mask4_def numeral_eq_Suc)

lemma pf_mask_v6_eq:
  assumes "n \<le> 128"
  shows "pf_mask be AF_INET6 n = Ret (network n (replicate 16 0xFF))"
proof (cases "n < 128")
  case True
  then show ?thesis by (simp add: pf_mask_def pf_mask6_eq)
next
  case False
  have "replicate 16 0xFF = network n (replicate 16 0xFF)"
    using False lead_ones_ends(2) by (intro nth_equalityI) (auto simp: network_ones)
  then show ?thesis using False by (simp add: pf_mask_def)
qed

interpretation pf_mask4: prefix_mask "pf_mask_v4 be" 4 for be
proof
  fix n :: nat assume n: "n \<le> 8 * 4"
  show "\<exists>m. pf_mask_v4 be n = Ret m \<and> length m = 4 \<and> (\<forall>p<8 * 4. bit_at m p = (p < n))"
    using n pf_mask4_bits [of n _ be] bit_at_replicate(1) [of _ 4] by (auto simp: pf_mask_v4_eq pf_mask4_def)
qed

interpretation pf_mask6: prefix_mask "pf_mask be AF_INET6" 16 for be
proof
  fix n :: nat assume n: "n \<le> 8 * 16"
  show "\<exists>m. pf_mask be AF_INET6 n = Ret m \<and> length m = 16 \<and> (\<forall>p<8 * 16. bit_at m p = (p < n))"
    using n bit_at_network [of _ "replicate 16 0xFF" n] bit_at_replicate(1) [of _ 16] by (auto simp: pf_mask_v6_eq)
qed


section \<open>The tables of the packet filter\<close>

text \<open>
  What \<open>pf(4)\<close> documents: a successful \<open>DIOCRADDADDRS\<close> adds the entry to the table of that name; an
  address matches an entry of its family when it lies in the network of the entry.  The other
  calls of the engine do not touch the tables.
\<close>

type_synonym 'w pf_tables = "'w \<Rightarrow> (string \<times> pfr_addr) set"

definition pf_add_law :: "'w pf_api \<Rightarrow> 'w pf_tables \<Rightarrow> bool" where
  "pf_add_law api tables \<longleftrightarrow>
     (\<forall>fd io name w w'. c_str (pfrt_name io) = Ret name \<and> DIOCRADDADDRS api fd io w = (Ok (), w') \<longrightarrow>
        tables w' = insert (name, pfrio_buffer io) (tables w)) \<and>
     (\<forall>fd io w n w'. DIOCRADDADDRS api fd io w = (Err n, w') \<longrightarrow> tables w' = tables w)"

definition pf_frame_law :: "'w libc \<Rightarrow> 'w netlib \<Rightarrow> 'w pf_api \<Rightarrow> ('w \<Rightarrow> 'o) \<Rightarrow> bool" where
  "pf_frame_law lc nl api tables \<longleftrightarrow>
     (\<forall>fd psk w. tables (snd (DIOCKILLSTATES api fd psk w)) = tables w) \<and>
     (\<forall>host nh w. tables (snd (getaddrinfo nl host nh w)) = tables w) \<and>
     (\<forall>n w. tables (snd (malloc lc n w)) = tables w)"

definition pf_matches :: "pfr_addr \<Rightarrow> af \<Rightarrow> byte list \<Rightarrow> bool" where
  "pf_matches e f ip \<longleftrightarrow> pfra_af e = f \<and> same_network (unat (pfra_net e)) (take (length ip) (pfra_u e)) ip"

definition pf_banned :: "'w pf_tables \<Rightarrow> 'w \<Rightarrow> string \<Rightarrow> af \<Rightarrow> byte list \<Rightarrow> bool" where
  "pf_banned tables w t f ip \<longleftrightarrow> (\<exists>e. (t, e) \<in> tables w \<and> pf_matches e f ip)"

section \<open>Lemmas on pf\_handle\<close>

lemma pf_frameD:
  assumes "pf_frame_law lc nl api tables"
  shows "syscall (DIOCKILLSTATES api fd psk) s = (r, s') \<Longrightarrow> tables (world s') = tables (world s)"
    and "getaddrinfo nl host nh w = (g, w') \<Longrightarrow> tables w' = tables w"
    and "error_set lc e m s = Ret (e', s') \<Longrightarrow> tables (world s') = tables (world s)"
proof -
  show "tables (world s') = tables (world s)" if "syscall (DIOCKILLSTATES api fd psk) s = (r, s')"
    using that assms unfolding pf_frame_law_def syscall_def
    by (auto split: prod.splits sysret.splits) (metis snd_conv)+
  show "tables w' = tables w" if "getaddrinfo nl host nh w = (g, w')"
    using that assms unfolding pf_frame_law_def by (metis snd_conv)
  show "tables (world s') = tables (world s)" if "error_set lc e m s = Ret (e', s')"
    using that assms unfolding pf_frame_law_def error_set_def alloc_def
    by (auto split: option.splits prod.splits bool.splits) (metis snd_conv)+
qed

lemma pf_frame_alloc:
  assumes "pf_frame_law lc nl api tables" and "alloc lc n s = (r, s')"
  shows "tables (world s') = tables (world s)"
proof -
  have "world s' = snd (malloc lc n (world s))" using assms(2) by (auto simp: alloc_def split: prod.splits)
  then show ?thesis using assms(1) by (simp add: pf_frame_law_def)
qed

lemma pf_kill_addr_tables:
  assumes "pf_frame_law lc nl api tables" and "pf_kill_addr lc psk a e s = Ret (known, psk', e', s')"
  shows "tables (world s') = tables (world s)"
  using assms(2)
  by (auto simp: pf_kill_addr_def set_error_defs elim!: andthenE split: af.splits if_splits dest!: pf_frameD(3) [OF assms(1)])

lemma pf_kill_loop_tables:
  assumes "pf_frame_law lc nl api tables"
  shows "pf_kill_loop lc api fd src psk res e s = Ret (ok, e', s') \<Longrightarrow> tables (world s') = tables (world s)"
proof (induction res arbitrary: src psk e s)
  case Nil
  then show ?case by simp
next
  case (Cons r res)
  show ?case
  proof (cases "\<exists>a. ai_addr r = Some a \<and> src \<noteq> take 16 a")
    case False
    then show ?thesis using Cons by (auto split: option.splits if_splits)
  next
    case True
    then obtain a where a: "ai_addr r = Some a" "src \<noteq> take 16 a" by blast
    with Cons.prems obtain known psk1 e1 s1 where k: "pf_kill_addr lc (psk\<lparr>psk_af := ai_family r\<rparr>) a e s = Ret (known, psk1, e1, s1)"
      by (auto elim!: andthenE split: if_splits)
    obtain c s2 where k2: "syscall (DIOCKILLSTATES api fd psk1) s1 = (c, s2)" by (cases "syscall (DIOCKILLSTATES api fd psk1) s1")
    have "tables (world s2) = tables (world s)" "tables (world s1) = tables (world s)"
      using pf_kill_addr_tables [OF assms k] pf_frameD(1) [OF assms k2] by simp_all
    then show ?thesis using Cons.prems a k k2 pf_frameD(3) [OF assms, of e1 _ s2]
      by (cases known; cases c) (auto simp: set_error_defs elim!: andthenE split: if_splits dest: Cons.IH)
  qed
qed

lemma pf_name:
  assumes "NUL \<notin> set tablename"
  shows "\<exists>name. strlcpy (replicate PF_TABLE_NAME_SIZE NUL) (tablename @ [NUL]) PF_TABLE_NAME_SIZE = Ret (length tablename, name) \<and>
    c_str name = Ret (take (PF_TABLE_NAME_SIZE - 1) tablename)"
proof -
  have "NUL \<notin> set (take (PF_TABLE_NAME_SIZE - 1) tablename)" using assms in_set_takeD by fast
  then show ?thesis
    using strlcpy_eq [OF assms, of PF_TABLE_NAME_SIZE "replicate PF_TABLE_NAME_SIZE NUL" "[]"] c_str_append_NUL by auto
qed

text \<open>A call that gets past the first request has added one entry, to the table whose name is cut to
  31 characters.\<close>

lemma pf_handle_adds:
  assumes "pf_add_law api tables" and "pf_frame_law lc nl api tables" and "NUL \<notin> set tablename" and "length (sa addr) = 16"
    and "pf_handle lc nl api c tablename addr error s = Ret (ok, error', s')"
  shows "tables (world s') = tables (world s) \<and> \<not> ok \<or>
    tables (world s') = insert (take (PF_TABLE_NAME_SIZE - 1) tablename,
      \<lparr>pfra_u = sa addr, pfra_af = fa addr, pfra_net = netmask addr\<rparr>) (tables (world s))"
proof -
  let ?entry = "\<lparr>pfra_u = sa addr, pfra_af = fa addr, pfra_net = netmask addr\<rparr>"
  obtain fd where c: "c = Some (Fd_Ctxt fd)" using assms(5) by (auto simp: pf_handle_def split: option.splits ctxt.splits)
  obtain name where name: "strlcpy (replicate PF_TABLE_NAME_SIZE NUL) (tablename @ [NUL]) PF_TABLE_NAME_SIZE = Ret (length tablename, name)"
    "c_str name = Ret (take (PF_TABLE_NAME_SIZE - 1) tablename)" using pf_name [OF assms(3)] by blast
  let ?io = "\<lparr>pfrt_name = name, pfrio_buffer = ?entry\<rparr>"
  obtain r w where io: "DIOCRADDADDRS api fd ?io (world s) = (r, w)" by (cases "DIOCRADDADDRS api fd ?io (world s)")
  show ?thesis
  proof (cases r)
    case (Ok u)
    then have "tables w = insert (take (PF_TABLE_NAME_SIZE - 1) tablename, ?entry) (tables (world s))"
      using assms(1) io name(2) unfolding pf_add_law_def by (metis old.unit.exhaust pfioc_table.select_convs(1,2))
    then show ?thesis using assms(4,5) c name(1) io Ok
      by (auto simp: pf_handle_def syscall_def set_error_defs elim!: andthenE split: sum.splits prod.splits
          dest!: pf_frameD [OF assms(2)] pf_kill_loop_tables [OF assms(2)])
  next
    case (Err n)
    then have "tables w = tables (world s)" using assms(1) io unfolding pf_add_law_def by blast
    then show ?thesis using assms(4,5) c name(1) io Err
      by (auto simp: pf_handle_def syscall_def set_error_defs elim!: andthenE dest!: pf_frameD [OF assms(2)])
  qed
qed


text \<open>With memory and sane results of the resolver, \<open>pf_handle\<close> is defined on every well-formed address.\<close>

lemma pf_kill_addr_defined:
  assumes "formats lc" and "allocates lc" and "length (psk_addr psk) = 16" and "16 \<le> length a"
    and "psk_af psk = AF_INET6 \<Longrightarrow> 28 \<le> length a"
  shows "\<exists>known psk' e' s'. pf_kill_addr lc psk a (Some None) s = Ret (known, psk', e', s') \<and>
    (known \<longrightarrow> e' = Some None \<and> length (psk_addr psk') = 16) \<and> stderr_log s' = stderr_log s"
proof (cases "psk_af psk")
  case (AF_OTHER k)
  obtain w where "set_generic_error lc (Some None) ''unknown address family %d'' [IArg (int k)] s =
      Ret (Some (Some (''unknown address family %d'', [IArg (int k)])), s\<lparr>world := w\<rparr>)"
    using set_generic_error_first [OF assms(1,2)] by blast
  then show ?thesis using AF_OTHER by (auto simp: pf_kill_addr_def)
qed (use assms in \<open>auto simp: pf_kill_addr_def write_at_def\<close>)

lemma pf_kill_loop_defined:
  assumes "formats lc" and "allocates lc"
  shows "length (psk_addr psk) = 16 \<Longrightarrow> list_all sane_addr res \<Longrightarrow>
    \<exists>ok e' s'. pf_kill_loop lc api fd src psk res (Some None) s = Ret (ok, e', s') \<and> stderr_log s' = stderr_log s"
proof (induction res arbitrary: src psk s)
  case Nil
  then show ?case by auto
next
  case (Cons r res)
  have tail: "\<exists>ok e' s'. pf_kill_loop lc api fd src' psk' res (Some None) s1 = Ret (ok, e', s') \<and> stderr_log s' = stderr_log s1"
    if "length (psk_addr psk') = 16" for src' psk' s1
    using Cons.IH [OF that] Cons.prems(2) by simp
  have sane: "sane_addr r" using Cons.prems(2) by simp
  show ?case
  proof (cases "\<exists>a. ai_addr r = Some a \<and> src \<noteq> take 16 a")
    case False
    then show ?thesis using tail [OF Cons.prems(1), of src s] sane by (auto simp: sane_addr_def split: option.splits)
  next
    case True
    then obtain a where a: "ai_addr r = Some a" "src \<noteq> take 16 a" by blast
    then have len: "16 \<le> length a" "ai_family r = AF_INET6 \<Longrightarrow> 28 \<le> length a" using sane by (auto simp: sane_addr_def)
    obtain known psk1 e1 s1 where k: "pf_kill_addr lc (psk\<lparr>psk_af := ai_family r\<rparr>) a (Some None) s = Ret (known, psk1, e1, s1)"
      "known \<longrightarrow> e1 = Some None \<and> length (psk_addr psk1) = 16" "stderr_log s1 = stderr_log s"
      using pf_kill_addr_defined [OF assms, of "psk\<lparr>psk_af := ai_family r\<rparr>" a s] Cons.prems(1) len by auto
    obtain c s2 where k2: "syscall (DIOCKILLSTATES api fd psk1) s1 = (c, s2)" by (cases "syscall (DIOCKILLSTATES api fd psk1) s1")
    then have log: "stderr_log s2 = stderr_log s" using syscall_frame(2) [of "DIOCKILLSTATES api fd psk1" s1] k(3) by simp
    obtain m w where "set_system_error lc (Some None) ''ioctl(DIOCKILLSTATES) failed'' [] s2 = Ret (Some (Some m), s2\<lparr>world := w\<rparr>)"
      using set_system_error_first [OF assms] by blast
    then show ?thesis using a len(1) k k2 log tail [of psk1 "take 16 a" s2]
      by (cases known; cases c) auto
  qed
qed

lemma pf_mask_defined:
  assumes "addr_wf addr"
  shows "\<exists>m. pf_mask be (fa addr) (unat (netmask addr)) = Ret m"
proof -
  have "fa addr = AF_INET \<and> unat (netmask addr) \<le> 32 \<or> fa addr = AF_INET6 \<and> unat (netmask addr) \<le> 128"
    using assms by (auto simp: addr_wf_def word_le_nat_alt)
  then show ?thesis
  proof (elim disjE conjE)
    assume "fa addr = AF_INET" "unat (netmask addr) \<le> 32"
    then show ?thesis by (auto simp: pf_mask_def write_at_def pf_mask4_def Let_def)
  qed (simp add: pf_mask_v6_eq)
qed

lemma pf_handle_defined:
  assumes "formats lc" and "allocates lc" and "gai_sane nl" and "addr_wf addr" and "NUL \<notin> set t"
  shows "\<exists>ok e' s'. pf_handle lc nl api (Some (Fd_Ctxt fd)) t addr (Some None) s = Ret (ok, e', s') \<and> stderr_log s' = stderr_log s"
proof -
  have sa: "length (sa addr) = 16" using assms(4) by (simp add: addr_wf_def)
  obtain host where host: "c_str (humanrepr addr) = Ret host" using assms(4) by (auto simp: addr_wf_def defined_iff)
  obtain name where name: "strlcpy (replicate PF_TABLE_NAME_SIZE NUL) (t @ [NUL]) PF_TABLE_NAME_SIZE = Ret (length t, name)"
    using pf_name [OF assms(5)] by blast
  obtain mask where mask: "pf_mask (big_endian lc) (fa addr) (unat (netmask addr)) = Ret mask"
    using pf_mask_defined [OF assms(4)] by blast
  let ?io = "\<lparr>pfrt_name = name, pfrio_buffer = \<lparr>pfra_u = sa addr, pfra_af = fa addr, pfra_net = netmask addr\<rparr>\<rparr>"
  obtain r s1 where io: "syscall (DIOCRADDADDRS api fd ?io) s = (r, s1)" by (cases "syscall (DIOCRADDADDRS api fd ?io) s")
  then have log: "stderr_log s1 = stderr_log s" using syscall_frame(2) [of "DIOCRADDADDRS api fd ?io" s] by simp
  obtain m w where e1: "set_system_error lc (Some None) ''ioctl(DIOCRADDADDRS) failed'' [] s1 = Ret (Some (Some m), s1\<lparr>world := w\<rparr>)"
    using set_system_error_first [OF assms(1,2)] by blast
  obtain g w2 where g: "getaddrinfo nl host False (world s1) = (g, w2)" by (cases "getaddrinfo nl host False (world s1)")
  let ?s2 = "s1\<lparr>world := w2\<rparr>"
  have e2: "\<exists>w. set_generic_error lc (Some None) f args ?s2 = Ret (Some (Some (f, args)), ?s2\<lparr>world := w\<rparr>)" for f args
    using set_generic_error_first [OF assms(1,2)] .
  have sane: "list_all sane_addr res" if "g = Inr res" for res using assms(3) g that unfolding gai_sane_def by blast
  have loop: "\<exists>ok e' s'. pf_kill_loop lc api fd (replicate 16 0xFF) \<lparr>psk_af = AF_OTHER 0, psk_addr = replicate 16 0, psk_mask = mask\<rparr>
      res (Some None) ?s2 = Ret (ok, e', s') \<and> stderr_log s' = stderr_log s" if "g = Inr res" for res
    using pf_kill_loop_defined [OF assms(1,2), of "\<lparr>psk_af = AF_OTHER 0, psk_addr = replicate 16 0, psk_mask = mask\<rparr>" res api fd
        "replicate 16 0xFF" ?s2] sane [OF that] log by simp
  show ?thesis
  proof (cases r)
    case (Err n)
    then show ?thesis using sa name mask io e1 log by (auto simp: pf_handle_def)
  next
    case (Ok u)
    show ?thesis
    proof (cases g)
      case (Inl ret)
      then show ?thesis using Ok sa name mask io host g log e2 [of "''getaddrinfo failed: %s''" "[SArg (gai_strerror lc ret)]"]
        by (auto simp: pf_handle_def)
    next
      case (Inr res)
      then show ?thesis using Ok sa name mask io host g loop [OF Inr] by (auto simp: pf_handle_def)
    qed
  qed
qed

section \<open>Properties\<close>

text \<open>C21: the masks that \<open>pf_handle\<close> builds with a 64-bit shift (IPv4) and byte by byte (IPv6) are the mask
  that \<open>parse_addr\<close> builds word by word, on machines of either byte order.\<close>

theorem pf_masks_are_parse_masks:
  "(n \<le> 32 \<longrightarrow> andthen (pf_mask be AF_INET n) (\<lambda>m. Ret (take 4 m)) = andthen (netmask_bytes be n) (\<lambda>m. Ret (take 4 m))) \<and>
   (n \<le> 128 \<longrightarrow> pf_mask be AF_INET6 n = netmask_bytes be n)"
proof (cases "n \<le> 128")
  case True
  then obtain m where m: "netmask_bytes be n = Ret m" "length m = 16" "\<forall>p<8 * 16. bit_at m p \<longleftrightarrow> p < n"
    using parse_mask.mk_spec [of n be] by auto
  have "bit_at (take 4 m) p \<longleftrightarrow> p < n" if "p < 8 * 4" for p
    using m(3) that less_mult_imp_div_less [of p 4 8] by (auto simp: bit_at_def)
  then have "pf_mask_v4 be n = Ret (take 4 m)" if "n \<le> 32"
    using pf_mask4.mk_unique [of n "take 4 m"] m(2) that by simp
  moreover have "pf_mask be AF_INET6 n = Ret m" using pf_mask6.mk_unique [of n m] True m(2,3) by simp
  ultimately show ?thesis using m(1) by (simp add: pf_mask_v4_def)
qed simp

theorem pf_masks_are_parse_masks_witness:
  "andthen (pf_mask False AF_INET 20) (\<lambda>m. Ret (take 4 m)) = andthen (netmask_bytes False 20) (\<lambda>m. Ret (take 4 m)) \<and>
   pf_mask True AF_INET6 57 = netmask_bytes True 57"
  using pf_masks_are_parse_masks [of 20 False] pf_masks_are_parse_masks [of 57 True] by simp

lemma pf_kill_addr_log:
  "pf_kill_addr lc psk a e s = Ret (known, psk', e', s') \<Longrightarrow> stderr_log s' = stderr_log s"
  by (auto simp: pf_kill_addr_def set_error_defs elim!: andthenE split: af.splits if_splits dest!: error_set_keeps)

lemma pf_kill_loop_log:
  "pf_kill_loop lc api fd src psk res e s = Ret (ok, e', s') \<Longrightarrow> stderr_log s' = stderr_log s"
proof (induction res arbitrary: src psk e s)
  case Nil
  then show ?case by simp
next
  case (Cons r res)
  from Cons.prems show ?case
    by (auto simp: set_error_defs elim!: andthenE
        split: option.splits if_splits sysret.splits prod.splits
        dest!: error_set_keeps pf_kill_addr_log syscall_Ok syscall_Err Cons.IH)
qed

lemma pf_handle_log:
  "pf_handle lc nl api c t a e s = Ret (ok, e', s') \<Longrightarrow> stderr_log s' = stderr_log s"
  by (auto simp: pf_handle_def set_error_defs Let_def elim!: andthenE
      split: prod.splits option.splits ctxt.splits sysret.splits sum.splits
      dest!: error_set_keeps pf_kill_loop_log syscall_Ok syscall_Err)

lemma pf_handle_network:
  assumes "pf_add_law api tables" and "pf_frame_law lc nl api tables" and "NUL \<notin> set tablename" and "addr_wf addr"
    and "pf_handle lc nl api c tablename addr error s = Ret (True, error', s')" and "length ip = sa_size addr"
  shows "pf_banned tables (world s') t f ip \<longleftrightarrow>
    pf_banned tables (world s) t f ip \<or>
    t = take 31 tablename \<and> f = fa addr \<and> same_network (unat (netmask addr)) (take (sa_size addr) (sa addr)) ip"
proof -
  have "length (sa addr) = 16" using assms(4) by (simp add: addr_wf_def)
  from pf_handle_adds [OF assms(1-3) this assms(5)]
  have "tables (world s') = insert (take 31 tablename,
      \<lparr>pfra_u = sa addr, pfra_af = fa addr, pfra_net = netmask addr\<rparr>) (tables (world s))" by simp
  then show ?thesis using assms(6) by (auto simp: pf_banned_def pf_matches_def)
qed

text \<open>What \<open>pf_handle\<close> bans.  A successful call on a well-formed address makes exactly the addresses of
  its family inside its network match the table, on top of those that matched before.  The table
  is the one whose name is the first 31 characters of the name given.\<close>

lemma pf_handle_bans_network:
  assumes "pf_add_law api tables" and "pf_frame_law lc nl api tables" and "NUL \<notin> set tablename" and "addr_wf addr"
    and "pf_handle lc nl api c tablename addr error s = Ret (True, error', s')" and "length ip = sa_size addr"
  shows "pf_banned tables (world s') t f ip \<longleftrightarrow>
    pf_banned tables (world s) t f ip \<or>
    t = take 31 tablename \<and> f = fa addr \<and> same_network (unat (netmask addr)) (take (sa_size addr) (sa addr)) ip"
  using assms by (rule pf_handle_network)


definition sample_pf_api :: "(string \<times> pfr_addr) set pf_api" where
  "sample_pf_api =
     \<lparr>pf_open_dev = (\<lambda>dev w. (Ok 3, w)), pf_close_fd = (\<lambda>fd w. (Ok (), w)),
      DIOCRADDADDRS = (\<lambda>fd io w. case c_str (pfrt_name io) of
          Ret name \<Rightarrow> (Ok (), insert (name, pfrio_buffer io) w) | Undef _ \<Rightarrow> (Err 22, w)),
      DIOCKILLSTATES = (\<lambda>fd psk w. (Ok (), w))\<rparr>"

lemma sample_pf_laws:
  "pf_add_law sample_pf_api (\<lambda>w. w)" "pf_frame_law sample_libc sample_netlib sample_pf_api (\<lambda>w. w)"
  by (auto simp: pf_add_law_def sample_pf_api_def pf_frame_law_def sample_libc_def sample_netlib_def split: outcome.splits option.splits)

definition sample_addr :: addr_t where
  "sample_addr = addr_of AF_INET ''192.0.2.77'' [192, 0, 2, 77] 24"

lemma sample_addr_wf: "addr_wf sample_addr"
  unfolding sample_addr_def by (rule addr_of_wf) simp_all

lemma sample_pf_handle:
  "\<exists>s'. pf_handle sample_libc sample_netlib sample_pf_api (Some (Fd_Ctxt 3)) ''ban'' sample_addr (Some None) (sample_proc {}) =
     Ret (True, Some None, s')"
proof -
  obtain name where name: "strlcpy (replicate PF_TABLE_NAME_SIZE NUL) (''ban'' @ [NUL]) PF_TABLE_NAME_SIZE = Ret (length ''ban'', name)"
    "c_str name = Ret (take (PF_TABLE_NAME_SIZE - 1) ''ban'')" using pf_name [of "''ban''"] by auto
  have host: "c_str (humanrepr sample_addr) = Ret ''192.0.2.77''" by (simp add: sample_addr_def addr_of_def c_str_def)
  have gai: "getaddrinfo sample_netlib ''192.0.2.77'' False (w :: (string \<times> pfr_addr) set) =
      (Inr [\<lparr>ai_family = AF_INET, ai_addr = Some ([16, 2, 0, 0] @ [192, 0, 2, 77] @ replicate 8 0)\<rparr>], w)" for w
    by (simp add: sample_netlib_def dotted_quad_def octet_def is_digit_def)
  obtain m where "pf_mask (big_endian (sample_libc :: (string \<times> pfr_addr) set libc)) (fa sample_addr) (unat (netmask sample_addr)) = Ret m"
    by (simp add: sample_addr_def addr_of_def pf_mask_def write_at_def pf_mask4_def)
  with name host gai show ?thesis
    by (simp add: pf_handle_def syscall_def sample_pf_api_def pf_kill_addr_def write_at_def)
qed

lemma pf_handle_bans_network_witness:
  "\<exists>s'. pf_handle sample_libc sample_netlib sample_pf_api (Some (Fd_Ctxt 3)) ''ban'' sample_addr (Some None) (sample_proc {}) =
      Ret (True, Some None, s') \<and>
    pf_banned (\<lambda>w. w) (world s') ''ban'' AF_INET [192, 0, 2, 99] \<and> \<not> pf_banned (\<lambda>w. w) (world s') ''ban'' AF_INET [192, 0, 3, 77]"
proof -
  obtain s' where h: "pf_handle sample_libc sample_netlib sample_pf_api (Some (Fd_Ctxt 3)) ''ban'' sample_addr (Some None) (sample_proc {}) =
      Ret (True, Some None, s')" using sample_pf_handle by blast
  have "NUL \<notin> set ''ban''" by simp
  note bans = pf_handle_bans_network [OF sample_pf_laws this sample_addr_wf h, where t = "''ban''" and f = AF_INET]
  have net: "take 4 (sa sample_addr) = [192, 0, 2, 0]" "unat (netmask sample_addr) = 24" "fa sample_addr = AF_INET"
    "sa_size sample_addr = 4"
    by (simp_all add: sample_addr_def addr_of_def network_def lead_ones_def upt_rec mask_eq_exp_minus_1)
  have "same_network 24 [192, 0, 2, 0] [192, 0, 2, 99]" "\<not> same_network 24 [192, 0, 2, 0] [192, 0, 3, 77]"
    by (simp_all add: same_network_def bit_at_def upt_rec bit_iff_odd)
  with h bans [of "[192, 0, 2, 99]"] bans [of "[192, 0, 3, 77]"] show ?thesis
    by (simp add: net pf_banned_def sample_proc_def)
qed

text \<open>Of two consecutive results of \<open>getaddrinfo\<close> whose first 16 bytes agree, only the first has its
  states killed.  For IPv4 these bytes hold the whole address, so duplicates are skipped; for IPv6
  they hold its first half, so a second host of the same /64 is skipped as well.\<close>

lemma pf_kill_skips_same_prefix:
  assumes "ai_addr r1 = Some a" and "ai_addr r2 = Some b" and "take 16 a = take 16 b" and "16 \<le> length b"
  shows "pf_kill_loop lc api fd src psk (r1 # r2 # res) e s = pf_kill_loop lc api fd src psk (r1 # res) e s"
proof -
  have "\<not> length a < 16" using arg_cong [OF assms(3), of length] assms(4) by auto
  moreover have "pf_kill_loop lc api fd (take 16 a) p (r2 # res) e2 s2 = pf_kill_loop lc api fd (take 16 a) p res e2 s2" for p e2 s2
    using assms by simp
  ultimately show ?thesis using assms
    by (cases "pf_kill_addr lc (psk\<lparr>psk_af := ai_family r1\<rparr>) a e s") (auto split: prod.splits sysret.splits)
qed

lemma pf_kill_skips_same_prefix_witness:
  "pf_kill_loop sample_libc sample_pf_api 3 (replicate 16 0xFF) \<lparr>psk_af = AF_OTHER 0, psk_addr = replicate 16 0, psk_mask = replicate 16 0xFF\<rparr>
     [\<lparr>ai_family = AF_INET6, ai_addr = Some ([28, 28] @ replicate 25 0 @ [1])\<rparr>,
      \<lparr>ai_family = AF_INET6, ai_addr = Some ([28, 28] @ replicate 21 0 @ [1, 0, 0, 0, 0])\<rparr>] None (sample_proc {}) =
   pf_kill_loop sample_libc sample_pf_api 3 (replicate 16 0xFF) \<lparr>psk_af = AF_OTHER 0, psk_addr = replicate 16 0, psk_mask = replicate 16 0xFF\<rparr>
     [\<lparr>ai_family = AF_INET6, ai_addr = Some ([28, 28] @ replicate 25 0 @ [1])\<rparr>] None (sample_proc {})"
  by (rule pf_kill_skips_same_prefix [where a = "[28, 28] @ replicate 25 0 @ [1]" and b = "[28, 28] @ replicate 21 0 @ [1, 0, 0, 0, 0]"])
    simp_all

end
