(* ===== verification/Engines.thy ===== *)
theory Engines
  imports Command Pf
begin

text \<open>
  The registry of the engines (\<open>engine.c\<close>).  Which engines are linked in is decided when the program
  is built: a field of \<open>build\<close> is \<open>Some\<close> engine when the \<open>WITH_\<close> macro of that name is defined.
\<close>

record 'w build =
  with_pf :: "'w engine option"
  with_npf :: "'w engine option"
  with_nftables :: "'w engine option"
  with_ipset :: "'w engine option"
  with_iptables :: "'w engine option"

text \<open>The array ends with a null pointer, which the list leaves out.\<close>

definition available_engines :: "'w build \<Rightarrow> 'w engine list" where
  "available_engines b =
     List.map_filter (\<lambda>e. e) [with_pf b, with_npf b, with_nftables b, with_ipset b, with_iptables b] @ [dummy_engine]"

definition get_default_engine :: "'w build \<Rightarrow> 'w engine option" where
  "get_default_engine b = (case available_engines b of [] \<Rightarrow> None | e # _ \<Rightarrow> Some e)"

fun find_engine :: "'w engine list \<Rightarrow> string \<Rightarrow> 'w engine option" where
  "find_engine [] name = None"
| "find_engine (e # es) name = (if engine_name e = name then Some e else find_engine es name)"

definition get_engine_by_name :: "'w build \<Rightarrow> string \<Rightarrow> 'w engine option" where
  "get_engine_by_name b name = find_engine (available_engines b) name"

text \<open>The engines of this development, by platform: the BSDs, and Linux with or without \<open>ipset\<close>.\<close>

definition bsd_build :: "'w libc \<Rightarrow> 'w netlib \<Rightarrow> 'w pf_api \<Rightarrow> 'w build" where
  "bsd_build lc nl api =
     \<lparr>with_pf = Some (pf_engine lc nl api), with_npf = None, with_nftables = None, with_ipset = None, with_iptables = None\<rparr>"

definition linux_build :: "'w libc \<Rightarrow> 'w shell \<Rightarrow> bool \<Rightarrow> 'w build" where
  "linux_build lc sh has_ipset =
     \<lparr>with_pf = None, with_npf = None, with_nftables = None,
      with_ipset = (if has_ipset then Some (ipset_engine lc sh) else None), with_iptables = Some iptables_engine\<rparr>"

section \<open>Lemmas\<close>

lemma find_engine_Some:
  "find_engine es name = Some e \<Longrightarrow> e \<in> set es \<and> engine_name e = name"
  by (induction es) (auto split: if_splits)

lemma find_engine_None: "find_engine es name = None \<longleftrightarrow> name \<notin> engine_name ` set es"
  by (induction es) auto

lemma find_engine_distinct:
  "distinct (map engine_name es) \<Longrightarrow> e \<in> set es \<Longrightarrow> find_engine es (engine_name e) = Some e"
  by (induction es) auto

lemma engine_names [simp]:
  "engine_name dummy_engine = ''dummy''" "engine_name (pf_engine lc nl api) = ''pf''"
  "engine_name (ipset_engine lc sh) = ''ipset''" "engine_name iptables_engine = ''iptables''"
  by (simp_all add: dummy_engine_def pf_engine_def ipset_engine_def iptables_engine_def)

section \<open>Properties\<close>

text \<open>The registry.  There always is a default engine, so that the daemon's message \<open>no engine
  available\<close> cannot occur; where the names of the linked engines differ, \<open>get_engine_by_name\<close> gives
  an engine exactly for their names, and the one that has the name; \<open>dummy\<close> is always there.\<close>

lemma engine_registry_lookup:
  assumes "distinct (map engine_name (available_engines b))"
  shows "get_default_engine b \<noteq> None \<and>
    (\<forall>name e. get_engine_by_name b name = Some e \<longleftrightarrow> e \<in> set (available_engines b) \<and> engine_name e = name) \<and>
    get_engine_by_name b ''dummy'' = Some dummy_engine"
proof -
  have "dummy_engine \<in> set (available_engines b)" by (simp add: available_engines_def)
  moreover from this have "get_default_engine b \<noteq> None"
    by (auto simp: get_default_engine_def split: list.splits)
  ultimately show ?thesis
    using find_engine_Some find_engine_distinct [OF assms] by (fastforce simp: get_engine_by_name_def)
qed

lemma engine_registry_lookup_witness:
  "get_engine_by_name (linux_build sample_libc sample_shell True) ''ipset'' = Some (ipset_engine sample_libc sample_shell)"
proof -
  have "distinct (map engine_name (available_engines (linux_build sample_libc sample_shell True)))"
    by (simp add: available_engines_def linux_build_def map_filter_def)
  from engine_registry_lookup [OF this] show ?thesis
    by (auto simp: available_engines_def linux_build_def map_filter_def)
qed

end
