(* ===== verification/Getopt.thy ===== *)
theory Getopt
  imports Prelude
begin

text \<open>
  \<open>getopt_long\<close> as \<open>banipd.c\<close> uses it: options with and without an argument, short ones that may be joined to
  their argument and to each other, long ones that may be abbreviated, and operands that may stand
  between the options.  A call of the library returns the next option; the model returns the whole
  list of what the calls return, which does not depend on what the program does between them.
\<close>

section \<open>Options\<close>

datatype has_arg = No_Argument | Required_Argument

text \<open>A row of the table of long options: name, argument and the character that the call returns.\<close>

type_synonym long_option = "string \<times> has_arg \<times> char"

text \<open>What a call returns: the character, \<open>?\<close> for an error, and \<open>optarg\<close> where there is one.\<close>

type_synonym opt = "char \<times> string"

abbreviation bad_option :: opt where "bad_option \<equiv> (CHR ''?'', [])"

definition short_kind :: "string \<Rightarrow> char \<Rightarrow> has_arg option" where
  "short_kind optstring c =
     (if c = CHR '':'' then None
      else
        case strchr optstring c of
          None \<Rightarrow> None
        | Some i \<Rightarrow> Some (if take 1 (drop (Suc i) optstring) = '':'' then Required_Argument else No_Argument))"

text \<open>The characters after a single hyphen.  An option with an argument takes the rest of them or, at the end, the next
  element of the command line.\<close>

fun getopt_short :: "string \<Rightarrow> string \<Rightarrow> string list \<Rightarrow> opt list \<times> string list" where
  "getopt_short optstring [] args = ([], args)"
| "getopt_short optstring (c # cs) args =
     (case short_kind optstring c of
        None \<Rightarrow> (case getopt_short optstring cs args of (os, rest) \<Rightarrow> (bad_option # os, rest))
      | Some No_Argument \<Rightarrow> (case getopt_short optstring cs args of (os, rest) \<Rightarrow> ((c, []) # os, rest))
      | Some Required_Argument \<Rightarrow>
          if cs \<noteq> [] then ([(c, cs)], args)
          else (case args of [] \<Rightarrow> ([bad_option], []) | a # args \<Rightarrow> ([(c, a)], args)))"

text \<open>A long option is found by its name or by the beginning of one name only.\<close>

definition long_match :: "long_option list \<Rightarrow> string \<Rightarrow> long_option option" where
  "long_match longs name =
     (case find (\<lambda>l. fst l = name) longs of
        Some l \<Rightarrow> Some l
      | None \<Rightarrow> (case filter (\<lambda>l. take (length name) (fst l) = name) longs of [l] \<Rightarrow> Some l | _ \<Rightarrow> None))"

text \<open>The text after two hyphens.\<close>

definition getopt_name :: "long_option list \<Rightarrow> string \<Rightarrow> string list \<Rightarrow> opt list \<times> string list" where
  "getopt_name longs str args =
     (let name = takeWhile (\<lambda>c. c \<noteq> CHR ''='') str; val = drop (Suc (length name)) str in
      case long_match longs name of
        None \<Rightarrow> ([bad_option], args)
      | Some (_, No_Argument, c) \<Rightarrow> ([if CHR ''='' \<in> set str then bad_option else (c, [])], args)
      | Some (_, Required_Argument, c) \<Rightarrow>
          if CHR ''='' \<in> set str then ([(c, val)], args)
          else (case args of [] \<Rightarrow> ([bad_option], []) | a # args \<Rightarrow> ([(c, a)], args)))"

lemma getopt_short_shorter: "(os, rest) = getopt_short optstring cs args \<Longrightarrow> length rest < Suc (length args)"
  by (induction optstring cs args arbitrary: os rule: getopt_short.induct)
    (auto split: option.splits has_arg.splits list.splits prod.splits if_splits)

lemma getopt_name_shorter: "(os, rest) = getopt_name longs str args \<Longrightarrow> length rest < Suc (length args)"
  by (auto simp: getopt_name_def Let_def split: option.splits has_arg.splits list.splits if_splits)

text \<open>The options and, last, the operands.  \<open>posixly\<close> says whether \<open>POSIXLY_CORRECT\<close> is set, in which case the first
  operand ends the options.\<close>

function getopt_long :: "bool \<Rightarrow> string \<Rightarrow> long_option list \<Rightarrow> string list \<Rightarrow> opt list \<times> string list" where
  "getopt_long posixly optstring longs [] = ([], [])"
| "getopt_long posixly optstring longs (a # args) =
     (if a = ''--'' then ([], args)
      else if take 2 a = ''--'' then
        (case getopt_name longs (drop 2 a) args of (os, args) \<Rightarrow>
         case getopt_long posixly optstring longs args of (os', rest) \<Rightarrow> (os @ os', rest))
      else if take 1 a = ''-'' \<and> 1 < length a then
        (case getopt_short optstring (drop 1 a) args of (os, args) \<Rightarrow>
         case getopt_long posixly optstring longs args of (os', rest) \<Rightarrow> (os @ os', rest))
      else if posixly then ([], a # args)
      else (case getopt_long posixly optstring longs args of (os, rest) \<Rightarrow> (os, a # rest)))"
  by pat_completeness auto
termination
  by (relation "measure (\<lambda>(posixly, optstring, longs, args). length args)") (auto dest: getopt_name_shorter getopt_short_shorter)

declare getopt_long.simps(2) [simp del]

lemma getopt_long_name:
  assumes "str \<noteq> []" and "getopt_name longs str args = ([o1], args')"
  shows "getopt_long posixly optstring longs ((''--'' @ str) # args) =
    (case getopt_long posixly optstring longs args' of (os, rest) \<Rightarrow> (o1 # os, rest))"
  using assms by (simp add: getopt_long.simps(2) split: prod.splits)

lemma getopt_long_short:
  assumes "c \<noteq> CHR ''-''" and "getopt_short optstring (c # cs) args = ([o1], args')"
  shows "getopt_long posixly optstring longs ((CHR ''-'' # c # cs) # args) =
    (case getopt_long posixly optstring longs args' of (os, rest) \<Rightarrow> (o1 # os, rest))"
  using assms by (simp add: getopt_long.simps(2) split: prod.splits)

section \<open>Spelling an option\<close>

datatype spelling =
    Short_Flag char
  | Short_Apart char string
  | Short_Joined char string
  | Long_Flag string
  | Long_Apart string string
  | Long_Joined string string

fun spell :: "spelling \<Rightarrow> string list" where
  "spell (Short_Flag c) = [[CHR ''-'', c]]"
| "spell (Short_Apart c v) = [[CHR ''-'', c], v]"
| "spell (Short_Joined c v) = [CHR ''-'' # c # v]"
| "spell (Long_Flag n) = [''--'' @ n]"
| "spell (Long_Apart n v) = [''--'' @ n, v]"
| "spell (Long_Joined n v) = [''--'' @ n @ ''='' @ v]"

text \<open>What is meant, where the spelling is one: the option exists, a long name is not empty and has no equals sign,
  and an option with an argument is spelled with one.\<close>

fun spelled :: "string \<Rightarrow> long_option list \<Rightarrow> spelling \<Rightarrow> opt option" where
  "spelled optstring longs (Short_Flag c) =
     (if c \<noteq> CHR ''-'' \<and> short_kind optstring c = Some No_Argument then Some (c, []) else None)"
| "spelled optstring longs (Short_Apart c v) =
     (if c \<noteq> CHR ''-'' \<and> short_kind optstring c = Some Required_Argument then Some (c, v) else None)"
| "spelled optstring longs (Short_Joined c v) =
     (if c \<noteq> CHR ''-'' \<and> v \<noteq> [] \<and> short_kind optstring c = Some Required_Argument then Some (c, v) else None)"
| "spelled optstring longs (Long_Flag n) =
     (if n = [] \<or> CHR ''='' \<in> set n then None
      else case long_match longs n of Some (_, No_Argument, c) \<Rightarrow> Some (c, []) | _ \<Rightarrow> None)"
| "spelled optstring longs (Long_Apart n v) =
     (if n = [] \<or> CHR ''='' \<in> set n then None
      else case long_match longs n of Some (_, Required_Argument, c) \<Rightarrow> Some (c, v) | _ \<Rightarrow> None)"
| "spelled optstring longs (Long_Joined n v) =
     (if n = [] \<or> CHR ''='' \<in> set n then None
      else case long_match longs n of Some (_, Required_Argument, c) \<Rightarrow> Some (c, v) | _ \<Rightarrow> None)"

lemma takeWhile_no_equals: "CHR ''='' \<notin> set n \<Longrightarrow> takeWhile (\<lambda>c. c \<noteq> CHR ''='') n = n"
  by (auto simp: takeWhile_eq_all_conv)

lemma takeWhile_before_equals: "CHR ''='' \<notin> set n \<Longrightarrow> takeWhile (\<lambda>c. c \<noteq> CHR ''='') (n @ CHR ''='' # v) = n"
  by (induction n) auto

text \<open>One spelling is read back, whatever follows it.\<close>

lemma getopt_spell:
  assumes "spelled optstring longs x = Some o1"
  shows "getopt_long posixly optstring longs (spell x @ args) =
    (case getopt_long posixly optstring longs args of (os, rest) \<Rightarrow> (o1 # os, rest))"
proof (cases x)
  case (Short_Flag c)
  then show ?thesis using assms getopt_long_short [of c optstring "[]" args o1 args] by (auto split: if_splits)
next
  case (Short_Apart c v)
  then show ?thesis using assms getopt_long_short [of c optstring "[]" "v # args" o1 args] by (auto split: if_splits)
next
  case (Short_Joined c v)
  then show ?thesis using assms getopt_long_short [of c optstring v args o1 args] by (auto split: if_splits)
next
  case (Long_Flag n)
  then have "getopt_name longs n args = ([o1], args)" "n \<noteq> []" using assms
    by (auto simp: getopt_name_def Let_def takeWhile_no_equals split: if_splits option.splits has_arg.splits)
  then show ?thesis using Long_Flag getopt_long_name [of n longs args o1 args] by simp
next
  case (Long_Apart n v)
  then have "getopt_name longs n (v # args) = ([o1], args)" "n \<noteq> []" using assms
    by (auto simp: getopt_name_def Let_def takeWhile_no_equals split: if_splits option.splits has_arg.splits)
  then show ?thesis using Long_Apart getopt_long_name [of n longs "v # args" o1 args] by simp
next
  case (Long_Joined n v)
  then have "getopt_name longs (n @ ''='' @ v) args = ([o1], args)" using assms
    by (auto simp: getopt_name_def Let_def takeWhile_before_equals split: if_splits option.splits has_arg.splits)
  then show ?thesis using Long_Joined getopt_long_name [of "n @ ''='' @ v" longs args o1 args] by simp
qed

lemma getopt_spells:
  assumes "map (spelled optstring longs) xs = map Some os"
  shows "getopt_long posixly optstring longs (concat (map spell xs) @ args) =
    (case getopt_long posixly optstring longs args of (os', rest) \<Rightarrow> (os @ os', rest))"
  using assms
proof (induction xs arbitrary: os)
  case (Cons x xs)
  then obtain o1 os1 where "os = o1 # os1" "spelled optstring longs x = Some o1" "map (spelled optstring longs) xs = map Some os1"
    by (cases os) auto
  with Cons.IH [of os1] getopt_spell [of optstring longs x o1 posixly "concat (map spell xs) @ args"] show ?case
    by (auto split: prod.splits)
qed (simp split: prod.splits)

end
