(* ===== verification/Daemon.thy ===== *)
theory Daemon
  imports Posix_Queue Systemv_Queue Engines Getopt
begin

text \<open>
  The daemon (\<open>banipd.c\<close>): the options, the start-up sequence, the loop that receives, parses and hands
  over, and the cleanup.  The queue is the record of operations of the implementation that is
  linked in, the engine is looked up in the registry, and the calls of the system are the fields
  of \<open>os_api\<close>.  The capability macros expand to \<open>true\<close>.
\<close>

section \<open>State and system interface\<close>

text \<open>\<open>os_progname\<close> is \<open>__progname\<close>, and \<open>os_posixly_correct\<close> whether the environment has \<open>POSIXLY_CORRECT\<close>.
  The file \<open>err_file\<close> is \<open>True\<close> when a log file is open; otherwise messages go to \<open>stderr\<close>.\<close>

record 'w os_api =
  os_progname :: string
  os_posixly_correct :: bool
  os_getgrnam :: "string \<Rightarrow> 'w \<Rightarrow> nat sysret \<times> 'w"
  os_fopen_log :: "string \<Rightarrow> 'w \<Rightarrow> unit sysret \<times> 'w"
  os_freopen_log :: "string \<Rightarrow> 'w \<Rightarrow> unit sysret \<times> 'w"
  os_fclose_log :: "'w \<Rightarrow> 'w"
  os_daemon :: "bool \<Rightarrow> 'w \<Rightarrow> unit sysret \<times> 'w"
  os_write_pid :: "string \<Rightarrow> 'w \<Rightarrow> unit sysret \<times> 'w"
  os_unlink :: "string \<Rightarrow> 'w \<Rightarrow> unit sysret \<times> 'w"
  os_setgid :: "nat \<Rightarrow> 'w \<Rightarrow> unit sysret \<times> 'w"
  os_setgroups :: "nat \<Rightarrow> 'w \<Rightarrow> unit sysret \<times> 'w"
  os_getuid :: "'w \<Rightarrow> nat"
  os_getpwnam :: "string \<Rightarrow> 'w \<Rightarrow> nat option"
  os_setuid :: "nat \<Rightarrow> 'w \<Rightarrow> unit sysret \<times> 'w"

text \<open>The static variables of the program and the local ones of \<open>main\<close>.  \<open>err_file\<close> says whether a log file is open
  (a stream other than the standard ones), and \<open>d_gid\<close> is \<open>None\<close> for the value \<open>(gid_t) -1\<close>, which means
  that no group was given.\<close>

record ('q, 'w) daemon =
  d_ctxt :: "ctxt option"
  d_queue :: "'q option"
  d_buffer :: "char list option"
  d_engine :: "'w engine option"
  pidfilename :: "string option"
  logfilename :: "string option"
  err_file :: bool
  d_error :: errp
  d_gid :: "nat option"
  dFlag :: bool
  vFlag :: nat
  max_message_size :: ulong
  queuename :: "string option"
  tablename :: "string option"

type_synonym ('q, 'w) dstate = "('q, 'w) daemon \<times> 'w proc"

section \<open>The options\<close>

text \<open>The tables for \<open>getopt_long\<close>.\<close>

definition optstr :: string where "optstr = ''b:e:g:l:p:q:s:t:dhv''"

definition long_options :: "long_option list" where
  "long_options =
     [(''msgsize'', Required_Argument, CHR ''b''), (''daemonize'', No_Argument, CHR ''d''), (''engine'', Required_Argument, CHR ''e''),
      (''group'', Required_Argument, CHR ''g''), (''log'', Required_Argument, CHR ''l''), (''pid'', Required_Argument, CHR ''p''),
      (''queue'', Required_Argument, CHR ''q''), (''qsize'', Required_Argument, CHR ''s''), (''table'', Required_Argument, CHR ''t''),
      (''verbose'', No_Argument, CHR ''v'')]"

text \<open>\<open>usage\<close> prints on \<open>stderr\<close>; of \<open>optstr\<close> it shows what follows the last colon.\<close>

definition usage_flags :: string where
  "usage_flags =
     (if CHR '':'' \<in> set optstr then rev (takeWhile (\<lambda>c. c \<noteq> CHR '':'') (rev optstr)) else optstr)"

definition usage :: "'w os_api \<Rightarrow> 'w proc \<Rightarrow> 'w proc" where
  "usage os = log_msg (''usage: %s [-%s] [ -q queue_name ] [ -t table_name ]'', [SArg (os_progname os), SArg usage_flags])"

text \<open>
  The result of an option is \<open>Inl status\<close> when the program exits.  \<open>errx\<close> and \<open>errc\<close> print and exit with
  \<open>BANIPD_EXIT_FAILURE\<close>.
\<close>

definition daemon_attribute ::
  "('q, 'w) queue_ops \<Rightarrow> 'w libc \<Rightarrow> queue_attr \<Rightarrow> string \<Rightarrow> string \<Rightarrow> ('q, 'w) dstate \<Rightarrow> ((nat + unit) \<times> ('q, 'w) dstate) outcome" where
  "daemon_attribute ops lc a what optarg = (\<lambda>(d, s).
     andthen (parse_ulong lc optarg (d_error d) s) (\<lambda>(ok, val, error, s).
     let d = d\<lparr>d_error := error\<rparr> in
     if ok then
       (case d_queue d of
          None \<Rightarrow> Undef Null_Deref
        | Some q \<Rightarrow> Ret (Inr (), d\<lparr>d_queue := Some (snd (q_set_attribute ops q a val))\<rparr>, s))
     else
       (case error of
          Some (Some m) \<Rightarrow>
            Ret (Inl BANIPD_EXIT_FAILURE, d, verr lc 0 (''invalid value for option '' @ what @ '': '' @ fst m) (snd m) s)
        | _ \<Rightarrow> Undef Bad_Format)))"

definition daemon_option ::
  "('q, 'w) queue_ops \<Rightarrow> 'w libc \<Rightarrow> 'w os_api \<Rightarrow> 'w build \<Rightarrow> opt \<Rightarrow> ('q, 'w) dstate \<Rightarrow>
   ((nat + unit) \<times> ('q, 'w) dstate) outcome" where
  "daemon_option ops lc os b opt = (\<lambda>(d, s).
     case opt of (c, optarg) \<Rightarrow>
     if c = CHR ''b'' then daemon_attribute ops lc QUEUE_ATTR_MAX_MESSAGE_SIZE ''-b/--msgsize'' optarg (d, s)
     else if c = CHR ''d'' then Ret (Inr (), d\<lparr>dFlag := True\<rparr>, s)
     else if c = CHR ''e'' then
       let d = d\<lparr>d_engine := get_engine_by_name b optarg\<rparr> in
       (if d_engine d = None then
          Ret (Inl BANIPD_EXIT_FAILURE, d, verr lc 0 (''unknown engine '' @ [CHR 0x27] @ ''%s'' @ [CHR 0x27]) [SArg optarg] s)
        else Ret (Inr (), d, s))
     else if c = CHR ''g'' then
       (case syscall (os_getgrnam os optarg) s of
          (Err n, s) \<Rightarrow> Ret (Inl BANIPD_EXIT_FAILURE, d, verr lc (errno s) ''getgrnam failed'' [] s)
        | (Ok g, s) \<Rightarrow> Ret (Inr (), d\<lparr>d_gid := (if g = 2 ^ 32 - 1 then None else Some g)\<rparr>, s))
     else if c = CHR ''l'' then
       (case syscall (os_fopen_log os optarg) s of
          (Err n, s) \<Rightarrow>
            Ret (Inr (), d\<lparr>logfilename := Some optarg, err_file := False\<rparr>,
              warnc lc (''fopen '' @ [CHR 0x27] @ ''%s'' @ [CHR 0x27] @ '' failed, falling back to stderr'') [SArg optarg] s)
        | (Ok _, s) \<Rightarrow> Ret (Inr (), d\<lparr>logfilename := Some optarg, err_file := True\<rparr>, s))
     else if c = CHR ''p'' then Ret (Inr (), d\<lparr>pidfilename := Some optarg\<rparr>, s)
     else if c = CHR ''q'' then Ret (Inr (), d\<lparr>queuename := Some optarg\<rparr>, s)
     else if c = CHR ''s'' then daemon_attribute ops lc QUEUE_ATTR_MAX_MESSAGE_IN_QUEUE ''-s/--qsize'' optarg (d, s)
     else if c = CHR ''t'' then Ret (Inr (), d\<lparr>tablename := Some optarg\<rparr>, s)
     else if c = CHR ''v'' then Ret (Inr (), d\<lparr>vFlag := Suc (vFlag d)\<rparr>, s)
     else Ret (Inl BANIPD_EXIT_USAGE, d, usage os s))"

fun daemon_options ::
  "('q, 'w) queue_ops \<Rightarrow> 'w libc \<Rightarrow> 'w os_api \<Rightarrow> 'w build \<Rightarrow> opt list \<Rightarrow> ('q, 'w) dstate \<Rightarrow>
   ((nat + unit) \<times> ('q, 'w) dstate) outcome" where
  "daemon_options ops lc os b [] ds = Ret (Inr (), ds)"
| "daemon_options ops lc os b (opt # opts) ds =
     andthen (daemon_option ops lc os b opt ds) (\<lambda>(r, ds).
     case r of Inl status \<Rightarrow> Ret (Inl status, ds) | Inr _ \<Rightarrow> daemon_options ops lc os b opts ds)"

section \<open>The start-up sequence\<close>

text \<open>
  Each step of the body of \<^verbatim>\<open>do { ... } while (false)\<close> before the loop; \<open>False\<close> is its \<open>break\<close>, with the
  reason in \<open>d_error\<close>.
\<close>

definition fail_step ::
  "'w libc \<Rightarrow> string \<Rightarrow> carg list \<Rightarrow> ('q, 'w) dstate \<Rightarrow> (bool \<times> ('q, 'w) dstate) outcome" where
  "fail_step lc format args = (\<lambda>(d, s).
     andthen (set_system_error lc (d_error d) format args s) (\<lambda>(error, s). Ret (False, d\<lparr>d_error := error\<rparr>, s)))"

definition start_daemonize :: "'w libc \<Rightarrow> 'w os_api \<Rightarrow> ('q, 'w) dstate \<Rightarrow> (bool \<times> ('q, 'w) dstate) outcome" where
  "start_daemonize lc os = (\<lambda>(d, s).
     if dFlag d then
       (case syscall (os_daemon os (vFlag d = 0)) s of
          (Err n, s) \<Rightarrow> fail_step lc ''daemon failed'' [] (d, s)
        | (Ok _, s) \<Rightarrow> Ret (True, d, s))
     else Ret (True, d, s))"

definition start_pidfile :: "'w libc \<Rightarrow> 'w os_api \<Rightarrow> ('q, 'w) dstate \<Rightarrow> (bool \<times> ('q, 'w) dstate) outcome" where
  "start_pidfile lc os = (\<lambda>(d, s).
     case pidfilename d of
       None \<Rightarrow> Ret (True, d, s)
     | Some f \<Rightarrow>
         (case syscall (os_write_pid os f) s of
            (Err n, s) \<Rightarrow> Ret (True, d, warnc lc (''can'' @ [CHR 0x27] @ ''t create pid file '' @ [CHR 0x27] @ ''%s'' @ [CHR 0x27]) [SArg f] s)
          | (Ok _, s) \<Rightarrow> Ret (True, d, s)))"

definition start_group :: "'w libc \<Rightarrow> 'w os_api \<Rightarrow> ('q, 'w) dstate \<Rightarrow> (bool \<times> ('q, 'w) dstate) outcome" where
  "start_group lc os = (\<lambda>(d, s).
     case d_gid d of
       None \<Rightarrow> Ret (True, d, s)
     | Some g \<Rightarrow>
         (case syscall (os_setgid os g) s of
            (Err n, s) \<Rightarrow> fail_step lc ''setgid(%d) failed'' [IArg (int g)] (d, s)
          | (Ok _, s) \<Rightarrow>
              (case syscall (os_setgroups os g) s of
                 (Err n, s) \<Rightarrow> fail_step lc ''setgroups to {%d} failed'' [IArg (int g)] (d, s)
               | (Ok _, s) \<Rightarrow> Ret (True, d, s))))"

definition start_queue :: "('q, 'w) queue_ops \<Rightarrow> ('q, 'w) dstate \<Rightarrow> (bool \<times> ('q, 'w) dstate) outcome" where
  "start_queue ops = (\<lambda>(d, s).
     case (d_queue d, queuename d) of
       (Some q, Some name) \<Rightarrow>
         andthen (q_open ops q name QUEUE_FL_OWNER (d_error d) s) (\<lambda>(ok, q, error, s).
         Ret (ok, d\<lparr>d_queue := Some q, d_error := error\<rparr>, s))
     | _ \<Rightarrow> Undef Null_Deref)"

text \<open>\<open>calloc(++max_message_size, 1)\<close>: the size wraps around like \<open>unsigned long\<close>; the cells are zero.\<close>

definition start_buffer ::
  "('q, 'w) queue_ops \<Rightarrow> 'w libc \<Rightarrow> ('q, 'w) dstate \<Rightarrow> (bool \<times> ('q, 'w) dstate) outcome" where
  "start_buffer ops lc = (\<lambda>(d, s).
     case d_queue d of
       None \<Rightarrow> Undef Null_Deref
     | Some q \<Rightarrow>
         (case q_get_attribute ops q QUEUE_ATTR_MAX_MESSAGE_SIZE s of
            (QUEUE_ERR_OK, Some v, s) \<Rightarrow>
              let d = d\<lparr>max_message_size := v + 1\<rparr> in
              (case alloc lc (unat (max_message_size d)) s of
                 (False, s) \<Rightarrow>
                   andthen (set_malloc_error lc (d_error d) (unat (max_message_size d)) s)
                     (\<lambda>(error, s). Ret (False, d\<lparr>d_error := error\<rparr>, s))
               | (True, s) \<Rightarrow> Ret (True, d\<lparr>d_buffer := Some (replicate (unat (max_message_size d)) NUL)\<rparr>, s))
          | (_, _, s) \<Rightarrow>
              andthen (set_generic_error lc (d_error d) ''queue_get_attribute failed'' [] s)
                (\<lambda>(error, s). Ret (False, d\<lparr>d_error := error\<rparr>, s))))"

definition start_engine :: "('q, 'w) dstate \<Rightarrow> (bool \<times> ('q, 'w) dstate) outcome" where
  "start_engine = (\<lambda>(d, s).
     case (d_engine d, tablename d) of
       (Some eng, Some t) \<Rightarrow>
         (case e_open eng of
            None \<Rightarrow> Ret (True, d, s)
          | Some f \<Rightarrow>
              andthen (f t (d_error d) s) (\<lambda>(c, error, s).
              Ret (c \<noteq> None, d\<lparr>d_ctxt := c, d_error := error\<rparr>, s)))
     | _ \<Rightarrow> Undef Null_Deref)"

definition start_privileges :: "'w libc \<Rightarrow> 'w os_api \<Rightarrow> ('q, 'w) dstate \<Rightarrow> (bool \<times> ('q, 'w) dstate) outcome" where
  "start_privileges lc os = (\<lambda>(d, s).
     case d_engine d of
       None \<Rightarrow> Undef Null_Deref
     | Some eng \<Rightarrow>
         if os_getuid os (world s) = 0 \<and> drop_privileges eng then
           (case (case os_getpwnam os ''nobody'' (world s) of Some u \<Rightarrow> Some u | None \<Rightarrow> os_getpwnam os ''daemon'' (world s)) of
              None \<Rightarrow>
                andthen (set_generic_error lc (d_error d) ''no nobody or daemon user accounts found on this system'' [] s)
                  (\<lambda>(error, s). Ret (False, d\<lparr>d_error := error\<rparr>, s))
            | Some u \<Rightarrow>
                (case syscall (os_setuid os u) s of
                   (Err n, s) \<Rightarrow> fail_step lc ''setuid(%d) failed'' [IArg (int u)] (d, s)
                 | (Ok _, s) \<Rightarrow> Ret (True, d, s)))
         else Ret (True, d, s))"

fun run_steps ::
  "(('q, 'w) dstate \<Rightarrow> (bool \<times> ('q, 'w) dstate) outcome) list \<Rightarrow> ('q, 'w) dstate \<Rightarrow> (bool \<times> ('q, 'w) dstate) outcome" where
  "run_steps [] ds = Ret (True, ds)"
| "run_steps (f # fs) ds = andthen (f ds) (\<lambda>(ok, ds). if ok then run_steps fs ds else Ret (False, ds))"

definition daemon_start ::
  "('q, 'w) queue_ops \<Rightarrow> 'w libc \<Rightarrow> 'w os_api \<Rightarrow> ('q, 'w) dstate \<Rightarrow> (bool \<times> ('q, 'w) dstate) outcome" where
  "daemon_start ops lc os =
     run_steps [start_daemonize lc os, start_pidfile lc os, start_group lc os, start_queue ops,
       start_buffer ops lc, start_engine, start_privileges lc os]"

section \<open>The loop\<close>

text \<open>The body of the loop when one of its three calls failed.\<close>

definition daemon_report :: "'w libc \<Rightarrow> ('q, 'w) dstate \<Rightarrow> ('q, 'w) dstate outcome" where
  "daemon_report lc = (\<lambda>(d, s).
     andthen (verr_error lc (d_error d) s) (\<lambda>s.
     andthen (error_free (d_error d)) (\<lambda>error. Ret (d\<lparr>d_error := error\<rparr>, s))))"

text \<open>One iteration: receive, parse, hand over; the three calls are joined by \<open>||\<close>.\<close>

definition daemon_iteration ::
  "('q, 'w) queue_ops \<Rightarrow> 'w libc \<Rightarrow> 'w netlib \<Rightarrow> ('q, 'w) dstate \<Rightarrow> ('q, 'w) dstate outcome" where
  "daemon_iteration ops lc nl = (\<lambda>(d, s).
     case (d_queue d, d_buffer d, d_engine d, tablename d) of
       (Some q, Some buf, Some eng, Some t) \<Rightarrow>
         andthen (q_receive ops q buf (unat (max_message_size d)) (d_error d) s) (\<lambda>(n, q, buf, error, s).
         let d = d\<lparr>d_queue := Some q, d_buffer := Some buf, d_error := error\<rparr> in
         if n = - 1 then daemon_report lc (d, s)
         else
           andthen (c_str buf) (\<lambda>msg.
           andthen (parse_addr lc nl msg error s) (\<lambda>(ok, addr, error, s).
           let d = d\<lparr>d_error := error\<rparr> in
           if \<not> ok then daemon_report lc (d, s)
           else
             andthen (e_handle eng (d_ctxt d) t addr error s) (\<lambda>(ok, error, s).
             let d = d\<lparr>d_error := error\<rparr> in
             if \<not> ok then daemon_report lc (d, s) else Ret (d, s)))))
     | _ \<Rightarrow> Undef Null_Deref)"

section \<open>Cleanup and signals\<close>

definition daemon_cleanup ::
  "('q, 'w) queue_ops \<Rightarrow> 'w libc \<Rightarrow> 'w os_api \<Rightarrow> ('q, 'w) dstate \<Rightarrow> ('q, 'w) dstate outcome" where
  "daemon_cleanup ops lc os = (\<lambda>(d, s).
     let d = d\<lparr>d_buffer := None\<rparr> in
     andthen
       (case d_ctxt d of
          None \<Rightarrow> Ret (d, s)
        | Some c \<Rightarrow>
            (case d_engine d of
               None \<Rightarrow> Undef Null_Deref
             | Some eng \<Rightarrow>
                 andthen (case e_close eng of None \<Rightarrow> Ret (c, s) | Some g \<Rightarrow> g c s) (\<lambda>(c, s).
                 andthen (free_ctxt c) (\<lambda>_. Ret (d\<lparr>d_ctxt := None\<rparr>, s)))))
       (\<lambda>(d, s).
          andthen (q_close ops (d_queue d) None s) (\<lambda>(_, p, _, s).
          let d = d\<lparr>d_queue := p\<rparr>;
              s = (case pidfilename d of
                     None \<Rightarrow> s
                   | Some f \<Rightarrow>
                       (case syscall (os_unlink os f) s of
                          (Err n, s) \<Rightarrow> warnc lc ''unlink failed'' [] s
                        | (Ok _, s) \<Rightarrow> s)) in
          if err_file d then Ret (d\<lparr>err_file := False\<rparr>, s\<lparr>world := os_fclose_log os (world s)\<rparr>)
          else Ret (d, s))))"

datatype sig = SIGINT | SIGTERM | SIGUSR1 | Other_Signal

text \<open>\<open>on_signal\<close>: \<open>True\<close> when the process goes on afterwards; otherwise the signal is raised again with
  its default action.\<close>

definition on_signal ::
  "('q, 'w) queue_ops \<Rightarrow> 'w libc \<Rightarrow> 'w os_api \<Rightarrow> sig \<Rightarrow> ('q, 'w) dstate \<Rightarrow> (bool \<times> ('q, 'w) dstate) outcome" where
  "on_signal ops lc os signo = (\<lambda>(d, s).
     case signo of
       SIGUSR1 \<Rightarrow>
         (case (err_file d, logfilename d) of
            (True, Some f) \<Rightarrow>
              (case syscall (os_freopen_log os f) s of
                 (Err n, s) \<Rightarrow>
                   Ret (True, d\<lparr>err_file := False\<rparr>, verr lc 0 ''freopen failed, falling back to stderr'' [] s)
               | (Ok _, s) \<Rightarrow> Ret (True, d, s))
          | _ \<Rightarrow> Ret (True, d, s))
     | Other_Signal \<Rightarrow> Ret (False, d, s)
     | _ \<Rightarrow> andthen (daemon_cleanup ops lc os (d, s)) (\<lambda>ds. Ret (False, ds)))"


section \<open>main\<close>

text \<open>\<open>Exited status\<close>: the process has ended, after the cleanup that \<open>atexit\<close> registers; \<open>Running\<close>: it is at
  the head of the loop.\<close>

datatype ('q, 'w) boot = Exited nat "('q, 'w) dstate" | Running "('q, 'w) dstate"

definition daemon_init :: "'q option \<Rightarrow> errp \<Rightarrow> 'w engine option \<Rightarrow> ('q, 'w) daemon" where
  "daemon_init p error eng =
     \<lparr>d_ctxt = None, d_queue = p, d_buffer = None, d_engine = eng, pidfilename = None, logfilename = None,
      err_file = False, d_error = error, d_gid = None, dFlag = False, vFlag = 0, max_message_size = 0,
      queuename = None, tablename = None\<rparr>"

definition exit_cleanup ::
  "('q, 'w) queue_ops \<Rightarrow> 'w libc \<Rightarrow> 'w os_api \<Rightarrow> nat \<Rightarrow> ('q, 'w) dstate \<Rightarrow> ('q, 'w) boot outcome" where
  "exit_cleanup ops lc os status ds = andthen (daemon_cleanup ops lc os ds) (\<lambda>ds. Ret (Exited status ds))"

text \<open>Lines 327 to 330: print the reason why the loop was not reached.\<close>

definition daemon_give_up :: "'w libc \<Rightarrow> ('q, 'w) dstate \<Rightarrow> ('q, 'w) dstate outcome" where
  "daemon_give_up lc = (\<lambda>(d, s).
     case d_error d of Some (Some m) \<Rightarrow> daemon_report lc (d, s) | _ \<Rightarrow> Ret (d, s))"

text \<open>
  \<open>main\<close> up to its loop.  The handlers that lines 156 to 163 install are \<open>on_signal\<close> and the cleanup at the exit, which the
  definitions around this one call.  \<open>sa.sa_flags\<close> is passed to \<open>sigaction\<close> without having been initialised; the model takes the installation
  for one with flags that let the handler run as it is written.  A signal is a step of its own, between two iterations.
\<close>

definition daemon_main ::
  "('q, 'w) queue_ops \<Rightarrow> 'w libc \<Rightarrow> 'w os_api \<Rightarrow> 'w build \<Rightarrow> opt list \<Rightarrow> nat \<Rightarrow> 'w proc \<Rightarrow> ('q, 'w) boot outcome" where
  "daemon_main ops lc os b opts argc s =
     andthen (q_init ops (Some None) s) (\<lambda>(p, error, s).
     if p = None then Ret (Exited BANIPD_EXIT_FAILURE (daemon_init None error None, verr lc 0 ''queue_init failed'' [] s))
     else
       let d = daemon_init p error (get_default_engine b) in
       if d_engine d = None then
         exit_cleanup ops lc os BANIPD_EXIT_FAILURE (d, verr lc 0 ''no engine available for your system'' [] s)
       else
         andthen (daemon_options ops lc os b opts (d, s)) (\<lambda>(r, ds).
         case r of
           Inl status \<Rightarrow> exit_cleanup ops lc os status ds
         | Inr _ \<Rightarrow>
             if argc \<noteq> 0 \<or> queuename (fst ds) = None \<or> tablename (fst ds) = None
             then exit_cleanup ops lc os BANIPD_EXIT_USAGE (fst ds, usage os (snd ds))
             else
               andthen (daemon_start ops lc os ds) (\<lambda>(ok, ds).
               if ok then Ret (Running ds)
               else andthen (daemon_give_up lc ds) (exit_cleanup ops lc os BANIPD_EXIT_FAILURE))))"

text \<open>The program from its command line: the name of the program, options and operands.\<close>

definition daemon_entry ::
  "('q, 'w) queue_ops \<Rightarrow> 'w libc \<Rightarrow> 'w os_api \<Rightarrow> 'w build \<Rightarrow> string list \<Rightarrow> 'w proc \<Rightarrow> ('q, 'w) boot outcome" where
  "daemon_entry ops lc os b argv s =
     (case getopt_long (os_posixly_correct os) optstr long_options (tl argv) of
        (opts, operands) \<Rightarrow> daemon_main ops lc os b opts (length operands) s)"

section \<open>The running daemon\<close>

text \<open>
  Steps of the running daemon: an iteration of the loop, the signal that reopens the log file, and a
  change of the world by another process, as far as \<open>env\<close> allows it.
\<close>

inductive daemon_step ::
  "('q, 'w) queue_ops \<Rightarrow> 'w libc \<Rightarrow> 'w netlib \<Rightarrow> 'w os_api \<Rightarrow> ('w \<Rightarrow> 'w \<Rightarrow> bool) \<Rightarrow>
   ('q, 'w) dstate \<Rightarrow> ('q, 'w) dstate \<Rightarrow> bool"
  for ops lc nl os env where
  iterate: "daemon_iteration ops lc nl ds = Ret ds' \<Longrightarrow> daemon_step ops lc nl os env ds ds'"
| usr1: "on_signal ops lc os SIGUSR1 ds = Ret (True, ds') \<Longrightarrow> daemon_step ops lc nl os env ds ds'"
| others: "env (world s) w \<Longrightarrow> daemon_step ops lc nl os env (d, s) (d, s\<lparr>world := w\<rparr>)"

abbreviation daemon_reaches where
  "daemon_reaches ops lc nl os env \<equiv> (daemon_step ops lc nl os env)\<^sup>*\<^sup>*"

text \<open>The part of the state that the loop relies on: queue, buffer of the announced size, engine, table
  and context.\<close>

definition loop_ready :: "'w engine \<Rightarrow> string \<Rightarrow> ctxt option \<Rightarrow> ('q, 'w) daemon \<Rightarrow> bool" where
  "loop_ready eng t c d \<longleftrightarrow>
     d_queue d \<noteq> None \<and> map_option length (d_buffer d) = Some (unat (max_message_size d)) \<and>
     d_engine d = Some eng \<and> tablename d = Some t \<and> d_ctxt d = c"


section \<open>Lemmas on the steps\<close>

lemma daemon_report_Ret:
  "daemon_report lc (d, s) = Ret (d', s') \<Longrightarrow> d' = d\<lparr>d_error := Some None\<rparr> \<and> (\<exists>m. d_error d = Some (Some m) \<and> s' = log_msg m s)"
  by (auto simp: daemon_report_def verr_error_def error_free_def outcome_simps split: option.splits)

lemma loop_ready_error [simp]: "loop_ready eng t c (d\<lparr>d_error := e\<rparr>) = loop_ready eng t c d"
  "loop_ready eng t c (d\<lparr>err_file := x\<rparr>) = loop_ready eng t c d"
  by (simp_all add: loop_ready_def)

lemma loop_readyE:
  assumes "loop_ready eng t c d"
  obtains q buf where "d_queue d = Some q" "d_buffer d = Some buf" "length buf = unat (max_message_size d)"
    "d_engine d = Some eng" "tablename d = Some t" "d_ctxt d = c"
  using assms by (auto simp: loop_ready_def)

lemma usr1_ready:
  "on_signal ops lc os SIGUSR1 (d, s) = Ret (True, d', s') \<Longrightarrow> d' = d \<or> d' = d\<lparr>err_file := False\<rparr>"
  by (auto simp: on_signal_def split: bool.splits option.splits sysret.splits prod.splits)

context queue_backend
begin

lemma option_keeps_queue:
  assumes "daemon_option ops lc os b opt (d, s) = Ret (r, d', s')" and "d_queue d = Some q" and "unopened q"
  shows "d_queue d' = Some q"
  using assms
  by (auto simp: daemon_option_def daemon_attribute_def Let_def set_unopened elim!: andthenE
      split: prod.splits if_splits option.splits sysret.splits)

lemma options_keep_queue:
  assumes "d_queue d = Some q" and "unopened q"
  shows "daemon_options ops lc os b opts (d, s) = Ret (r, d', s') \<Longrightarrow> d_queue d' = Some q"
  using assms
proof (induction opts arbitrary: d s)
  case Nil
  then show ?case by simp
next
  case (Cons opt opts)
  then obtain r1 d1 s1 where o: "daemon_option ops lc os b opt (d, s) = Ret (r1, d1, s1)"
    and rest: "(case r1 of Inl status \<Rightarrow> Ret (Inl status, d1, s1) | Inr u \<Rightarrow> daemon_options ops lc os b opts (d1, s1)) = Ret (r, d', s')"
    by (auto elim!: andthenE)
  have "d_queue d1 = Some q" using option_keeps_queue [OF o Cons.prems(2,3)] .
  with rest show ?case using Cons.IH Cons.prems(3) by (auto split: sum.splits)
qed

lemma iteration_ready:
  assumes "daemon_iteration ops lc nl (d, s) = Ret (d', s')" and "loop_ready eng t c d"
  shows "loop_ready eng t c d'"
proof -
  from assms(2) obtain q buf where d: "d_queue d = Some q" "d_buffer d = Some buf" "length buf = unat (max_message_size d)"
    "d_engine d = Some eng" "tablename d = Some t" "d_ctxt d = c" by (rule loop_readyE)
  from assms(1) d obtain n q1 buf1 e1 s1 where r: "q_receive ops q buf (unat (max_message_size d)) (d_error d) s = Ret (n, q1, buf1, e1, s1)"
    by (auto simp: daemon_iteration_def elim!: andthenE)
  have "loop_ready eng t c (d\<lparr>d_queue := Some q1, d_buffer := Some buf1, d_error := e\<rparr>)" for e
    using d receive_length [OF r] by (simp add: loop_ready_def)
  with assms(1) d r show ?thesis
    by (auto simp: daemon_iteration_def Let_def elim!: andthenE split: if_splits dest!: daemon_report_Ret)
qed

lemma reaches_ready:
  assumes "daemon_reaches ops lc nl os env ds ds'" and "loop_ready eng t c (fst ds)"
  shows "loop_ready eng t c (fst ds')"
  using assms
proof (induction rule: rtranclp_induct)
  case base
  then show ?case by simp
next
  case (step ds1 ds2)
  from step(2) show ?case
  proof (cases rule: daemon_step.cases)
    case iterate
    then show ?thesis using iteration_ready [of lc nl "fst ds1" "snd ds1" "fst ds2" "snd ds2" eng t c] step(3,4) by simp
  next
    case usr1
    then show ?thesis using usr1_ready [of ops lc os "fst ds1" "snd ds1" "fst ds2" "snd ds2"] step(3,4) by auto
  next
    case others
    then show ?thesis using step(3,4) by simp
  qed
qed

end


text \<open>What the steps of the start-up establish.\<close>

lemma run_steps_snoc:
  "run_steps (fs @ [f]) ds = Ret (True, ds') \<longleftrightarrow> (\<exists>ds1. run_steps fs ds = Ret (True, ds1) \<and> f ds1 = Ret (True, ds'))"
proof (induction fs arbitrary: ds)
  case Nil
  then show ?case by (cases "f ds") (auto split: if_splits)
next
  case (Cons g fs)
  then show ?case by (cases "g ds") (auto split: if_splits)
qed

lemma start_engine_True:
  "start_engine (d, s) = Ret (True, d', s') \<Longrightarrow>
   \<exists>eng t. d_engine d = Some eng \<and> tablename d = Some t \<and> (d' = d \<or> (\<exists>c e. d' = d\<lparr>d_ctxt := c, d_error := e\<rparr>))"
  by (auto simp: start_engine_def elim!: andthenE split: option.splits)

lemma start_buffer_True:
  "start_buffer ops lc (d, s) = Ret (True, d', s') \<Longrightarrow>
   \<exists>q v s1. d_queue d = Some q \<and> q_get_attribute ops q QUEUE_ATTR_MAX_MESSAGE_SIZE s = (QUEUE_ERR_OK, Some v, s1) \<and>
     d' = d\<lparr>max_message_size := v + 1, d_buffer := Some (replicate (unat (v + 1)) NUL)\<rparr>"
  by (auto simp: start_buffer_def Let_def elim!: andthenE
      split: option.splits prod.splits queue_err.splits bool.splits)

lemma start_privileges_True:
  "start_privileges lc os (d, s) = Ret (True, d', s') \<Longrightarrow>
   d' = d \<and> (\<exists>eng. d_engine d = Some eng \<and>
     (os_getuid os (world s) = 0 \<and> drop_privileges eng \<longrightarrow>
       (\<exists>u. (os_getpwnam os ''nobody'' (world s) = Some u \<or>
             os_getpwnam os ''nobody'' (world s) = None \<and> os_getpwnam os ''daemon'' (world s) = Some u) \<and>
         syscall (os_setuid os u) s = (Ok (), s'))))"
  by (auto simp: start_privileges_def fail_step_def elim!: andthenE
      split: option.splits if_splits prod.splits sysret.splits)

lemma daemon_start_True:
  assumes "daemon_start ops lc os (d, s) = Ret (True, d', s')"
  shows "\<exists>eng t. loop_ready eng t (d_ctxt d') d'"
proof -
  let ?fs = "[start_daemonize lc os, start_pidfile lc os, start_group lc os, start_queue ops]"
  have "run_steps (((?fs @ [start_buffer ops lc]) @ [start_engine]) @ [start_privileges lc os]) (d, s) = Ret (True, d', s')"
    using assms by (simp add: daemon_start_def)
  then obtain d1 s1 d2 s2 d3 s3 where st: "start_buffer ops lc (d1, s1) = Ret (True, d2, s2)"
    "start_engine (d2, s2) = Ret (True, d3, s3)" "start_privileges lc os (d3, s3) = Ret (True, d', s')"
    unfolding run_steps_snoc by auto
  then show ?thesis
    using start_buffer_True [OF st(1)] start_engine_True [OF st(2)] start_privileges_True [OF st(3)]
    by (auto simp: loop_ready_def)
qed


lemma daemon_main_Running:
  assumes "daemon_main ops lc os b opts argc s = Ret (Running (d, s'))"
  shows "\<exists>q e s1 d1 s2. q_init ops (Some None) s = Ret (Some q, e, s1) \<and>
    daemon_options ops lc os b opts (daemon_init (Some q) e (get_default_engine b), s1) = Ret (Inr (), d1, s2) \<and>
    daemon_start ops lc os (d1, s2) = Ret (True, d, s')"
proof -
  have ex: "exit_cleanup ops lc os st ds \<noteq> Ret (Running r)" for st ds r
    by (auto simp: exit_cleanup_def outcome_simps)
  show ?thesis using assms
    by (auto simp: daemon_main_def Let_def ex elim!: andthenE split: if_splits sum.splits)
qed

lemma daemon_main_ready:
  assumes "daemon_main ops lc os b opts argc s = Ret (Running ds)"
  shows "\<exists>eng t c. loop_ready eng t c (fst ds)"
  using daemon_main_Running [of ops lc os b opts argc s "fst ds" "snd ds"] assms daemon_start_True by fastforce

section \<open>A sample system\<close>

definition sample_os :: "'w os_api" where
  "sample_os =
     \<lparr>os_progname = ''banipd'', os_posixly_correct = False, os_getgrnam = (\<lambda>g w. (Ok 65534, w)), os_fopen_log = (\<lambda>f w. (Ok (), w)), os_freopen_log = (\<lambda>f w. (Ok (), w)),
      os_fclose_log = (\<lambda>w. w), os_daemon = (\<lambda>n w. (Ok (), w)), os_write_pid = (\<lambda>f w. (Ok (), w)),
      os_unlink = (\<lambda>f w. (Ok (), w)), os_setgid = (\<lambda>g w. (Ok (), w)), os_setgroups = (\<lambda>g w. (Ok (), w)),
      os_getuid = (\<lambda>w. 0), os_getpwnam = (\<lambda>n w. Some 65534), os_setuid = (\<lambda>u w. (Ok (), w))\<rparr>"

definition dummy_build :: "'w build" where
  "dummy_build = \<lparr>with_pf = None, with_npf = None, with_nftables = None, with_ipset = None, with_iptables = None\<rparr>"

lemma dummy_build_default [simp]: "get_default_engine dummy_build = Some dummy_engine"
  by (simp add: get_default_engine_def available_engines_def dummy_build_def map_filter_def)

definition sample_kernel0 :: sample_kernel where
  "sample_kernel0 = \<lparr>sk_queues = (\<lambda>_. None), sk_table = []\<rparr>"

lemma sample_daemon_runs:
  "\<exists>ds. daemon_main (posix_ops sample_libc sample_mq_api) sample_libc sample_os dummy_build
      [(CHR ''q'', ''/banipd''), (CHR ''t'', ''ban'')] 0 (sample_proc sample_kernel0) = Ret (Running ds)"
proof -
  obtain d w where op: "posix_queue_open sample_libc sample_mq_api
      \<lparr>mq = NOT_MQD_T, filename = None, attr = \<lparr>mq_maxmsg = 10, mq_msgsize = 1024\<rparr>\<rparr> ''/banipd'' QUEUE_FL_OWNER (Some None)
      (sample_proc sample_kernel0) =
      Ret (True, \<lparr>mq = d, filename = Some ''/banipd'', attr = \<lparr>mq_maxmsg = 10, mq_msgsize = 1024\<rparr>\<rparr>, Some None,
        (sample_proc sample_kernel0)\<lparr>world := w\<rparr>)"
    using posix_open_owner [OF kernel_laws(3,6) [OF sample_kernel_law], of "sample_proc sample_kernel0" "''/banipd''"
        "\<lparr>mq = NOT_MQD_T, filename = None, attr = \<lparr>mq_maxmsg = 10, mq_msgsize = 1024\<rparr>\<rparr>" "Some None"]
    by (auto simp: allocates_def sample_libc_def sample_proc_def sample_kernel0_def)
  have al: "alloc sample_libc n s = (True, s)" for n and s :: "sample_kernel proc"
    by (simp add: alloc_def sample_libc_def)
  show ?thesis
    by (simp add: daemon_main_def posix_queue_init_def al daemon_init_def daemon_option_def daemon_start_def
        start_daemonize_def start_pidfile_def start_group_def start_queue_def op start_buffer_def posix_queue_get_attribute_def
        start_engine_def start_privileges_def dummy_engine_def sample_os_def syscall_def)
qed

section \<open>Properties\<close>

text \<open>C9: the invariant of the daemon.  Whatever the options, the engine and the other processes do, in
  every state that the running daemon reaches there are a queue, an engine and a table name, and
  the receive buffer has exactly the size that is passed to \<open>queue_receive\<close>.  This holds for both
  implementations of the queue.\<close>

theorem daemon_loop_invariant:
  "(daemon_main (posix_ops lc papi) lc os b opts argc s = Ret (Running ds) \<and>
      daemon_reaches (posix_ops lc papi) lc nl os env ds ds' \<longrightarrow> (\<exists>eng t c. loop_ready eng t c (fst ds'))) \<and>
   (daemon_main (systemv_ops lc vapi) lc os b opts argc s = Ret (Running vs) \<and>
      daemon_reaches (systemv_ops lc vapi) lc nl os env vs vs' \<longrightarrow> (\<exists>eng t c. loop_ready eng t c (fst vs')))"
  by (intro conjI impI) (metis daemon_main_ready posix.reaches_ready, metis daemon_main_ready systemv.reaches_ready)

theorem daemon_loop_invariant_witness:
  "\<exists>ds. daemon_main (posix_ops sample_libc sample_mq_api) sample_libc sample_os dummy_build
      [(CHR ''q'', ''/banipd''), (CHR ''t'', ''ban'')] 0 (sample_proc sample_kernel0) = Ret (Running ds) \<and>
    (\<exists>eng t c. loop_ready eng t c (fst ds))"
  using sample_daemon_runs
    daemon_loop_invariant [where lc = sample_libc and papi = sample_mq_api and os = sample_os and b = dummy_build and
      opts = "[(CHR ''q'', ''/banipd''), (CHR ''t'', ''ban'')]" and argc = 0 and s = "sample_proc sample_kernel0"]
  by blast


text \<open>C32: the options \<open>-b\<close> and \<open>-s\<close> have no effect.  With either implementation of the queue the state that
  \<open>queue_open\<close> is called with is the one that \<open>queue_init\<close> returned, whatever options were given:
  an attribute is only accepted from an owner, and the daemon becomes owner when it opens.\<close>

theorem daemon_options_cannot_configure_queue:
  "(q_init (posix_ops lc papi) e s = Ret (Some q, e', s1) \<and>
      daemon_options (posix_ops lc papi) lc os b opts (daemon_init (Some q) e' eng, s1) = Ret (Inr (), d, s2) \<longrightarrow>
      d_queue d = Some q \<and> attr q = \<lparr>mq_maxmsg = 10, mq_msgsize = 1024\<rparr>) \<and>
   (q_init (systemv_ops lc vapi) e s = Ret (Some v, e', s1) \<and>
      daemon_options (systemv_ops lc vapi) lc os b opts (daemon_init (Some v) e' eng, s1) = Ret (Inr (), dv, s2) \<longrightarrow>
      d_queue dv = Some v)"
proof (intro conjI impI)
  assume a: "q_init (posix_ops lc papi) e s = Ret (Some q, e', s1) \<and>
    daemon_options (posix_ops lc papi) lc os b opts (daemon_init (Some q) e' eng, s1) = Ret (Inr (), d, s2)"
  then show "d_queue d = Some q"
    using posix.options_keep_queue [OF _ posix.init_unopened] by (metis daemon.select_convs(2) daemon_init_def)
  from a show "attr q = \<lparr>mq_maxmsg = 10, mq_msgsize = 1024\<rparr>"
    by (auto simp: posix_queue_init_def outcome_simps split: prod.splits bool.splits)
next
  assume "q_init (systemv_ops lc vapi) e s = Ret (Some v, e', s1) \<and>
    daemon_options (systemv_ops lc vapi) lc os b opts (daemon_init (Some v) e' eng, s1) = Ret (Inr (), dv, s2)"
  then show "d_queue dv = Some v"
    using systemv.options_keep_queue [OF _ systemv.init_unopened] by (metis daemon.select_convs(2) daemon_init_def)
qed

theorem daemon_options_cannot_configure_queue_witness:
  "\<exists>q d s'. daemon_options (posix_ops sample_libc sample_mq_api) sample_libc sample_os dummy_build
      [(CHR ''b'', dec 64), (CHR ''s'', dec 5)] (daemon_init (Some q) (Some None) (Some dummy_engine), sample_proc sample_kernel0) =
      Ret (Inr (), d, s') \<and> d_queue d = Some q \<and> mq_msgsize (attr q) = 1024"
proof -
  let ?q = "\<lparr>mq = NOT_MQD_T, filename = None, attr = \<lparr>mq_maxmsg = 10, mq_msgsize = 1024\<rparr>\<rparr>"
  have init: "q_init (posix_ops sample_libc sample_mq_api) (Some None) (sample_proc sample_kernel0) =
      Ret (Some ?q, Some None, sample_proc sample_kernel0)"
    by (simp add: posix_queue_init_def alloc_def sample_libc_def sample_proc_def)
  obtain d s' where opts: "daemon_options (posix_ops sample_libc sample_mq_api) sample_libc sample_os dummy_build
      [(CHR ''b'', dec 64), (CHR ''s'', dec 5)] (daemon_init (Some ?q) (Some None) (Some dummy_engine), sample_proc sample_kernel0) =
      Ret (Inr (), d, s')"
    by (simp add: daemon_option_def daemon_attribute_def daemon_init_def parse_ulong_decimal posix_queue_set_attribute_def)
  from init opts have "d_queue d = Some ?q"
    using daemon_options_cannot_configure_queue [THEN conjunct1, THEN mp] by blast
  with opts show ?thesis by (intro exI [of _ ?q] exI [of _ d] exI [of _ s']) simp
qed


lemma start_privileges_uid:
  assumes "start_privileges lc os (d, s) = Ret (True, d', s')" and "d_engine d = Some eng" and "drop_privileges eng"
    and "\<And>u w w'. os_setuid os u w = (Ok (), w') \<Longrightarrow> os_getuid os w' = u"
    and "\<And>w u. os_getpwnam os ''nobody'' w = Some u \<Longrightarrow> u \<noteq> 0" and "\<And>w u. os_getpwnam os ''daemon'' w = Some u \<Longrightarrow> u \<noteq> 0"
  shows "os_getuid os (world s') \<noteq> 0"
proof (cases "os_getuid os (world s) = 0")
  case False
  then show ?thesis using assms(1-3) by (simp add: start_privileges_def)
next
  case True
  then obtain u where u: "os_getpwnam os ''nobody'' (world s) = Some u \<or> os_getpwnam os ''daemon'' (world s) = Some u" "syscall (os_setuid os u) s = (Ok (), s')"
    using start_privileges_True [OF assms(1)] assms(2,3) by auto
  then have "os_setuid os u (world s) = (Ok (), world s')" by (auto simp: syscall_def split: prod.splits sysret.splits)
  then show ?thesis using assms(4-6) u(1) by metis
qed

text \<open>C17: a daemon whose engine allows it does not run as root.  Where \<open>setuid\<close> sets the identity that \<open>getuid\<close> gives and neither of the two
  accounts that the program looks up, \<open>nobody\<close> and \<open>daemon\<close>, has the number 0, the process that reaches the loop with an engine
  that drops privileges has an identity other than 0.\<close>

theorem daemon_drops_privileges:
  assumes "\<And>u w w'. os_setuid os u w = (Ok (), w') \<Longrightarrow> os_getuid os w' = u" 
    and "\<And>w u. os_getpwnam os ''nobody'' w = Some u \<Longrightarrow> u \<noteq> 0" and "\<And>w u. os_getpwnam os ''daemon'' w = Some u \<Longrightarrow> u \<noteq> 0"
    and "daemon_main ops lc os b opts argc s = Ret (Running (d, s'))" and "d_engine d = Some eng" and "drop_privileges eng"
  shows "os_getuid os (world s') \<noteq> 0"
proof -
  obtain d1 s1 where "daemon_start ops lc os (d1, s1) = Ret (True, d, s')" using daemon_main_Running [OF assms(4)] by blast
  then have "run_steps ([start_daemonize lc os, start_pidfile lc os, start_group lc os, start_queue ops, start_buffer ops lc, start_engine] @
      [start_privileges lc os]) (d1, s1) = Ret (True, d, s')"
    by (simp add: daemon_start_def)
  then obtain d2 s2 where p: "start_privileges lc os (d2, s2) = Ret (True, d, s')" unfolding run_steps_snoc by auto
  then have "d_engine d2 = Some eng" using start_privileges_True [OF p] assms(5) by simp
  from start_privileges_uid [OF p this assms(6,1-3)] show ?thesis .
qed

text \<open>A system with an identity: the world are the kernel and the identity of the process.  Root has the number 0.\<close>

definition uid_os :: "(sample_kernel \<times> nat) os_api" where
  "uid_os = sample_os\<lparr>os_getuid := snd, os_setuid := (\<lambda>u w. (Ok (), (fst w, u))),
     os_getpwnam := (\<lambda>n w. if n = ''root'' then Some 0 else if n = ''nobody'' then Some 65534 else None)\<rparr>"

definition uid_mq_api :: "(sample_kernel \<times> nat) mq_api" where
  "uid_mq_api =
     \<lparr>o_rdonly = 0, o_wronly = 1, o_creat = 64, o_excl = 128, mq_open = (\<lambda>n fl mode um a w. (Ok 3, w)),
      mq_close = (\<lambda>d w. (Ok (), w)), mq_unlink = (\<lambda>n w. (Ok (), w)),
      mq_getattr = (\<lambda>d w. (Ok \<lparr>mq_maxmsg = 10, mq_msgsize = 1024\<rparr>, w)), mq_receive = (\<lambda>d n w. (Err 11, w)),
      mq_send = (\<lambda>d m p w. (Ok (), w)), on_freebsd = True, enosys = 78, sizeof_posix_queue = 40\<rparr>"

lemma uid_daemon_runs:
  "\<exists>d s'. daemon_main (posix_ops sample_libc uid_mq_api) sample_libc uid_os dummy_build
      [(CHR ''q'', ''/banipd''), (CHR ''t'', ''ban'')] 0 (sample_proc (sample_kernel0, 0)) = Ret (Running (d, s')) \<and> d_engine d = Some dummy_engine"
proof -
  have al: "alloc sample_libc n s = (True, s)" for n and s :: "(sample_kernel \<times> nat) proc"
    by (simp add: alloc_def sample_libc_def)
  have op: "posix_queue_open sample_libc uid_mq_api q name QUEUE_FL_OWNER e s = Ret (True, q\<lparr>filename := Some name, mq := 3\<rparr>, e, s)"
    for q name e and s :: "(sample_kernel \<times> nat) proc"
    by (simp add: posix_queue_open_def posix_queue_open_mq_def set_umask_def syscall_def al uid_mq_api_def Let_def)
  show ?thesis
    by (simp add: daemon_main_def posix_queue_init_def al daemon_init_def daemon_option_def daemon_start_def
        start_daemonize_def start_pidfile_def start_group_def start_queue_def op start_buffer_def posix_queue_get_attribute_def
        start_engine_def start_privileges_def dummy_engine_def uid_os_def sample_os_def syscall_def)
qed

theorem daemon_drops_privileges_witness:
  "\<exists>d s'. daemon_main (posix_ops sample_libc uid_mq_api) sample_libc uid_os dummy_build
      [(CHR ''q'', ''/banipd''), (CHR ''t'', ''ban'')] 0 (sample_proc (sample_kernel0, 0)) = Ret (Running (d, s')) \<and> snd (world s') \<noteq> 0"
proof -
  obtain d s' where r: "daemon_main (posix_ops sample_libc uid_mq_api) sample_libc uid_os dummy_build
      [(CHR ''q'', ''/banipd''), (CHR ''t'', ''ban'')] 0 (sample_proc (sample_kernel0, 0)) = Ret (Running (d, s'))" "d_engine d = Some dummy_engine"
    using uid_daemon_runs by blast
  have "os_getuid uid_os (world s') \<noteq> 0"
    by (rule daemon_drops_privileges [OF _ _ _ r]) (auto simp: uid_os_def sample_os_def dummy_engine_def split: if_splits)
  then have "snd (world s') \<noteq> 0" by (simp add: uid_os_def)
  with r(1) show ?thesis by blast
qed

end
