(* ===== verification/Daemon_Correct.thy ===== *)
theory Daemon_Correct
  imports Daemon
begin

text \<open>
  What one iteration of the daemon's loop does, for the daemon linked with POSIX queues and the packet
  filter of the BSDs: it never leaves the defined part of C on a message whose prefix, if any, is a number
  other than 0 and the largest one (\<open>clean_prefix\<close>), it bans the network that the message names, and it
  crashes on some of the other messages.
\<close>

section \<open>Lemmas\<close>

text \<open>The iteration after a successful receive.\<close>

definition daemon_after_receive ::
  "'w libc \<Rightarrow> 'w netlib \<Rightarrow> 'w engine \<Rightarrow> string \<Rightarrow> string \<Rightarrow> ('q, 'w) dstate \<Rightarrow> ('q, 'w) dstate outcome" where
  "daemon_after_receive lc nl eng t msg = (\<lambda>(d, s).
     andthen (parse_addr lc nl msg (d_error d) s) (\<lambda>(ok, addr, error, s).
     let d = d\<lparr>d_error := error\<rparr> in
     if \<not> ok then daemon_report lc (d, s)
     else
       andthen (e_handle eng (d_ctxt d) t addr error s) (\<lambda>(ok, error, s).
       let d = d\<lparr>d_error := error\<rparr> in
       if \<not> ok then daemon_report lc (d, s) else Ret (d, s))))"

lemma daemon_iteration_received:
  assumes "loop_ready eng t c d" and "d_queue d = Some q" and "d_buffer d = Some buf"
    and "q_receive ops q buf (unat (max_message_size d)) (d_error d) s = Ret (n, q', buf', d_error d, s')" and "n \<noteq> - 1"
    and "c_str buf' = Ret msg"
  shows "daemon_iteration ops lc nl (d, s) = daemon_after_receive lc nl eng t msg (d\<lparr>d_queue := Some q', d_buffer := Some buf'\<rparr>, s')"
proof -
  have d: "d_engine d = Some eng" "tablename d = Some t" using assms(1) by (simp_all add: loop_ready_def)
  have upd: "d\<lparr>d_queue := x, d_buffer := y, d_error := d_error d\<rparr> = d\<lparr>d_queue := x, d_buffer := y\<rparr>" for x y
    by (cases d) simp
  show ?thesis using assms(2-6) d by (simp add: daemon_iteration_def daemon_after_receive_def upd Let_def)
qed

lemma daemon_iteration_message:
  assumes "loop_ready eng t c d" and "d_queue d = Some q" and "d_buffer d = Some buf"
    and "mq_receive api (mq q) (unat (max_message_size d)) (world s) = (Ok m, w)" and "length m < unat (max_message_size d)"
  shows "daemon_iteration (posix_ops lc api) lc nl (d, s) =
    daemon_after_receive lc nl eng t (takeWhile (\<lambda>c. c \<noteq> NUL) m)
      (d\<lparr>d_queue := Some q, d_buffer := Some (m @ NUL # drop (Suc (length m)) buf)\<rparr>, s\<lparr>world := w\<rparr>)"
proof -
  have buf: "length buf = unat (max_message_size d)" using assms(1,3) by (simp add: loop_ready_def)
  have "posix_queue_receive lc api q buf (unat (max_message_size d)) (d_error d) s =
      Ret (int (length m), q, m @ NUL # drop (Suc (length m)) buf, d_error d, s\<lparr>world := w\<rparr>)"
    using posix_receive_message [OF assms(4)] assms(5) buf by simp
  then show ?thesis using daemon_iteration_received [OF assms(1-3)] c_str_first_NUL by (simp del: of_nat_eq_iff)
qed

lemma daemon_report_total:
  "d_error d = Some (Some m) \<Longrightarrow> daemon_report lc (d, s) = Ret (d\<lparr>d_error := Some None\<rparr>, log_msg m s)"
  by (simp add: daemon_report_def verr_error_def error_free_def)

lemma daemon_after_receive_total:
  assumes "formats lc" and "allocates lc" and "inet_pton_sound nl" and "gai_sane nl" and "NUL \<notin> set t"
    and "d_error d = Some None" and "d_ctxt d = Some (Fd_Ctxt fd)" and "NUL \<notin> set msg" and "clean_prefix msg"
  shows "\<exists>d' s'. daemon_after_receive lc nl (pf_engine lc nl api) t msg (d, s) = Ret (d', s') \<and>
    d' = d\<lparr>d_error := Some None\<rparr> \<and> (stderr_log s' = stderr_log s \<or> (\<exists>m. stderr_log s' = stderr_log s @ [m]))"
proof -
  obtain ok a e' s1 where p: "parse_addr lc nl msg (Some None) s = Ret (ok, a, e', s1)"
    "if ok then e' = Some None \<and> addr_wf a else (\<exists>m. e' = Some (Some m))" "stderr_log s1 = stderr_log s"
    using parse_addr_total [OF assms(3,4,1,2,8,9)] by blast
  show ?thesis
  proof (cases ok)
    case False
    then show ?thesis using p assms(6) by (auto simp: daemon_after_receive_def daemon_report_total log_msg_def)
  next
    case True
    then have a: "addr_wf a" "e' = Some None" using p(2) by simp_all
    obtain ok2 e2 s2 where h: "pf_handle lc nl api (Some (Fd_Ctxt fd)) t a (Some None) s1 = Ret (ok2, e2, s2)" "stderr_log s2 = stderr_log s1"
      using pf_handle_defined [OF assms(1,2,4) a(1) assms(5)] by blast
    have "reports lc ok2 (Some None) e2" by (rule pf_handle_reports [OF h(1)])
    then show ?thesis using True a p h assms(1,6,7)
      by (cases ok2) (auto simp: daemon_after_receive_def pf_engine_def daemon_report_total log_msg_def dest!: reports_False)
  qed
qed

text \<open>The network of a network.\<close>

lemma same_network_network:
  assumes "n \<le> 8 * k" and "k \<le> length a" and "length ip = k"
  shows "same_network n (take k (network n a)) ip \<longleftrightarrow> same_network n (take k a) ip"
proof -
  have "bit_at (take k (network n a)) p = bit_at (take k a) p" if "p < n" for p
  proof -
    have p: "p < 8 * k" "p div 8 < k" using that assms(1) by auto
    then have "bit_at (take k (network n a)) p = bit_at (network n a) p" "bit_at (take k a) p = bit_at a p"
      by (simp_all add: bit_at_def)
    then show ?thesis using bit_at_network [of p a n] that p assms(2) by simp
  qed
  then show ?thesis by (simp add: same_network_def list_all_iff)
qed

lemma dec_no_NUL: "NUL \<notin> set (dec n)"
  using dec_digits [of n] by (auto simp: list_all_iff is_digit_def)

text \<open>Parsing does not touch the tables of the packet filter.\<close>

lemma parse_ulong_tables:
  assumes "pf_frame_law lc nl api tables" and "parse_ulong lc str e s = Ret (ok, v, e', s')"
  shows "tables (world s') = tables (world s)"
proof -
  have "tables (world s') = tables (world s1)" if "andthen (set_generic_error lc e f args s1) (\<lambda>(e, s). Ret (False, v', e, s)) = Ret (ok, v, e', s')" for f args s1 v'
    using that pf_frameD(3) [OF assms(1)] by (auto simp: set_error_defs elim!: andthenE)
  then show ?thesis using assms(2) by (fastforce simp: parse_ulong_def Let_def split: prod.splits if_splits)
qed

lemma parse_addr_cidr_tables:
  assumes law: "pf_frame_law lc nl api tables" and r: "parse_addr_cidr lc nl str i e s = Ret (ok, a, buffer, e', s')"
  shows "tables (world s') = tables (world s)"
proof -
  obtain s1 where al: "alloc lc (length str + 1) s = (True, s1)"
    using r by (auto simp: parse_addr_cidr_def split: prod.splits bool.splits)
  with r obtain ok1 prefix e1 s2 where pu: "parse_ulong lc (drop (Suc i) str) e s1 = Ret (ok1, prefix, e1, s2)"
    by (auto simp: parse_addr_cidr_def Let_def elim!: andthenE)
  obtain g w where g: "getaddrinfo nl (take i str) True (world s2) = (g, w)"
    by (cases "getaddrinfo nl (take i str) True (world s2)")
  have w: "tables w = tables (world s)"
    using pf_frame_alloc [OF law al] parse_ulong_tables [OF law pu] pf_frameD(2) [OF law g] by simp
  show ?thesis using r al pu g w pf_frameD(3) [OF law]
    by (cases g) (fastforce simp: parse_addr_cidr_def Let_def set_error_defs elim!: andthenE
        split: list.splits if_splits af.splits option.splits)+
qed

lemma parse_addr_tables:
  assumes "pf_frame_law lc nl api tables" and "parse_addr lc nl str e s = Ret (ok, a, e', s')"
  shows "tables (world s') = tables (world s)"
proof -
  note err = pf_frameD(3) [OF assms(1)]
  have finish: "tables (world s2) = tables (world s1)" if "parse_addr_finish lc b host e1 s1 = Ret (ok1, r, e2, s2)" for b host e1 s1 ok1 r e2 s2
    using that err by (auto simp: parse_addr_finish_def Let_def set_error_defs elim!: andthenE split: if_splits)
  have host: "tables (world s2) = tables (world s)" if "parse_addr_host lc nl str e s = Ret (ok1, b, buffer, e2, s2)" for ok1 b buffer e2 s2
    using that err by (auto simp: parse_addr_host_def set_error_defs elim!: andthenE split: option.splits)
  have cidr: "tables (world s2) = tables (world s)" if "parse_addr_cidr lc nl str i e s = Ret (ok1, b, buffer, e2, s2)" for i ok1 b buffer e2 s2
    by (rule parse_addr_cidr_tables [OF assms(1) that])
  show ?thesis using assms(2)
    by (cases "strchr str CHR ''/''") (auto simp: parse_addr_def elim!: andthenE split: if_splits dest!: finish host cidr)
qed

section \<open>Properties\<close>

text \<open>C8: an iteration of the daemon with POSIX queues and the packet filter is defined and leaves the
  daemon as it was: whatever the kernel answers, as long as a received message fits the announced
  size and its prefix, if any, is a number that \<open>strtoul\<close> reads to its end, other than 0 and \<open>ULONG_MAX\<close>
  (\<open>clean_prefix\<close>), the iteration returns, \<open>error\<close> is fresh again, queue, buffer, engine and context
  are in place, and at most one diagnostic was printed.  Without the condition on the prefix the iteration can be
  undefined: see \<open>daemon_iteration_crash\<close>.\<close>

theorem daemon_iteration_safe:
  assumes "formats lc" and "allocates lc" and "inet_pton_sound nl" and "gai_sane nl" and "NUL \<notin> set t"
    and "loop_ready (pf_engine lc nl api) t (Some (Fd_Ctxt fd)) d" and "d_error d = Some None" and "d_queue d = Some q"
    and "\<And>m w. mq_receive papi (mq q) (unat (max_message_size d)) (world s) = (Ok m, w) \<Longrightarrow>
      length m < unat (max_message_size d) \<and> clean_prefix (takeWhile (\<lambda>c. c \<noteq> NUL) m)"
  shows "\<exists>d' s'. daemon_iteration (posix_ops lc papi) lc nl (d, s) = Ret (d', s') \<and>
    loop_ready (pf_engine lc nl api) t (Some (Fd_Ctxt fd)) d' \<and> d_error d' = Some None \<and>
    (stderr_log s' = stderr_log s \<or> (\<exists>m. stderr_log s' = stderr_log s @ [m]))"
proof -
  obtain buf where buf: "d_buffer d = Some buf" "length buf = unat (max_message_size d)" "d_engine d = Some (pf_engine lc nl api)"
    "tablename d = Some t" "d_ctxt d = Some (Fd_Ctxt fd)" using assms(6) by (auto elim: loop_readyE)
  obtain r w where r: "mq_receive papi (mq q) (unat (max_message_size d)) (world s) = (r, w)"
    by (cases "mq_receive papi (mq q) (unat (max_message_size d)) (world s)")
  show ?thesis
  proof (cases r)
    case (Ok m)
    then have m: "length m < unat (max_message_size d)" "clean_prefix (takeWhile (\<lambda>c. c \<noteq> NUL) m)" using assms(9) r by auto
    have nul: "NUL \<notin> set (takeWhile (\<lambda>c. c \<noteq> NUL) m)" by (auto dest: set_takeWhileD)
    let ?d = "d\<lparr>d_queue := Some q, d_buffer := Some (m @ NUL # drop (Suc (length m)) buf)\<rparr>"
    have ready: "loop_ready (pf_engine lc nl api) t (Some (Fd_Ctxt fd)) (?d\<lparr>d_error := e\<rparr>)" for e
      using buf m(1) by (simp add: loop_ready_def)
    have it: "daemon_iteration (posix_ops lc papi) lc nl (d, s) =
        daemon_after_receive lc nl (pf_engine lc nl api) t (takeWhile (\<lambda>c. c \<noteq> NUL) m) (?d, s\<lparr>world := w\<rparr>)"
      using daemon_iteration_message [OF assms(6,8) buf(1) _ m(1)] r Ok by simp
    show ?thesis
      using daemon_after_receive_total [OF assms(1-5) _ _ nul m(2), of ?d fd api "s\<lparr>world := w\<rparr>"] assms(7) buf(5) ready it
      by auto
  next
    case (Err n)
    obtain m w' where e: "set_system_error lc (Some None) ''mq_receive failed'' [] (s\<lparr>world := w, errno := n\<rparr>) =
        Ret (Some (Some m), s\<lparr>errno := n, world := w'\<rparr>)"
      using set_system_error_first [OF assms(1,2), of "''mq_receive failed''" "[]" "s\<lparr>world := w, errno := n\<rparr>"] by auto
    then show ?thesis using Err r assms(6-8) buf
      by (simp add: daemon_iteration_def posix_queue_receive_def syscall_def daemon_report_total log_msg_def loop_ready_def)
  qed
qed


text \<open>A sample host: the world are the tables of the packet filter, and the queue holds one message for
  ever.\<close>

type_synonym sample_host = "(string \<times> pfr_addr) set"

definition one_message_api :: "char list sysret \<Rightarrow> 'w mq_api" where
  "one_message_api m =
     \<lparr>o_rdonly = 0, o_wronly = 1, o_creat = 64, o_excl = 128, mq_open = (\<lambda>n fl mode um a w. (Ok 3, w)),
      mq_close = (\<lambda>d w. (Ok (), w)), mq_unlink = (\<lambda>n w. (Ok (), w)),
      mq_getattr = (\<lambda>d w. (Ok \<lparr>mq_maxmsg = 10, mq_msgsize = 1024\<rparr>, w)), mq_receive = (\<lambda>d n w. (m, w)),
      mq_send = (\<lambda>d m p w. (Ok (), w)), on_freebsd = True, enosys = 78, sizeof_posix_queue = 40\<rparr>"

definition sample_running :: "'w engine \<Rightarrow> ctxt option \<Rightarrow> (posix_queue, 'w) daemon" where
  "sample_running eng c =
     (daemon_init (Some (sample_queue 3)) (Some None) (Some eng))
       \<lparr>d_ctxt := c, d_buffer := Some (replicate 1025 NUL), max_message_size := 1025, queuename := Some ''/banipd'',
        tablename := Some ''ban''\<rparr>"

lemma sample_running_ready: "loop_ready eng ''ban'' c (sample_running eng c)"
  by (simp add: loop_ready_def sample_running_def daemon_init_def)

lemma sample_gai_sane: "gai_sane sample_netlib"
  by (auto simp: gai_sane_def sample_netlib_def sane_addr_def split: option.splits dest!: dotted_quad_Some colon_hex_Some)

lemma sample_clean: "clean_prefix ''192.0.2.77/24''"
  by (simp add: clean_prefix_def strtoul_def is_space_def is_digit_def)

theorem daemon_iteration_safe_witness:
  "\<exists>d' s'. daemon_iteration (posix_ops sample_libc (one_message_api (Ok ''192.0.2.77/24''))) sample_libc sample_netlib
      (sample_running (pf_engine sample_libc sample_netlib sample_pf_api) (Some (Fd_Ctxt 3)), sample_proc {}) = Ret (d', s') \<and>
    loop_ready (pf_engine sample_libc sample_netlib sample_pf_api) ''ban'' (Some (Fd_Ctxt 3)) d' \<and> d_error d' = Some None \<and>
    (stderr_log s' = stderr_log (sample_proc ({} :: sample_host)) \<or> (\<exists>m. stderr_log s' = stderr_log (sample_proc ({} :: sample_host)) @ [m]))"
  by (rule daemon_iteration_safe [OF sample_alloc_formats sample_inet_pton_sound sample_gai_sane _ sample_running_ready,
        where q = "sample_queue 3"])
    (auto simp: sample_running_def daemon_init_def one_message_api_def sample_clean)

text \<open>The daemon bans what it is told.  When the message \<open>host/n\<close> arrives, \<open>host\<close> a numeric address and
  \<open>n\<close> a prefix length of its family, then after an iteration that printed nothing exactly the
  addresses that matched the table before and those that agree with \<open>host\<close> on the first \<open>n\<close> bits
  match it.\<close>

lemma daemon_bans_network:
  assumes "allocates lc" and "inet_pton_sound nl" and "gai_numeric nl" and "NUL \<notin> set t"
    and "pf_add_law api tables" and "pf_frame_law lc nl api tables"
    and "loop_ready (pf_engine lc nl api) t (Some (Fd_Ctxt fd)) d" and "d_error d = Some None" and "d_queue d = Some q"
    and "mq_receive papi (mq q) (unat (max_message_size d)) (world s) = (Ok (host @ CHR ''/'' # dec n), w)" and "tables w = tables (world s)"
    and "length (host @ CHR ''/'' # dec n) < unat (max_message_size d)"
    and "NUL \<notin> set host" and "CHR ''/'' \<notin> set host" and "inet_pton nl f host = Some bs" and "0 < n"
    and "f = AF_INET \<and> n \<le> 32 \<or> f = AF_INET6 \<and> n \<le> 128" and "length ip = length bs"
    and "daemon_iteration (posix_ops lc papi) lc nl (d, s) = Ret (d', s')" and "stderr_log s' = stderr_log s"
  shows "pf_banned tables (world s') t' f' ip \<longleftrightarrow>
    pf_banned tables (world s) t' f' ip \<or> t' = take 31 t \<and> f' = f \<and> same_network n bs ip"
proof -
  let ?msg = "host @ CHR ''/'' # dec n" and ?a = "addr_of f host bs n"
  obtain buf where buf: "d_buffer d = Some buf" "d_ctxt d = Some (Fd_Ctxt fd)" using assms(7) by (auto elim: loop_readyE)
  have msg: "takeWhile (\<lambda>c. c \<noteq> NUL) ?msg = ?msg" using assms(13) dec_no_NUL by (auto simp: takeWhile_eq_all_conv)
  obtain w1 where p: "parse_addr lc nl ?msg (Some None) (s\<lparr>world := w\<rparr>) = Ret (True, ?a, Some None, s\<lparr>world := w1\<rparr>)"
    using parse_addr_cidr_eq [OF assms(2,3,1,13,14,15,16,17), of "Some None" "s\<lparr>world := w\<rparr>"] by auto
  have t1: "tables w1 = tables (world s)" using parse_addr_tables [OF assms(6) p] assms(11) by simp
  have "length host < HUMANREPR_SIZE" and len: "f = AF_INET \<and> length bs = 4 \<and> n \<le> 32 \<or> f = AF_INET6 \<and> length bs = 16 \<and> n \<le> 128"
    using assms(2,15,17) unfolding inet_pton_sound_def by fastforce+
  then have wf: "addr_wf ?a" using addr_of_wf(1) assms(13) by blast
  have it: "daemon_after_receive lc nl (pf_engine lc nl api) t ?msg
      (d\<lparr>d_queue := Some q, d_buffer := Some (?msg @ NUL # drop (Suc (length ?msg)) buf)\<rparr>, s\<lparr>world := w\<rparr>) = Ret (d', s')"
    using daemon_iteration_message [OF assms(7,9) buf(1) assms(10,12), of lc nl] assms(19) msg by simp
  then obtain ok e' s2 where h: "pf_handle lc nl api (Some (Fd_Ctxt fd)) t ?a (Some None) (s\<lparr>world := w1\<rparr>) = Ret (ok, e', s2)"
    using p assms(8) buf(2) by (auto simp: daemon_after_receive_def pf_engine_def Let_def elim!: andthenE)
  have "ok \<and> s2 = s'" using it p assms(8,20) buf(2) h pf_handle_log [OF h]
    by (auto simp: daemon_after_receive_def pf_engine_def log_msg_def Let_def split: if_splits dest!: daemon_report_Ret)
  then have h: "pf_handle lc nl api (Some (Fd_Ctxt fd)) t ?a (Some None) (s\<lparr>world := w1\<rparr>) = Ret (True, e', s')" using h by simp
  have "unat (of_nat n :: byte) = n" using len by (auto simp: unat_of_nat)
  then have "same_network (unat (netmask ?a)) (take (sa_size ?a) (sa ?a)) ip \<longleftrightarrow> same_network n bs ip"
    using same_network_network [of n "length bs" "bs @ replicate (16 - length bs) 0" ip] len assms(18) by (auto simp: addr_of_def)
  then show ?thesis
    using pf_handle_network [OF assms(5,6,4) wf h, of ip t' f'] t1 assms(18) by (auto simp: pf_banned_def addr_of_def)
qed


lemma sample_iteration:
  "\<exists>d' s'. daemon_iteration (posix_ops sample_libc (one_message_api (Ok (''192.0.2.77'' @ CHR ''/'' # dec 24)))) sample_libc sample_netlib
      (sample_running (pf_engine sample_libc sample_netlib sample_pf_api) (Some (Fd_Ctxt 3)), sample_proc {}) = Ret (d', s') \<and>
    stderr_log s' = []"
proof -
  let ?msg = "''192.0.2.77'' @ CHR ''/'' # dec 24" and ?eng = "pf_engine sample_libc sample_netlib sample_pf_api"
  have nul: "NUL \<notin> set ?msg" using dec_no_NUL [of 24] by auto
  have tw: "takeWhile (\<lambda>c. c \<noteq> NUL) ?msg = ?msg" using nul by (auto simp: takeWhile_eq_all_conv)
  have al: "allocates (sample_libc :: sample_host libc)" by (simp add: allocates_def sample_libc_def)
  have pt: "inet_pton sample_netlib AF_INET ''192.0.2.77'' = Some [192, 0, 2, 77]"
    by (simp add: sample_netlib_def sample_inet_pton_def dotted_quad_def octet_def is_digit_def)
  obtain w where p: "parse_addr sample_libc sample_netlib ?msg (Some None) (sample_proc ({} :: sample_host)) =
      Ret (True, sample_addr, Some None, (sample_proc {})\<lparr>world := w\<rparr>)"
    unfolding sample_addr_def
    using parse_addr_cidr_eq [OF sample_laws al _ _ pt, of 24 "Some None" "sample_proc {}"] by auto
  have "w = {}" using parse_addr_tables [OF sample_pf_laws(2) p] by (simp add: sample_proc_def)
  then have p: "parse_addr sample_libc sample_netlib ?msg (Some None) (sample_proc ({} :: sample_host)) =
      Ret (True, sample_addr, Some None, sample_proc {})" using p by (simp add: sample_proc_def)
  obtain s' where h: "pf_handle sample_libc sample_netlib sample_pf_api (Some (Fd_Ctxt 3)) ''ban'' sample_addr (Some None) (sample_proc {}) =
      Ret (True, Some None, s')" using sample_pf_handle by blast
  have log: "stderr_log s' = []" using pf_handle_log [OF h] by (simp add: sample_proc_def)
  have len: "length ?msg < 1025" by (simp add: dec.simps [of 24] dec.simps [of 2])
  have it: "daemon_iteration (posix_ops sample_libc (one_message_api (Ok ?msg))) sample_libc sample_netlib
      (sample_running ?eng (Some (Fd_Ctxt 3)), sample_proc {}) =
    daemon_after_receive sample_libc sample_netlib ?eng ''ban'' ?msg
      ((sample_running ?eng (Some (Fd_Ctxt 3)))\<lparr>d_queue := Some (sample_queue 3),
        d_buffer := Some (?msg @ NUL # drop (Suc (length ?msg)) (replicate 1025 NUL))\<rparr>, sample_proc {})"
  proof -
    have 1: "d_queue (sample_running ?eng (Some (Fd_Ctxt 3))) = Some (sample_queue 3)"
      "d_buffer (sample_running ?eng (Some (Fd_Ctxt 3))) = Some (replicate 1025 NUL)"
      "max_message_size (sample_running ?eng (Some (Fd_Ctxt 3))) = 1025" by (simp_all add: sample_running_def daemon_init_def)
    have 2: "mq_receive (one_message_api (Ok ?msg)) (mq (sample_queue 3)) (unat (max_message_size (sample_running ?eng (Some (Fd_Ctxt 3)))))
        (world (sample_proc {})) = (Ok ?msg, {})" by (simp add: one_message_api_def sample_proc_def)
    have 3: "(sample_proc {})\<lparr>world := {}\<rparr> = sample_proc {}" by (simp add: sample_proc_def)
    show ?thesis using daemon_iteration_message [OF sample_running_ready 1(1,2) 2, of sample_libc sample_netlib] len
      unfolding tw 3 1(3) by simp
  qed
  show ?thesis unfolding it using p h log
    by (auto simp: daemon_after_receive_def pf_engine_def sample_running_def daemon_init_def)
qed

lemma daemon_bans_network_witness:
  "\<exists>d' s'. daemon_iteration (posix_ops sample_libc (one_message_api (Ok (''192.0.2.77'' @ CHR ''/'' # dec 24)))) sample_libc sample_netlib
      (sample_running (pf_engine sample_libc sample_netlib sample_pf_api) (Some (Fd_Ctxt 3)), sample_proc {}) = Ret (d', s') \<and>
    pf_banned (\<lambda>w. w) (world s') ''ban'' AF_INET [192, 0, 2, 99] \<and> \<not> pf_banned (\<lambda>w. w) (world s') ''ban'' AF_INET [192, 0, 3, 77]"
proof -
  let ?msg = "''192.0.2.77'' @ CHR ''/'' # dec 24" and ?eng = "pf_engine sample_libc sample_netlib sample_pf_api"
  let ?d = "sample_running ?eng (Some (Fd_Ctxt 3)) :: (posix_queue, sample_host) daemon"
  obtain d' s' where it: "daemon_iteration (posix_ops sample_libc (one_message_api (Ok ?msg))) sample_libc sample_netlib
      (?d, sample_proc {}) = Ret (d', s')" and log: "stderr_log s' = []" using sample_iteration by blast
  have al: "allocates (sample_libc :: sample_host libc)" by (simp add: allocates_def sample_libc_def)
  have pt: "inet_pton sample_netlib AF_INET ''192.0.2.77'' = Some [192, 0, 2, 77]"
    by (simp add: sample_netlib_def sample_inet_pton_def dotted_quad_def octet_def is_digit_def)
  have d: "d_error ?d = Some None" "d_queue ?d = Some (sample_queue 3)" "unat (max_message_size ?d) = 1025"
    by (simp_all add: sample_running_def daemon_init_def)
  have bans: "pf_banned (\<lambda>w. w) (world s') ''ban'' AF_INET ip \<longleftrightarrow>
      pf_banned (\<lambda>w. w) (world (sample_proc ({} :: sample_host))) ''ban'' AF_INET ip \<or>
      ''ban'' = take 31 ''ban'' \<and> AF_INET = AF_INET \<and> same_network 24 [192, 0, 2, 77] ip" if "length ip = 4" for ip
    by (rule daemon_bans_network [OF al sample_laws _ sample_pf_laws sample_running_ready d(1,2) _ _ _ _ _ pt _ _ _ it])
      (use that log d(3) in \<open>auto simp: one_message_api_def sample_proc_def dec.simps [of 24] dec.simps [of 2]\<close>)
  have "same_network 24 [192, 0, 2, 77] [192, 0, 2, 99]" "\<not> same_network 24 [192, 0, 2, 77] [192, 0, 3, 77]"
    by (simp_all add: same_network_def bit_at_def upt_rec bit_iff_odd)
  with it bans [of "[192, 0, 2, 99]"] bans [of "[192, 0, 3, 77]"] show ?thesis
    by (simp add: pf_banned_def sample_proc_def)
qed


text \<open>C10: one message ends the daemon.  When the text of a received message is \<open>host/prefix\<close> with a
  prefix that does not start a positive number and a host that is not numeric, the iteration runs
  into the second call of \<open>_error_set\<close>, which frees the address of \<open>error\<close>.\<close>

theorem daemon_iteration_crash:
  assumes "formats lc" and "allocates lc" and "loop_ready eng t c d" and "d_error d = Some None" and "d_queue d = Some q"
    and "mq_receive papi (mq q) (unat (max_message_size d)) (world s) = (Ok (host @ CHR ''/'' # prefix), w)"
    and "length (host @ CHR ''/'' # prefix) < unat (max_message_size d)" and "NUL \<notin> set (host @ CHR ''/'' # prefix)"
    and "CHR ''/'' \<notin> set host" and "fst (strtoul prefix) = 0" and "\<And>w. \<exists>r w'. getaddrinfo nl host True w = (Inl r, w')"
  shows "daemon_iteration (posix_ops lc papi) lc nl (d, s) = Undef Invalid_Free"
proof -
  let ?msg = "host @ CHR ''/'' # prefix"
  obtain buf where buf: "d_buffer d = Some buf" using assms(3) by (auto elim: loop_readyE)
  have msg: "takeWhile (\<lambda>c. c \<noteq> NUL) ?msg = ?msg" using assms(8) by (auto simp: takeWhile_eq_all_conv)
  show ?thesis
    unfolding daemon_iteration_message [OF assms(3,5) buf assms(6,7)] msg
    by (simp add: daemon_after_receive_def assms(4) parse_addr_twice [OF assms(1,2,9-11)])
qed

theorem daemon_iteration_crash_witness:
  "daemon_iteration (posix_ops sample_libc (one_message_api (Ok (''x'' @ CHR ''/'' # ''y'')))) sample_libc sample_netlib
     (sample_running (pf_engine sample_libc sample_netlib sample_pf_api) (Some (Fd_Ctxt 3)), sample_proc ({} :: sample_host)) =
   Undef Invalid_Free"
proof (rule daemon_iteration_crash [OF sample_alloc_formats sample_running_ready, where q = "sample_queue 3" and w = "{}"])
  show "fst (strtoul ''y'') = 0" by (simp add: strtoul_def is_space_def is_digit_def)
  show "\<exists>r w'. getaddrinfo sample_netlib ''x'' True w = (Inl r, w')" for w :: sample_host
    by (simp add: sample_netlib_def dotted_quad_def colon_hex_def octet_def hextet_def hex_digit_def is_digit_def)
qed (simp_all add: sample_running_def daemon_init_def one_message_api_def sample_proc_def)

end
