(* ===== verification/Refinement.thy ===== *)
theory Refinement
  imports Prelude
begin

text \<open>
  Simulations between a program whose steps may be undefined and a specification that is a function.
  A step of the program belongs to an event; where the specification allows the event, the step of the
  program returns, keeps the invariant and commutes with the abstraction.
\<close>

section \<open>Runs\<close>

fun run_events :: "('e \<Rightarrow> 's \<Rightarrow> 's outcome) \<Rightarrow> 'e list \<Rightarrow> 's \<Rightarrow> 's outcome" where
  "run_events step [] s = Ret s"
| "run_events step (e # es) s = andthen (step e s) (run_events step es)"

text \<open>The specification runs along; every event has to be allowed where it happens.\<close>

fun spec_events :: "('e \<Rightarrow> 'a \<Rightarrow> 'a) \<Rightarrow> 'e list \<Rightarrow> 'a \<Rightarrow> 'a" where
  "spec_events spec [] a = a"
| "spec_events spec (e # es) a = spec_events spec es (spec e a)"

fun allowed_events :: "('e \<Rightarrow> 'a \<Rightarrow> bool) \<Rightarrow> ('e \<Rightarrow> 'a \<Rightarrow> 'a) \<Rightarrow> 'e list \<Rightarrow> 'a \<Rightarrow> bool" where
  "allowed_events allowed spec [] a \<longleftrightarrow> True"
| "allowed_events allowed spec (e # es) a \<longleftrightarrow> allowed e a \<and> allowed_events allowed spec es (spec e a)"

fun repeat_step :: "('s \<Rightarrow> 's outcome) \<Rightarrow> nat \<Rightarrow> 's \<Rightarrow> 's outcome" where
  "repeat_step step 0 s = Ret s"
| "repeat_step step (Suc n) s = andthen (step s) (repeat_step step n)"

lemma repeat_step_events: "repeat_step step n s = run_events (\<lambda>_. step) (replicate n ()) s"
proof (induction n arbitrary: s)
  case (Suc n)
  then have "repeat_step step n = run_events (\<lambda>_. step) (replicate n ())" by (simp add: fun_eq_iff)
  then show ?case by simp
qed simp

lemma run_events_append: "run_events step (es1 @ es2) s = andthen (run_events step es1 s) (run_events step es2)"
proof (induction es1 arbitrary: s)
  case (Cons e es1)
  then show ?case by (cases "step e s") auto
qed simp

lemma spec_events_replicate: "spec_events (\<lambda>_. spec) (replicate n ()) a = (spec ^^ n) a"
  by (induction n arbitrary: a) (simp_all add: funpow_Suc_right del: funpow.simps(2))

lemma allowed_events_replicate:
  "\<forall>k<n. busy ((spec ^^ k) a) \<Longrightarrow> allowed_events (\<lambda>_. busy) (\<lambda>_. spec) (replicate n ()) a"
proof (induction n arbitrary: a)
  case (Suc n)
  have "\<forall>k<n. busy ((spec ^^ k) (spec a))" using Suc.prems by (metis Suc_less_eq comp_apply funpow_Suc_right)
  moreover have "busy a" using Suc.prems by fastforce
  ultimately show ?case using Suc.IH by simp
qed simp

section \<open>Simulations\<close>

locale event_refinement =
  fixes step :: "'e \<Rightarrow> 's \<Rightarrow> 's outcome" and inv :: "'s \<Rightarrow> bool" and abstr :: "'s \<Rightarrow> 'a"
    and spec :: "'e \<Rightarrow> 'a \<Rightarrow> 'a" and allowed :: "'e \<Rightarrow> 'a \<Rightarrow> bool"
  assumes event_refines: "inv s \<Longrightarrow> allowed e (abstr s) \<Longrightarrow> \<exists>s'. step e s = Ret s' \<and> inv s' \<and> abstr s' = spec e (abstr s)"
begin

lemma run_refines:
  "inv s \<Longrightarrow> allowed_events allowed spec es (abstr s) \<Longrightarrow>
   \<exists>s'. run_events step es s = Ret s' \<and> inv s' \<and> abstr s' = spec_events spec es (abstr s)"
proof (induction es arbitrary: s)
  case (Cons e es)
  obtain s1 where s1: "step e s = Ret s1" "inv s1" "abstr s1 = spec e (abstr s)" using event_refines [of s e] Cons.prems by auto
  with Cons.IH [OF s1(2)] Cons.prems show ?case by simp
qed simp

end

text \<open>A program with one kind of step.\<close>

locale step_refinement =
  fixes step :: "'s \<Rightarrow> 's outcome" and inv :: "'s \<Rightarrow> bool" and abstr :: "'s \<Rightarrow> 'a" and spec :: "'a \<Rightarrow> 'a" and busy :: "'a \<Rightarrow> bool"
  assumes step_refines: "inv s \<Longrightarrow> busy (abstr s) \<Longrightarrow> \<exists>s'. step s = Ret s' \<and> inv s' \<and> abstr s' = spec (abstr s)"

sublocale step_refinement \<subseteq> events: event_refinement "\<lambda>_ :: unit. step" inv abstr "\<lambda>_. spec" "\<lambda>_. busy"
  by unfold_locales (rule step_refines)

context step_refinement
begin

lemma repeat_refines:
  "inv s \<Longrightarrow> \<forall>k<n. busy ((spec ^^ k) (abstr s)) \<Longrightarrow>
   \<exists>s'. repeat_step step n s = Ret s' \<and> inv s' \<and> abstr s' = (spec ^^ n) (abstr s)"
  using events.run_refines [of s "replicate n ()"] allowed_events_replicate [of n busy spec "abstr s"]
  by (simp add: repeat_step_events spec_events_replicate)

end

end
