(* ===== verification/Daemon_Refinement.thy ===== *)
theory Daemon_Refinement
  imports Daemon_Correct Refinement
begin

text \<open>
  The daemon as a server.  An abstract specification has two components: the messages that wait and the
  addresses that are banned; a step takes the first message and bans the network that it names.
  The loop of the daemon, linked with POSIX queues and the packet filter, refines this
  specification step by step, and so it empties its queue.
\<close>

section \<open>The specification\<close>

text \<open>The network that a message names: family, address and prefix length.\<close>

definition ban_of :: "'w netlib \<Rightarrow> string \<Rightarrow> (af \<times> byte list \<times> nat) option" where
  "ban_of nl msg =
     (case strchr msg CHR ''/'' of
        None \<Rightarrow>
          (case inet_pton nl AF_INET msg of
             Some bs \<Rightarrow> Some (AF_INET, bs, 32)
           | None \<Rightarrow> map_option (\<lambda>bs. (AF_INET6, bs, 64)) (inet_pton nl AF_INET6 msg))
      | Some i \<Rightarrow>
          let n = unat (fst (strtoul (drop (Suc i) msg))) in
          (case inet_pton nl AF_INET (take i msg) of
             Some bs \<Rightarrow> if n \<le> 32 then Some (AF_INET, bs, n) else None
           | None \<Rightarrow>
               (case inet_pton nl AF_INET6 (take i msg) of
                  Some bs \<Rightarrow> if n \<le> 128 then Some (AF_INET6, bs, n) else None
                | None \<Rightarrow> None)))"

definition spec_bans :: "'w netlib \<Rightarrow> string \<Rightarrow> (af \<times> byte list) set" where
  "spec_bans nl msg =
     (case ban_of nl msg of
        None \<Rightarrow> {}
      | Some (f, bs, n) \<Rightarrow> {(f', ip). f' = f \<and> length ip = length bs \<and> same_network n bs ip})"

type_synonym spec_state = "string list \<times> (af \<times> byte list) set"

fun spec_step :: "'w netlib \<Rightarrow> spec_state \<Rightarrow> spec_state" where
  "spec_step nl ([], B) = ([], B)"
| "spec_step nl (m # ms, B) = (ms, B \<union> spec_bans nl m)"

text \<open>The length of an address.\<close>

definition af_length :: "af \<Rightarrow> nat" where
  "af_length f = (if f = AF_INET then 4 else 16)"

text \<open>The abstraction of a state of the world: the texts that wait in the queue \<open>name\<close>, and the addresses
  that match the table.\<close>

definition daemon_abs :: "'w mq_names \<Rightarrow> 'w pf_tables \<Rightarrow> string \<Rightarrow> string \<Rightarrow> 'w \<Rightarrow> spec_state" where
  "daemon_abs kq tables name t w =
     ((case kq w name of None \<Rightarrow> [] | Some (a, ms) \<Rightarrow> map message_text ms),
      {(f, ip). length ip = af_length f \<and> pf_banned tables w (take 31 t) f ip})"

section \<open>Parsing computes the specification\<close>

lemma parse_addr_cidr_value:
  assumes "parse_addr_cidr lc nl str i e s = Ret (True, addr, buffer, e', s')"
  shows "\<exists>f bs. inet_pton nl f (take i str) = Some bs \<and>
    (f = AF_INET \<and> fst (strtoul (drop (Suc i) str)) \<le> 32 \<or> f = AF_INET6 \<and> fst (strtoul (drop (Suc i) str)) \<le> 128)"
proof -
  obtain s1 where al: "alloc lc (length str + 1) s = (True, s1)"
    using assms by (auto simp: parse_addr_cidr_def split: prod.splits bool.splits)
  with assms obtain ok prefix e1 s2 where pu: "parse_ulong lc (drop (Suc i) str) e s1 = Ret (ok, prefix, e1, s2)"
    by (auto simp: parse_addr_cidr_def Let_def elim!: andthenE)
  with assms al obtain res rest w where gai: "getaddrinfo nl (take i str) True (world s2) = (Inr (res # rest), w)"
    by (auto simp: parse_addr_cidr_def Let_def elim!: andthenE split: prod.splits sum.splits list.splits)
  from assms al pu gai have "\<not> (ai_family res = AF_INET \<and> 32 < prefix)" "\<not> (ai_family res = AF_INET6 \<and> 128 < prefix)"
    by (auto simp: parse_addr_cidr_def Let_def elim!: andthenE)
  with assms al pu gai parse_ulong_value [OF pu] show ?thesis
    by (auto simp: parse_addr_cidr_def Let_def linorder_not_less elim!: andthenE split: af.splits option.splits if_splits
        intro!: exI [of _ "ai_family res"])
qed

lemma gai_one_family:
  assumes "gai_numeric nl" and "inet_pton nl AF_INET host = Some bs"
  shows "inet_pton nl AF_INET6 host = None"
proof (rule ccontr)
  assume "inet_pton nl AF_INET6 host \<noteq> None"
  then obtain bs' where 6: "inet_pton nl AF_INET6 host = Some bs'" by blast
  fix w
  have law: "\<exists>res more w'. getaddrinfo nl host True w = (Inr (res # more), w') \<and> ai_family res = f"
    if "f \<in> {AF_INET, AF_INET6}" "inet_pton nl f host = Some b" for f b
    using assms(1) that unfolding gai_numeric_def by blast
  show False using law [OF _ assms(2)] law [OF _ 6] by auto
qed

lemma parse_addr_ban_of_host:
  assumes laws: "inet_pton_sound nl" "gai_numeric nl" "allocates lc" and str: "NUL \<notin> set str" "clean_prefix str"
    and r: "parse_addr lc nl str (Some None) s = Ret (ok, a, e', s')"
    and None: "strchr str CHR ''/'' = None"
  shows "case ban_of nl str of
      None \<Rightarrow> \<not> ok
    | Some (f, bs, n) \<Rightarrow> ok \<and> a = addr_of f (takeWhile (\<lambda>c. c \<noteq> CHR ''/'') str) bs n \<and>
        (f = AF_INET \<and> length bs = 4 \<and> n \<le> 32 \<or> f = AF_INET6 \<and> length bs = 16 \<and> n \<le> 128)"
proof -
  from None have sl: "CHR ''/'' \<notin> set str" "takeWhile (\<lambda>c. c \<noteq> CHR ''/'') str = str"
    by (auto simp: strchr_None_iff takeWhile_eq_all_conv)
  have len: "length bs = (if f = AF_INET then 4 else 16)" if "inet_pton nl f str = Some bs" "f \<in> {AF_INET, AF_INET6}" for f bs
    using laws(1) that unfolding inet_pton_sound_def by fastforce
  show ?thesis
  proof (cases "inet_pton nl AF_INET str")
    case v4: (Some bs)
    then show ?thesis unfolding sl(2) using None r len [of AF_INET] parse_addr_host_v4 [OF laws(1) v4 str(1) sl(1), of lc "Some None" s]
      by (simp add: ban_of_def)
  next
    case v6: None
    show ?thesis
    proof (cases "inet_pton nl AF_INET6 str")
      case (Some bs)
      then show ?thesis unfolding sl(2) using None v6 r len [of AF_INET6] parse_addr_host_v6 [OF laws(1) v6 Some str(1) sl(1), of lc "Some None" s]
        by (simp add: ban_of_def)
    next
      case no: None
      then show ?thesis using None v6 r by (auto simp: ban_of_def parse_addr_def parse_addr_host_def elim!: andthenE)
    qed
  qed
qed

lemma parse_addr_ban_of_cidr:
  assumes laws: "inet_pton_sound nl" "gai_numeric nl" "allocates lc" and str: "NUL \<notin> set str" "clean_prefix str"
    and r: "parse_addr lc nl str (Some None) s = Ret (ok, a, e', s')"
    and Some: "strchr str CHR ''/'' = Some i"
  shows "case ban_of nl str of
      None \<Rightarrow> \<not> ok
    | Some (f, bs, n) \<Rightarrow> ok \<and> a = addr_of f (takeWhile (\<lambda>c. c \<noteq> CHR ''/'') str) bs n \<and>
        (f = AF_INET \<and> length bs = 4 \<and> n \<le> 32 \<or> f = AF_INET6 \<and> length bs = 16 \<and> n \<le> 128)"
proof -
  let ?host = "take i str" and ?v = "fst (strtoul (drop (Suc i) str))"
  have host: "takeWhile (\<lambda>c. c \<noteq> CHR ''/'') str = ?host" using Some by (rule strchr_Some_takeWhile)
  have nosl: "CHR ''/'' \<notin> set ?host" unfolding host [symmetric] by (auto dest: set_takeWhileD)
  have nul: "NUL \<notin> set ?host" using str in_set_takeD by fast
  have eq: "str = ?host @ CHR ''/'' # drop (Suc i) str" using Some unfolding strchr_Some_iff by (metis id_take_nth_drop)
  obtain w where al: "alloc lc (length (?host @ CHR ''/'' # drop (Suc i) str) + 1) s = (True, s\<lparr>world := w\<rparr>)"
    using allocatesD [OF laws(3)] by blast
  obtain v where pu: "parse_ulong lc (drop (Suc i) str) (Some None) (s\<lparr>world := w\<rparr>) = Ret (True, v, Some None, s\<lparr>world := w\<rparr>)"
    using clean_prefix_parse [OF str(2) Some] by blast
  then have v: "v = ?v" by (rule parse_ulong_value)
  have good: "ok \<and> a = addr_of f ?host bs (unat ?v)"
    if "inet_pton nl f ?host = Some bs" "f = AF_INET \<and> ?v \<le> 32 \<or> f = AF_INET6 \<and> ?v \<le> 128" for f bs
    using parse_addr_slash [OF laws(1,2) nul nosl that(1) al pu] that(2) r eq v by auto
  have only: "\<exists>f bs. inet_pton nl f ?host = Some bs \<and> (f = AF_INET \<and> ?v \<le> 32 \<or> f = AF_INET6 \<and> ?v \<le> 128)" if ok
    using r that Some parse_addr_cidr_value [of lc nl str i "Some None" s]
    by (auto simp: parse_addr_def elim!: andthenE split: if_splits)
  have len: "length bs = (if f = AF_INET then 4 else 16)" if "inet_pton nl f ?host = Some bs" "f \<in> {AF_INET, AF_INET6}" for f bs
    using laws(1) that unfolding inet_pton_sound_def by fastforce
  have cmp: "unat ?v \<le> 32 \<longleftrightarrow> ?v \<le> 32" "unat ?v \<le> 128 \<longleftrightarrow> ?v \<le> 128" by (simp_all add: word_le_nat_alt)
  show ?thesis
    unfolding host using Some good only len gai_one_family [OF laws(2), of ?host] cmp
    by (fastforce simp: ban_of_def Let_def split: option.splits)
qed

lemma parse_addr_ban_of:
  assumes laws: "inet_pton_sound nl" "gai_numeric nl" "allocates lc" and str: "NUL \<notin> set str" "clean_prefix str"
    and r: "parse_addr lc nl str (Some None) s = Ret (ok, a, e', s')"
  shows "case ban_of nl str of
      None \<Rightarrow> \<not> ok
    | Some (f, bs, n) \<Rightarrow> ok \<and> a = addr_of f (takeWhile (\<lambda>c. c \<noteq> CHR ''/'') str) bs n \<and>
        (f = AF_INET \<and> length bs = 4 \<and> n \<le> 32 \<or> f = AF_INET6 \<and> length bs = 16 \<and> n \<le> 128)"
  using parse_addr_ban_of_host [OF assms] parse_addr_ban_of_cidr [OF assms] by (cases "strchr str CHR ''/''") blast+

section \<open>Lemmas on pf\_handle\<close>

text \<open>Where the device grants every addition, a call has added the entry, whatever the call returned.\<close>

lemma pf_handle_entry:
  assumes "pf_add_law api tables" and frame: "pf_frame_law lc nl api tables" and "\<And>fd io w. fst (DIOCRADDADDRS api fd io w) = Ok ()"
    and "NUL \<notin> set t" and "length (sa a) = 16" and r: "pf_handle lc nl api (Some (Fd_Ctxt fd)) t a e s = Ret (ok, e', s')"
  shows "tables (world s') = insert (take 31 t, \<lparr>pfra_u = sa a, pfra_af = fa a, pfra_net = netmask a\<rparr>) (tables (world s))"
proof -
  let ?entry = "\<lparr>pfra_u = sa a, pfra_af = fa a, pfra_net = netmask a\<rparr>"
  obtain name where name: "strlcpy (replicate PF_TABLE_NAME_SIZE NUL) (t @ [NUL]) PF_TABLE_NAME_SIZE = Ret (length t, name)"
    "c_str name = Ret (take 31 t)" using pf_name [OF assms(4)] by auto
  let ?io = "\<lparr>pfrt_name = name, pfrio_buffer = ?entry\<rparr>"
  obtain w where io: "DIOCRADDADDRS api fd ?io (world s) = (Ok (), w)"
    using assms(3) [of fd ?io "world s"] by (cases "DIOCRADDADDRS api fd ?io (world s)") auto
  then have w: "tables w = insert (take 31 t, ?entry) (tables (world s))"
    using assms(1) name(2) unfolding pf_add_law_def by (metis pfioc_table.select_convs(1,2))
  obtain host mask where hm: "c_str (humanrepr a) = Ret host" "pf_mask (big_endian lc) (fa a) (unat (netmask a)) = Ret mask"
    using r name(1) io assms(5) by (auto simp: pf_handle_def Let_def syscall_def elim!: andthenE)
  obtain g w2 where g: "getaddrinfo nl host False w = (g, w2)" by (cases "getaddrinfo nl host False w")
  have w2: "tables w2 = tables w" by (rule pf_frameD(2) [OF frame g])
  show ?thesis using r name(1) io hm g w w2 assms(5) pf_frameD(3) [OF frame]
    by (cases g) (fastforce simp: pf_handle_def Let_def syscall_def set_error_defs elim!: andthenE dest!: pf_kill_loop_tables [OF frame])+
qed

text \<open>A call touches nothing that none of its requests touches.\<close>

lemma pf_handle_frame:
  assumes frame: "pf_frame_law lc nl api obs" and "\<And>fd io w. obs (snd (DIOCRADDADDRS api fd io w)) = obs w"
    and r: "pf_handle lc nl api (Some (Fd_Ctxt fd)) t a e s = Ret (ok, e', s')"
  shows "obs (world s') = obs (world s)"
proof -
  have add: "obs (world s2) = obs (world s1)" if "syscall (DIOCRADDADDRS api fd io) s1 = (x, s2)" for io s1 x s2
    using that assms(2) [of fd io "world s1"] by (auto simp: syscall_def split: prod.splits sysret.splits)
  have gai: "obs w2 = obs w1" if "getaddrinfo nl h b w1 = (g, w2)" for h b w1 g w2
    using pf_frameD(2) [OF frame that] .
  have err: "obs (world s2) = obs (world s1)" if "error_set lc e1 m s1 = Ret (e2, s2)" for e1 m s1 e2 s2
    using pf_frameD(3) [OF frame that] .
  from r show ?thesis
    by (auto simp: pf_handle_def Let_def set_error_defs elim!: andthenE split: prod.splits sysret.splits sum.splits
        dest!: add gai err pf_kill_loop_tables [OF frame])
qed

lemma pf_banned_insert:
  assumes "tables w' = insert (T, \<lparr>pfra_u = sa a, pfra_af = fa a, pfra_net = netmask a\<rparr>) (tables w)" and "a = addr_of f host bs n"
    and f: "f = AF_INET \<and> length bs = 4 \<and> n \<le> 32 \<or> f = AF_INET6 \<and> length bs = 16 \<and> n \<le> 128" and "length ip = af_length f'"
  shows "pf_banned tables w' T f' ip \<longleftrightarrow> pf_banned tables w T f' ip \<or> f' = f \<and> length ip = length bs \<and> same_network n bs ip"
proof -
  have n: "unat (of_nat n :: byte) = n" using f by (auto simp: unat_of_nat)
  have "same_network n (take (length bs) (network n (bs @ replicate (16 - length bs) 0))) ip \<longleftrightarrow> same_network n bs ip"
    if "length ip = length bs" using same_network_network [of n "length bs" "bs @ replicate (16 - length bs) 0" ip] f that by auto
  moreover have "f' = f \<Longrightarrow> length ip = length bs" using f assms(4) by (auto simp: af_length_def)
  ultimately show ?thesis unfolding assms(2) pf_banned_def using assms(1) n
    by (auto simp: assms(2) pf_matches_def addr_of_def)
qed

section \<open>The environment\<close>

text \<open>The C library has memory, and the resolver keeps the laws that parsing relies on.\<close>

definition platform :: "'w libc \<Rightarrow> 'w netlib \<Rightarrow> bool" where
  "platform lc nl \<longleftrightarrow> formats lc \<and> allocates lc \<and> inet_pton_sound nl \<and> gai_numeric nl \<and> gai_sane nl"

text \<open>
  The laws of the tables, for a device that grants every addition.  What \<open>view\<close> observes of the world, the
  queues, is apart: no request of the engine changes it.
\<close>

definition pf_system :: "'w libc \<Rightarrow> 'w netlib \<Rightarrow> 'w pf_api \<Rightarrow> 'w pf_tables \<Rightarrow> ('w \<Rightarrow> 'o) \<Rightarrow> bool" where
  "pf_system lc nl api tables view \<longleftrightarrow>
     pf_add_law api tables \<and> pf_frame_law lc nl api tables \<and> pf_frame_law lc nl api view \<and>
     (\<forall>fd io w. fst (DIOCRADDADDRS api fd io w) = Ok ()) \<and> (\<forall>fd io w. view (snd (DIOCRADDADDRS api fd io w)) = view w)"

text \<open>Together with the laws of POSIX queues, whose receive does not change the tables.\<close>

definition ban_system ::
  "'w libc \<Rightarrow> 'w netlib \<Rightarrow> 'w pf_api \<Rightarrow> 'w mq_api \<Rightarrow> 'w mq_names \<Rightarrow> 'w mq_descrs \<Rightarrow> 'w pf_tables \<Rightarrow> bool" where
  "ban_system lc nl api papi kq kd tables \<longleftrightarrow>
     mq_kernel lc papi kq kd \<and> pf_system lc nl api tables (\<lambda>w. (kq w, kd w)) \<and>
     (\<forall>d n w. tables (snd (mq_receive papi d n w)) = tables w)"

text \<open>A daemon that serves a queue on which the messages \<open>ms\<close> wait: the loop is set up, and the prefix of every
  message, if it has one, is a number other than 0 and \<open>ULONG_MAX\<close> (\<open>clean_prefix\<close>).\<close>

definition serves ::
  "'w engine \<Rightarrow> string \<Rightarrow> ('w \<Rightarrow> 'o) \<Rightarrow> ('o \<Rightarrow> 'q \<Rightarrow> nat \<Rightarrow> char list list \<Rightarrow> bool) \<Rightarrow> char list list \<Rightarrow> ('q, 'w) dstate \<Rightarrow> bool" where
  "serves eng t view waiting ms = (\<lambda>(d, s).
     \<exists>fd q. loop_ready eng t (Some (Fd_Ctxt fd)) d \<and> d_error d = Some None \<and> d_queue d = Some q \<and>
       waiting (view (world s)) q (unat (max_message_size d)) ms \<and> list_all (\<lambda>m. clean_prefix (message_text m)) ms)"

text \<open>The state of a daemon that serves the queue \<open>name\<close> through the descriptor of \<open>q\<close>: the loop is set up, and
  every waiting message fits the queue, and its prefix, if it has one, is a number other than 0 and \<open>ULONG_MAX\<close> (\<open>clean_prefix\<close>).\<close>

definition serving ::
  "'w libc \<Rightarrow> 'w netlib \<Rightarrow> 'w pf_api \<Rightarrow> 'w mq_names \<Rightarrow> 'w mq_descrs \<Rightarrow> string \<Rightarrow> string \<Rightarrow> (posix_queue, 'w) dstate \<Rightarrow> bool" where
  "serving lc nl api kq kd name t = (\<lambda>(d, s).
     \<exists>fd q a ms. loop_ready (pf_engine lc nl api) t (Some (Fd_Ctxt fd)) d \<and> d_error d = Some None \<and> d_queue d = Some q \<and>
       kd (world s) (mq q) = Some name \<and> kq (world s) name = Some (a, ms) \<and>
       unat (mq_msgsize a) < unat (max_message_size d) \<and>
       list_all (\<lambda>m. length m \<le> unat (mq_msgsize a) \<and> clean_prefix (message_text m)) ms)"

section \<open>One iteration\<close>

lemma after_receive_world:
  assumes r: "daemon_after_receive lc nl (pf_engine lc nl api) t msg (d, s) = Ret (d', s')"
    and d: "d_error d = Some None" "d_ctxt d = Some (Fd_Ctxt fd)"
  shows "\<exists>ok a e1 s1. parse_addr lc nl msg (Some None) s = Ret (ok, a, e1, s1) \<and>
    (if ok then \<exists>ok2 e2 s2. pf_handle lc nl api (Some (Fd_Ctxt fd)) t a e1 s1 = Ret (ok2, e2, s2) \<and> world s' = world s2
     else world s' = world s1)"
proof -
  obtain ok a e1 s1 where p: "parse_addr lc nl msg (Some None) s = Ret (ok, a, e1, s1)"
    using r d by (auto simp: daemon_after_receive_def elim!: andthenE)
  have rep: "world s2 = world s1" if "daemon_report lc (d1, s1) = Ret (d2, s2)" for d1 s1 d2 s2
    using daemon_report_Ret [OF that] by (auto simp: log_msg_def)
  show ?thesis
  proof (cases ok)
    case False
    then show ?thesis using r d p by (auto simp: daemon_after_receive_def dest!: rep)
  next
    case True
    then obtain ok2 e2 s2 where h: "pf_handle lc nl api (Some (Fd_Ctxt fd)) t a e1 s1 = Ret (ok2, e2, s2)"
      using r d p by (auto simp: daemon_after_receive_def pf_engine_def Let_def elim!: andthenE)
    then have "world s' = world s2" using r d p True
      by (cases ok2) (auto simp: daemon_after_receive_def pf_engine_def Let_def dest!: rep)
    with True p h show ?thesis by auto
  qed
qed


lemma after_receive_refines:
  assumes plat: "platform lc nl" and sys: "pf_system lc nl api tables view" and t: "NUL \<notin> set t"
    and d: "d_error d = Some None" "d_ctxt d = Some (Fd_Ctxt fd)" and msg: "NUL \<notin> set msg" "clean_prefix msg"
    and r: "daemon_after_receive lc nl (pf_engine lc nl api) t msg (d, s) = Ret (d', s')"
  shows "view (world s') = view (world s) \<and>
    (\<forall>f ip. length ip = af_length f \<longrightarrow>
      (pf_banned tables (world s') (take 31 t) f ip \<longleftrightarrow> pf_banned tables (world s) (take 31 t) f ip \<or> (f, ip) \<in> spec_bans nl msg))"
proof -
  have laws: "inet_pton_sound nl" "gai_numeric nl" "allocates lc" using plat by (auto simp: platform_def)
  have frame: "pf_frame_law lc nl api tables" "pf_frame_law lc nl api view" and add: "pf_add_law api tables"
    and grant: "\<And>fd io w. fst (DIOCRADDADDRS api fd io w) = Ok ()"
    and apart: "\<And>fd io w. view (snd (DIOCRADDADDRS api fd io w)) = view w"
    using sys by (auto simp: pf_system_def)
  obtain ok a e1 s1 where p: "parse_addr lc nl msg (Some None) s = Ret (ok, a, e1, s1)"
    and rest: "if ok then \<exists>ok2 e2 s2. pf_handle lc nl api (Some (Fd_Ctxt fd)) t a e1 s1 = Ret (ok2, e2, s2) \<and> world s' = world s2
      else world s' = world s1"
    using after_receive_world [OF r d] by blast
  have p1: "tables (world s1) = tables (world s)" "view (world s1) = view (world s)"
    using parse_addr_tables [OF frame(1) p] parse_addr_tables [OF frame(2) p] by simp_all
  note ban = parse_addr_ban_of [OF laws msg p]
  show ?thesis
  proof (cases ok)
    case False
    then have "spec_bans nl msg = {}" using ban by (auto simp: spec_bans_def split: option.splits prod.splits)
    then show ?thesis using False rest p1 by (simp add: pf_banned_def)
  next
    case True
    obtain f bs n where b: "ban_of nl msg = Some (f, bs, n)" using ban True by (cases "ban_of nl msg") auto
    let ?host = "takeWhile (\<lambda>c. c \<noteq> CHR ''/'') msg"
    have a: "a = addr_of f ?host bs n" and f: "f = AF_INET \<and> length bs = 4 \<and> n \<le> 32 \<or> f = AF_INET6 \<and> length bs = 16 \<and> n \<le> 128"
      using ban b by simp_all
    obtain ok2 e2 s2 where h: "pf_handle lc nl api (Some (Fd_Ctxt fd)) t a e1 s1 = Ret (ok2, e2, s2)" "world s' = world s2"
      using rest True by auto
    have "length (sa a) = 16" using parse_addr_True_wf [OF laws(1) msg(1)] p True by (auto simp: addr_wf_def)
    then have "tables (world s') = insert (take 31 t, \<lparr>pfra_u = sa a, pfra_af = fa a, pfra_net = netmask a\<rparr>) (tables (world s))"
      using pf_handle_entry [OF add frame(1) grant t _ h(1)] h(2) p1(1) by simp
    note ins = pf_banned_insert [where tables = tables, OF this a f]
    have "view (world s') = view (world s)"
      using pf_handle_frame [OF frame(2) apart h(1)] h(2) p1(2) by simp
    then show ?thesis using ins b by (auto simp: spec_bans_def)
  qed
qed

lemma spec_bans_length: "inet_pton_sound nl \<Longrightarrow> (f, ip) \<in> spec_bans nl msg \<Longrightarrow> length ip = af_length f"
  by (auto simp: inet_pton_sound_def spec_bans_def ban_of_def af_length_def Let_def split: option.splits if_splits)

section \<open>The daemon behind a channel\<close>

text \<open>A channel whose receive does not change the tables.\<close>

locale server_channel = message_channel ops laws view waiting
  for ops :: "('q, 'w) queue_ops" and laws :: bool and view :: "'w \<Rightarrow> 'o" and waiting :: "'o \<Rightarrow> 'q \<Rightarrow> nat \<Rightarrow> char list list \<Rightarrow> bool" +
  fixes tables :: "'w pf_tables"
  assumes receive_tables: "laws \<Longrightarrow> q_receive ops q b k e s = Ret (n, q', b', e', s') \<Longrightarrow> n \<noteq> - 1 \<Longrightarrow>
      tables (world s') = tables (world s)"
begin

text \<open>An iteration takes the first message and bans what it names.\<close>

lemma iteration_serves:
  assumes laws and plat: "platform lc nl" and sys: "pf_system lc nl api tables view" and t: "NUL \<notin> set t"
    and serve: "serves (pf_engine lc nl api) t view waiting (m # ms) (d, s)"
  shows "\<exists>d' s'. daemon_iteration ops lc nl (d, s) = Ret (d', s') \<and> serves (pf_engine lc nl api) t view waiting ms (d', s') \<and>
    (\<forall>f ip. length ip = af_length f \<longrightarrow>
      (pf_banned tables (world s') (take 31 t) f ip \<longleftrightarrow>
        pf_banned tables (world s) (take 31 t) f ip \<or> (f, ip) \<in> spec_bans nl (message_text m)))"
proof -
  obtain fd q where ready: "loop_ready (pf_engine lc nl api) t (Some (Fd_Ctxt fd)) d" and e: "d_error d = Some None" and q: "d_queue d = Some q"
    and wait: "waiting (view (world s)) q (unat (max_message_size d)) (m # ms)"
    and clean: "clean_prefix (message_text m)" "list_all (\<lambda>m. clean_prefix (message_text m)) ms"
    using serve by (auto simp: serves_def)
  obtain buf where buf: "d_buffer d = Some buf" "length buf = unat (max_message_size d)" "d_ctxt d = Some (Fd_Ctxt fd)"
    using ready by (auto elim: loop_readyE)
  have l: "formats lc" "allocates lc" "inet_pton_sound nl" "gai_sane nl" using plat by (simp_all add: platform_def)
  obtain n q' b' w where r: "q_receive ops q buf (unat (max_message_size d)) (d_error d) s = Ret (n, q', b', d_error d, s\<lparr>world := w\<rparr>)"
    "n \<noteq> - 1" "length b' = unat (max_message_size d)" "c_str b' = Ret (message_text m)" "waiting (view w) q' (unat (max_message_size d)) ms"
    using receive_first [OF assms(1) wait buf(2), of "d_error d"] by blast
  let ?d = "d\<lparr>d_queue := Some q', d_buffer := Some b'\<rparr>"
  have d: "d_error ?d = Some None" "d_ctxt ?d = Some (Fd_Ctxt fd)" using e buf(3) by simp_all
  obtain d' s' where a: "daemon_after_receive lc nl (pf_engine lc nl api) t (message_text m) (?d, s\<lparr>world := w\<rparr>) = Ret (d', s')"
    "d' = ?d\<lparr>d_error := Some None\<rparr>"
    using daemon_after_receive_total [OF l t d message_text_clean clean(1), of api "s\<lparr>world := w\<rparr>"] by blast
  have it: "daemon_iteration ops lc nl (d, s) = Ret (d', s')"
    using daemon_iteration_received [OF ready q buf(1) r(1,2,4), of lc nl] a(1) by simp
  note after = after_receive_refines [OF plat sys t d message_text_clean clean(1) a(1)]
  have "tables w = tables (world s)" using receive_tables [OF assms(1) r(1,2)] by simp
  then have "pf_banned tables (world (s\<lparr>world := w\<rparr>)) = pf_banned tables (world s)" by (simp add: pf_banned_def fun_eq_iff)
  moreover have "loop_ready (pf_engine lc nl api) t (Some (Fd_Ctxt fd)) d'" "d_error d' = Some None" "d_queue d' = Some q'"
    "max_message_size d' = max_message_size d"
    using ready a(2) r(3) by (simp_all add: loop_ready_def)
  then have "serves (pf_engine lc nl api) t view waiting ms (d', s')" using after r(5) clean(2) by (auto simp: serves_def)
  ultimately show ?thesis using it after by (intro exI [of _ d'] exI [of _ s']) simp
qed

lemma serves_drains:
  assumes laws and "platform lc nl" and "pf_system lc nl api tables view" and "NUL \<notin> set t"
  shows "serves (pf_engine lc nl api) t view waiting ms (d, s) \<Longrightarrow>
    \<exists>d' s'. repeat_step (daemon_iteration ops lc nl) (length ms) (d, s) = Ret (d', s') \<and>
      serves (pf_engine lc nl api) t view waiting [] (d', s') \<and>
      (\<forall>f ip. length ip = af_length f \<longrightarrow>
        (pf_banned tables (world s') (take 31 t) f ip \<longleftrightarrow>
          pf_banned tables (world s) (take 31 t) f ip \<or> (\<exists>m \<in> set ms. (f, ip) \<in> spec_bans nl (message_text m))))"
proof (induction ms arbitrary: d s)
  case (Cons m ms)
  obtain d1 s1 where 1: "daemon_iteration ops lc nl (d, s) = Ret (d1, s1)" "serves (pf_engine lc nl api) t view waiting ms (d1, s1)"
    "\<forall>f ip. length ip = af_length f \<longrightarrow> (pf_banned tables (world s1) (take 31 t) f ip \<longleftrightarrow>
      pf_banned tables (world s) (take 31 t) f ip \<or> (f, ip) \<in> spec_bans nl (message_text m))"
    using iteration_serves [OF assms Cons.prems] by blast
  from Cons.IH [OF 1(2)] show ?case using 1(1,3) by auto
qed simp

end

text \<open>Both implementations of the queue are such channels.\<close>

interpretation posix_server: server_channel "posix_ops lc papi"
  "mq_receive_law papi kq kd \<and> (\<forall>d n w. tables (snd (mq_receive papi d n w)) = tables w)" "\<lambda>w. (kq w, kd w)" "posix_waiting name a" tables
  for lc papi kq kd name a tables
proof (unfold_locales, goal_cases)
  case 1
  then show ?case by (blast intro: posix_channel.receive_first)
next
  case (2 q b k e s n q' b' e' s')
  then show ?case by (auto simp: posix_queue_receive_def set_error_defs elim!: andthenE split: prod.splits sysret.splits
      dest!: syscall_frame_law [where obs = tables, rotated])
qed

interpretation systemv_server: server_channel "systemv_ops lc yapi"
  "sv_msg_law yapi obs \<and> (\<forall>d n w. tables (snd (msgrcv yapi d n w)) = tables w)" obs
  "systemv_waiting i qbytes blk fixed" tables
  for lc yapi obs i qbytes blk fixed tables
proof (unfold_locales, goal_cases)
  case 1
  then show ?case by (blast intro: systemv_channel.receive_first)
next
  case (2 q b k e s n q' b' e' s')
  then show ?case by (auto simp: systemv_queue_receive_def set_error_defs elim!: andthenE split: prod.splits sysret.splits option.splits
      dest!: syscall_frame_law [where obs = tables, rotated])
qed

text \<open>The POSIX server: its abstraction follows the specification.\<close>

lemma iteration_refines:
  assumes plat: "platform lc nl" and sys: "ban_system lc nl api papi kq kd tables" and t: "NUL \<notin> set t"
    and serve: "serving lc nl api kq kd name t (d, s)" and busy: "kq (world s) name = Some (a, m # ms)"
  shows "\<exists>d' s'. daemon_iteration (posix_ops lc papi) lc nl (d, s) = Ret (d', s') \<and> serving lc nl api kq kd name t (d', s') \<and>
    kq (world s') name = Some (a, ms) \<and> daemon_abs kq tables name t (world s') = spec_step nl (daemon_abs kq tables name t (world s))"
proof -
  let ?view = "\<lambda>w. (kq w, kd w)"
  have laws: "mq_receive_law papi kq kd \<and> (\<forall>d n w. tables (snd (mq_receive papi d n w)) = tables w)" "pf_system lc nl api tables ?view"
    "inet_pton_sound nl" using sys plat kernel_laws(2) by (auto simp: ban_system_def platform_def)
  have "serves (pf_engine lc nl api) t ?view (posix_waiting name a) (m # ms) (d, s)"
    using serve busy by (fastforce simp: serving_def serves_def posix_waiting_def list_all_iff)
  from posix_server.iteration_serves [OF laws(1) plat laws(2) t this]
  obtain d' s' where it: "daemon_iteration (posix_ops lc papi) lc nl (d, s) = Ret (d', s')"
    and serves: "serves (pf_engine lc nl api) t ?view (posix_waiting name a) ms (d', s')"
    and ban: "\<forall>f ip. length ip = af_length f \<longrightarrow> (pf_banned tables (world s') (take 31 t) f ip \<longleftrightarrow>
      pf_banned tables (world s) (take 31 t) f ip \<or> (f, ip) \<in> spec_bans nl (message_text m))" by blast
  have "serving lc nl api kq kd name t (d', s')" "kq (world s') name = Some (a, ms)"
    using serves by (fastforce simp: serving_def serves_def posix_waiting_def list_all_iff)+
  moreover have "daemon_abs kq tables name t (world s') = spec_step nl (daemon_abs kq tables name t (world s))"
    using ban busy calculation(2) spec_bans_length [OF laws(3)] by (auto simp: daemon_abs_def)
  ultimately show ?thesis using it by blast
qed

section \<open>Many iterations\<close>

interpretation serve: step_refinement "daemon_iteration (posix_ops lc papi) lc nl"
  "\<lambda>ds. platform lc nl \<and> ban_system lc nl api papi kq kd tables \<and> NUL \<notin> set t \<and> serving lc nl api kq kd name t ds"
  "\<lambda>ds. daemon_abs kq tables name t (world (snd ds))" "spec_step nl" "\<lambda>a. fst a \<noteq> []"
  for lc nl api papi kq kd tables name t
proof (unfold_locales, elim conjE)
  fix ds :: "(posix_queue, 'a) dstate"
  assume a: "fst (daemon_abs kq tables name t (world (snd ds))) \<noteq> []" "platform lc nl" "ban_system lc nl api papi kq kd tables"
    "NUL \<notin> set t" "serving lc nl api kq kd name t ds"
  obtain d s where ds: "ds = (d, s)" by (cases ds)
  obtain at m ms where "kq (world s) name = Some (at, m # ms)"
    using a(1) ds by (auto simp: daemon_abs_def neq_Nil_conv split: option.splits)
  from iteration_refines [OF a(2-4) _ this] a ds
  show "\<exists>ds'. daemon_iteration (posix_ops lc papi) lc nl ds = Ret ds' \<and>
      (platform lc nl \<and> ban_system lc nl api papi kq kd tables \<and> NUL \<notin> set t \<and> serving lc nl api kq kd name t ds') \<and>
      daemon_abs kq tables name t (world (snd ds')) = spec_step nl (daemon_abs kq tables name t (world (snd ds)))"
    by fastforce
qed


lemma spec_steps:
  "n \<le> length ms \<Longrightarrow> (spec_step nl ^^ n) (ms, B) = (drop n ms, B \<union> (\<Union>m \<in> set (take n ms). spec_bans nl m))"
proof (induction n arbitrary: ms B)
  case 0
  then show ?case by simp
next
  case (Suc n)
  then obtain m ms' where ms: "ms = m # ms'" by (cases ms) auto
  then show ?case using Suc by (auto simp: funpow_Suc_right simp del: funpow.simps)
qed

lemma serving_run:
  assumes "platform lc nl" and "ban_system lc nl api papi kq kd tables" and "NUL \<notin> set t" and "serving lc nl api kq kd name t ds"
    and "n \<le> length (fst (daemon_abs kq tables name t (world (snd ds))))"
  shows "\<exists>ds'. repeat_step (daemon_iteration (posix_ops lc papi) lc nl) n ds = Ret ds' \<and> serving lc nl api kq kd name t ds' \<and>
    daemon_abs kq tables name t (world (snd ds')) = (spec_step nl ^^ n) (daemon_abs kq tables name t (world (snd ds)))"
proof -
  obtain ms B where a: "daemon_abs kq tables name t (world (snd ds)) = (ms, B)" by fastforce
  have "\<forall>k<n. fst ((spec_step nl ^^ k) (ms, B)) \<noteq> []" using assms(5) a by (simp add: spec_steps)
  then show ?thesis
    using serve.repeat_refines [where lc = lc and nl = nl and api = api and papi = papi and kq = kq and kd = kd and
        tables = tables and name = name and t = t and n = n and s = ds] assms(1-4) a by fastforce
qed

lemma serving_drains:
  assumes "platform lc nl" and "ban_system lc nl api papi kq kd tables" and "NUL \<notin> set t" and "serving lc nl api kq kd name t (d, s)"
    and "kq (world s) name = Some (a, ms)"
  shows "\<exists>d' s' a'. repeat_step (daemon_iteration (posix_ops lc papi) lc nl) (length ms) (d, s) = Ret (d', s') \<and>
    kq (world s') name = Some (a', []) \<and>
    (\<forall>f ip. length ip = af_length f \<longrightarrow>
      (pf_banned tables (world s') (take 31 t) f ip \<longleftrightarrow>
        pf_banned tables (world s) (take 31 t) f ip \<or> (\<exists>m \<in> set ms. (f, ip) \<in> spec_bans nl (message_text m))))"
proof -
  let ?abs = "daemon_abs kq tables name t"
  let ?B = "{(f, ip). length ip = af_length f \<and> pf_banned tables (world s) (take 31 t) f ip}"
  have abs: "?abs (world s) = (map message_text ms, ?B)" using assms(5) by (simp add: daemon_abs_def)
  obtain d' s' where r: "repeat_step (daemon_iteration (posix_ops lc papi) lc nl) (length ms) (d, s) = Ret (d', s')"
    "serving lc nl api kq kd name t (d', s')" "?abs (world s') = (spec_step nl ^^ length ms) (?abs (world s))"
    using serving_run [OF assms(1-4), of "length ms"] abs by auto
  then have fin: "?abs (world s') = ([], ?B \<union> (\<Union>m \<in> set ms. spec_bans nl (message_text m)))"
    unfolding abs by (simp add: spec_steps)
  then obtain a' where "kq (world s') name = Some (a', [])" using r(2) by (auto simp: serving_def daemon_abs_def)
  moreover have "snd (?abs (world s')) = ?B \<union> (\<Union>m \<in> set ms. spec_bans nl (message_text m))" using fin by simp
  then have "\<forall>f ip. length ip = af_length f \<longrightarrow>
      (pf_banned tables (world s') (take 31 t) f ip \<longleftrightarrow>
        pf_banned tables (world s) (take 31 t) f ip \<or> (\<exists>m \<in> set ms. (f, ip) \<in> spec_bans nl (message_text m)))"
    by (auto simp: daemon_abs_def set_eq_iff)
  ultimately show ?thesis using r(1) by blast
qed

section \<open>A sample system\<close>

text \<open>A host with queues and tables: the sample calls act on their half of the pair.\<close>

type_synonym sample_pair = "sample_kernel \<times> sample_host"

definition on_first :: "('a \<Rightarrow> 'r \<times> 'a) \<Rightarrow> 'a \<times> 'b \<Rightarrow> 'r \<times> 'a \<times> 'b" where
  "on_first f = (\<lambda>(a, b). case f a of (r, a') \<Rightarrow> (r, a', b))"

definition on_second :: "('b \<Rightarrow> 'r \<times> 'b) \<Rightarrow> 'a \<times> 'b \<Rightarrow> 'r \<times> 'a \<times> 'b" where
  "on_second f = (\<lambda>(a, b). case f b of (r, b') \<Rightarrow> (r, a, b'))"

definition pair_mq_api :: "sample_pair mq_api" where
  "pair_mq_api =
     \<lparr>o_rdonly = o_rdonly sample_mq_api, o_wronly = o_wronly sample_mq_api, o_creat = o_creat sample_mq_api, o_excl = o_excl sample_mq_api,
      mq_open = (\<lambda>n fl mode um a. on_first (mq_open sample_mq_api n fl mode um a)),
      mq_close = (\<lambda>d. on_first (mq_close sample_mq_api d)), mq_unlink = (\<lambda>n. on_first (mq_unlink sample_mq_api n)),
      mq_getattr = (\<lambda>d. on_first (mq_getattr sample_mq_api d)), mq_receive = (\<lambda>d k. on_first (mq_receive sample_mq_api d k)),
      mq_send = (\<lambda>d m p. on_first (mq_send sample_mq_api d m p)), on_freebsd = True, enosys = 78, sizeof_posix_queue = 40\<rparr>"

definition pair_pf_api :: "sample_pair pf_api" where
  "pair_pf_api =
     \<lparr>pf_open_dev = (\<lambda>dev. on_second (pf_open_dev sample_pf_api dev)), pf_close_fd = (\<lambda>fd. on_second (pf_close_fd sample_pf_api fd)),
      DIOCRADDADDRS = (\<lambda>fd io. on_second (\<lambda>w. (Ok (), snd (DIOCRADDADDRS sample_pf_api fd io w)))),
      DIOCKILLSTATES = (\<lambda>fd psk. on_second (DIOCKILLSTATES sample_pf_api fd psk))\<rparr>"

lemma pair_kernel: "mq_kernel sample_libc pair_mq_api (sk_queues \<circ> fst) (sk_descr \<circ> fst)"
proof -
  note laws = kernel_laws [OF sample_kernel_law]
  have "mq_send_law pair_mq_api (sk_queues \<circ> fst) (sk_descr \<circ> fst)"
    using laws(1) by (fastforce simp: mq_send_law_def pair_mq_api_def on_first_def)
  moreover have "mq_receive_law pair_mq_api (sk_queues \<circ> fst) (sk_descr \<circ> fst)"
    using laws(2) by (fastforce simp: mq_receive_law_def pair_mq_api_def on_first_def)
  moreover have "mq_open_law pair_mq_api (sk_queues \<circ> fst) (sk_descr \<circ> fst)"
  proof -
    have acc: "acc = o_rdonly sample_mq_api \<or> acc = o_wronly sample_mq_api" if "acc \<in> {o_rdonly pair_mq_api, o_wronly pair_mq_api}" for acc
      using that by (auto simp: pair_mq_api_def)
    show ?thesis unfolding mq_open_law_def
    proof (intro ballI allI conjI impI, goal_cases)
      case (1 acc w name um a)
      then show ?case using mq_open_create [OF laws(3) acc [OF 1(1)], of "fst w" name um a]
        by (auto simp: pair_mq_api_def on_first_def split: prod.splits)
    next
      case (2 acc w name um a)
      then show ?case using mq_open_exists [OF laws(3) acc [OF 2(1)], of "fst w" name um a]
        by (auto simp: pair_mq_api_def on_first_def split: prod.splits)
    next
      case (3 acc w name um a)
      then show ?case using mq_open_plain [OF laws(3) acc [OF 3(1)], of "fst w" name um a]
        by (auto simp: pair_mq_api_def on_first_def split: prod.splits)
    qed
  qed
  moreover have "mq_getattr_law pair_mq_api (sk_queues \<circ> fst) (sk_descr \<circ> fst)"
    using laws(4) by (fastforce simp: mq_getattr_law_def pair_mq_api_def on_first_def)
  moreover have "mq_close_law pair_mq_api (sk_queues \<circ> fst) (sk_descr \<circ> fst)"
    using laws(5) by (fastforce simp: mq_close_law_def pair_mq_api_def on_first_def)
  moreover have "heap_apart sample_libc (sk_queues \<circ> fst) (sk_descr \<circ> fst)"
    by (simp add: heap_apart_def sample_libc_def)
  ultimately show ?thesis by (simp add: mq_kernel_def)
qed

lemma pair_system: "ban_system sample_libc sample_netlib pair_pf_api pair_mq_api (sk_queues \<circ> fst) (sk_descr \<circ> fst) snd"
proof -
  have "pf_add_law pair_pf_api snd"
    by (auto simp: pf_add_law_def pair_pf_api_def on_second_def sample_pf_api_def)
  moreover have "pf_frame_law sample_libc sample_netlib pair_pf_api snd"
    "pf_frame_law sample_libc sample_netlib pair_pf_api (\<lambda>w. ((sk_queues \<circ> fst) w, (sk_descr \<circ> fst) w))"
    by (auto simp: pf_frame_law_def pair_pf_api_def on_second_def sample_pf_api_def sample_netlib_def sample_libc_def split: option.splits)
  moreover have "fst (DIOCRADDADDRS pair_pf_api fd io w) = Ok ()" "fst (snd (DIOCRADDADDRS pair_pf_api fd io w)) = fst w" for fd io w
    by (simp_all add: pair_pf_api_def on_second_def split: prod.splits)
  moreover have "snd (snd (mq_receive pair_mq_api d n w)) = snd w" for d n w
    by (simp add: pair_mq_api_def on_first_def split: prod.splits)
  ultimately show ?thesis using pair_kernel by (simp add: ban_system_def pf_system_def)
qed

lemma sample_platform: "platform sample_libc sample_netlib"
  using sample_alloc_formats sample_laws sample_gai_sane by (simp add: platform_def)

text \<open>Two messages wait, the second one is no address.\<close>

definition pair_world :: sample_pair where
  "pair_world =
     (\<lparr>sk_queues = [''/banipd'' \<mapsto> (\<lparr>mq_maxmsg = 10, mq_msgsize = 1024\<rparr>, [''192.0.2.77/24'', ''nonsense''])],
       sk_table = [Some ''/banipd'', Some ''/banipd'', Some ''/banipd'', Some ''/banipd'']\<rparr>, {})"

definition pair_daemon :: "(posix_queue, sample_pair) dstate" where
  "pair_daemon = (sample_running (pf_engine sample_libc sample_netlib pair_pf_api) (Some (Fd_Ctxt 3)), sample_proc pair_world)"

lemma pair_serving: "serving sample_libc sample_netlib pair_pf_api (sk_queues \<circ> fst) (sk_descr \<circ> fst) ''/banipd'' ''ban'' pair_daemon"
proof -
  have "clean_prefix (message_text ''nonsense'')" by (simp add: clean_prefix_def message_text_def)
  moreover have "clean_prefix (message_text ''192.0.2.77/24'')" using sample_clean by (simp add: message_text_def)
  ultimately show ?thesis unfolding serving_def pair_daemon_def prod.case
    by (intro exI [of _ 3] exI [of _ "sample_queue 3"] exI [of _ "\<lparr>mq_maxmsg = 10, mq_msgsize = 1024\<rparr>"] exI [of _ "[''192.0.2.77/24'', ''nonsense'']"]
        conjI sample_running_ready)
      (simp_all add: sample_running_def daemon_init_def sample_proc_def pair_world_def sample_queue_def sk_descr_def)
qed

section \<open>Properties\<close>

text \<open>C5: the loop of the daemon refines the specification.  From a state in which the daemon serves its
  queue, as many iterations as there are messages, or fewer, return and correspond to as many steps of
  the specification: one message less each, and exactly the addresses of its network banned in
  addition.  Messages that name no network are dropped and ban nothing.\<close>

theorem daemon_refines_spec:
  assumes "platform lc nl" and "ban_system lc nl api papi kq kd tables" and "NUL \<notin> set t" and "serving lc nl api kq kd name t ds"
    and "n \<le> length (fst (daemon_abs kq tables name t (world (snd ds))))"
  shows "\<exists>ds'. repeat_step (daemon_iteration (posix_ops lc papi) lc nl) n ds = Ret ds' \<and> serving lc nl api kq kd name t ds' \<and>
    daemon_abs kq tables name t (world (snd ds')) = (spec_step nl ^^ n) (daemon_abs kq tables name t (world (snd ds)))"
  using assms by (rule serving_run)

theorem daemon_refines_spec_witness:
  "\<exists>ds'. repeat_step (daemon_iteration (posix_ops sample_libc pair_mq_api) sample_libc sample_netlib) 1 pair_daemon = Ret ds' \<and>
    serving sample_libc sample_netlib pair_pf_api (sk_queues \<circ> fst) (sk_descr \<circ> fst) ''/banipd'' ''ban'' ds' \<and>
    daemon_abs (sk_queues \<circ> fst) snd ''/banipd'' ''ban'' (world (snd ds')) =
      (spec_step (sample_netlib :: sample_pair netlib) ^^ 1) (daemon_abs (sk_queues \<circ> fst) snd ''/banipd'' ''ban'' pair_world)"
  using daemon_refines_spec [OF sample_platform pair_system _ pair_serving, of 1]
  by (simp add: pair_daemon_def daemon_abs_def pair_world_def sample_proc_def)

text \<open>The daemon gets to every message.  After one iteration per waiting message the queue is empty,
  and an address matches the table when it did before or lies in the network that one of the
  messages names.\<close>

lemma daemon_drains_queue:
  assumes "platform lc nl" and "ban_system lc nl api papi kq kd tables" and "NUL \<notin> set t" and "serving lc nl api kq kd name t (d, s)"
    and "kq (world s) name = Some (a, ms)"
  shows "\<exists>d' s' a'. repeat_step (daemon_iteration (posix_ops lc papi) lc nl) (length ms) (d, s) = Ret (d', s') \<and>
    kq (world s') name = Some (a', []) \<and>
    (\<forall>f ip. length ip = af_length f \<longrightarrow>
      (pf_banned tables (world s') (take 31 t) f ip \<longleftrightarrow>
        pf_banned tables (world s) (take 31 t) f ip \<or> (\<exists>m \<in> set ms. (f, ip) \<in> spec_bans nl (message_text m))))"
  using assms by (rule serving_drains)

lemma daemon_drains_queue_witness:
  "\<exists>d' s' a'. repeat_step (daemon_iteration (posix_ops sample_libc pair_mq_api) sample_libc sample_netlib) 2 pair_daemon = Ret (d', s') \<and>
    sk_queues (fst (world s')) ''/banipd'' = Some (a', []) \<and> pf_banned snd (world s') ''ban'' AF_INET [192, 0, 2, 99]"
proof -
  obtain d s where ds: "pair_daemon = (d, s)" and w: "world s = pair_world" by (simp add: pair_daemon_def sample_proc_def)
  have q: "(sk_queues \<circ> fst) (world s) ''/banipd'' = Some (\<lparr>mq_maxmsg = 10, mq_msgsize = 1024\<rparr>, [''192.0.2.77/24'', ''nonsense''])"
    using w by (simp add: pair_world_def)
  have "ban_of (sample_netlib :: sample_pair netlib) ''192.0.2.77/24'' = Some (AF_INET, [192, 0, 2, 77], 24)"
    by (simp add: ban_of_def sample_netlib_def sample_inet_pton_def dotted_quad_def octet_def is_digit_def strtoul_def is_space_def)
  moreover have "same_network 24 [192, 0, 2, 77] [192, 0, 2, 99]" by (simp add: same_network_def bit_at_def upt_rec bit_iff_odd)
  ultimately have "(AF_INET, [192, 0, 2, 99]) \<in> spec_bans (sample_netlib :: sample_pair netlib) (message_text ''192.0.2.77/24'')"
    by (simp add: spec_bans_def message_text_def)
  then show ?thesis
    using daemon_drains_queue [OF sample_platform pair_system _ pair_serving [unfolded ds] q] unfolding ds
    by (fastforce simp: af_length_def numeral_2_eq_2)
qed


text \<open>The end of the daemon.  On \<open>SIGTERM\<close> or \<open>SIGINT\<close> the daemon gives back everything it holds: buffer, context and
  queue are released; then the signal is raised again with its default action.  \<open>P\<close> is what the close of the queue achieves.\<close>

lemma signal_ends:
  assumes "\<And>fd w. obs (snd (pf_close_fd api fd w)) = obs w" and "\<And>f w. obs (snd (os_unlink os f w)) = obs w"
    and "\<And>w. obs (os_fclose_log os w) = obs w"
    and "d_engine d = Some (pf_engine lc nl api)" and "d_ctxt d = Some (Fd_Ctxt fd)"
    and close: "\<And>s1. obs (world s1) = obs (world s) \<Longrightarrow> \<exists>s2. q_close ops (d_queue d) None s1 = Ret (True, None, None, s2) \<and> P (obs (world s2))"
    and "signo = SIGTERM \<or> signo = SIGINT"
  shows "\<exists>d' s'. on_signal ops lc os signo (d, s) = Ret (False, d', s') \<and>
    d_buffer d' = None \<and> d_ctxt d' = None \<and> d_queue d' = None \<and> P (obs (world s'))"
proof -
  obtain s1 where c: "pf_close lc api (Fd_Ctxt fd) s = Ret (Fd_Ctxt (- 1), s1)" "obs (world s1) = obs (world s)"
  proof -
    obtain r s2 where io: "syscall (pf_close_fd api fd) s = (r, s2)" by (cases "syscall (pf_close_fd api fd) s")
    have "obs (world s2) = obs (world s)" using syscall_frame_law [where obs = obs, OF assms(1) io] .
    then show ?thesis using that io by (cases r; cases "fd = - 1") (auto simp: pf_close_def warnc_def verr_def log_msg_def)
  qed
  obtain s2 where q: "q_close ops (d_queue d) None s1 = Ret (True, None, None, s2)" "P (obs (world s2))" using close [OF c(2)] by blast
  define s3 where "s3 = (case pidfilename d of
      None \<Rightarrow> s2
    | Some f \<Rightarrow> (case syscall (os_unlink os f) s2 of (Err n, s) \<Rightarrow> warnc lc ''unlink failed'' [] s | (Ok _, s) \<Rightarrow> s))"
  have s3: "obs (world s3) = obs (world s2)"
  proof (cases "pidfilename d")
    case (Some f)
    obtain r s4 where io: "syscall (os_unlink os f) s2 = (r, s4)" by (cases "syscall (os_unlink os f) s2")
    have "obs (world s4) = obs (world s2)" using syscall_frame_law [where obs = obs, OF assms(2) io] .
    then show ?thesis using Some io by (cases r) (simp_all add: s3_def warnc_def verr_def log_msg_def)
  qed (simp add: s3_def)
  let ?d = "d\<lparr>d_buffer := None, d_ctxt := None, d_queue := None\<rparr>"
  have "daemon_cleanup ops lc os (d, s) =
      Ret (if err_file d then (?d\<lparr>err_file := False\<rparr>, s3\<lparr>world := os_fclose_log os (world s3)\<rparr>) else (?d, s3))"
    using assms(4,5) c(1) q(1) unfolding s3_def by (simp add: daemon_cleanup_def pf_engine_def free_ctxt_def Let_def)
  then show ?thesis using assms(3) [of "world s3"] assms(7) q(2) s3 by (cases "err_file d") (auto simp: on_signal_def)
qed

text \<open>Over POSIX queues the descriptor is closed and the name of the queue removed.\<close>

lemma daemon_terminates_cleanly:
  assumes "mq_kernel lc papi kq kd" and "\<And>fd w. (kq (snd (pf_close_fd api fd w)), kd (snd (pf_close_fd api fd w))) = (kq w, kd w)"
    and "\<And>f w. (kq (snd (os_unlink os f w)), kd (snd (os_unlink os f w))) = (kq w, kd w)"
    and "\<And>w. (kq (os_fclose_log os w), kd (os_fclose_log os w)) = (kq w, kd w)"
    and "d_engine d = Some (pf_engine lc nl api)" and "d_ctxt d = Some (Fd_Ctxt fd)" and "d_queue d = Some q"
    and "filename q = Some name" and "mq q \<noteq> NOT_MQD_T" and "kd (world s) (mq q) = Some name" and "kq (world s) name \<noteq> None"
    and "signo = SIGTERM \<or> signo = SIGINT"
  shows "\<exists>d' s'. on_signal (posix_ops lc papi) lc os signo (d, s) = Ret (False, d', s') \<and>
    d_buffer d' = None \<and> d_ctxt d' = None \<and> d_queue d' = None \<and>
    kq (world s') = (kq (world s))(name := None) \<and> kd (world s') = (kd (world s))(mq q := None)"
proof -
  let ?P = "\<lambda>a. fst a = (kq (world s))(name := None) \<and> snd a = (kd (world s))(mq q := None)"
  have "\<exists>s2. q_close (posix_ops lc papi) (d_queue d) None s1 = Ret (True, None, None, s2) \<and> ?P (kq (world s2), kd (world s2))"
    if "(kq (world s1), kd (world s1)) = (kq (world s), kd (world s))" for s1
    using posix_close_opened [OF kernel_laws(5) [OF assms(1)], of s1 q name name lc None] assms(7-11) that by auto
  from signal_ends [where obs = "\<lambda>w. (kq w, kd w)" and P = ?P and ops = "posix_ops lc papi", OF assms(2-6) this assms(12)]
  show ?thesis by simp
qed

definition pair_os :: "sample_pair os_api" where
  "pair_os = sample_os"

lemma daemon_terminates_cleanly_witness:
  "\<exists>d' s'. on_signal (posix_ops sample_libc pair_mq_api) sample_libc pair_os SIGTERM
      ((fst pair_daemon)\<lparr>d_queue := Some ((sample_queue 3)\<lparr>filename := Some ''/banipd''\<rparr>)\<rparr>, snd pair_daemon) = Ret (False, d', s') \<and>
    d_queue d' = None \<and> sk_queues (fst (world s')) ''/banipd'' = None"
proof -
  have "\<exists>d' s'. on_signal (posix_ops sample_libc pair_mq_api) sample_libc pair_os SIGTERM
      ((fst pair_daemon)\<lparr>d_queue := Some ((sample_queue 3)\<lparr>filename := Some ''/banipd''\<rparr>)\<rparr>, snd pair_daemon) = Ret (False, d', s') \<and>
    d_buffer d' = None \<and> d_ctxt d' = None \<and> d_queue d' = None \<and>
    (sk_queues \<circ> fst) (world s') = ((sk_queues \<circ> fst) (world (snd pair_daemon)))(''/banipd'' := None) \<and>
    (sk_descr \<circ> fst) (world s') = ((sk_descr \<circ> fst) (world (snd pair_daemon)))(mq ((sample_queue 3)\<lparr>filename := Some ''/banipd''\<rparr>) := None)"
    by (rule daemon_terminates_cleanly [OF pair_kernel, where api = pair_pf_api and nl = sample_netlib and fd = 3])
      (simp_all add: pair_pf_api_def on_second_def sample_pf_api_def pair_os_def sample_os_def pair_daemon_def sample_running_def
        daemon_init_def sample_queue_def sample_proc_def pair_world_def sk_descr_def split: prod.splits)
  then show ?thesis by auto
qed

end
