(* ===== verification/Cli.thy ===== *)
theory Cli
  imports Posix_Queue Systemv_Queue
begin

text \<open>
  The command line client (\<open>banip-cli.c\<close>): open a queue as sender, send one message, close.  The client
  sees the queue through its seven operations only; its theorems are about either implementation
  or, where they speak of delivery, about POSIX queues.
\<close>

section \<open>Definitions\<close>

definition EXIT_SUCCESS :: nat where "EXIT_SUCCESS = 0"
definition EXIT_FAILURE :: nat where "EXIT_FAILURE = 1"

text \<open>The \<open>_verr\<close> of this program, for the code that is linked into it: one line on \<open>stderr\<close>, without the time stamp of the daemon,
  from an optional format and the text of \<open>errcode\<close> when that is not zero.  A fatal call exits: then the status is there.\<close>

definition cli_verr :: "'w libc \<Rightarrow> bool \<Rightarrow> nat \<Rightarrow> string option \<Rightarrow> carg list \<Rightarrow> 'w proc \<Rightarrow> nat option \<times> 'w proc" where
  "cli_verr lc fatal errcode fmt args s =
     (let line = (case fmt of
                    Some f \<Rightarrow> if errcode \<noteq> 0 then (f @ '': '', args) else (f, args)
                  | None \<Rightarrow> ([], []));
          line = (if errcode \<noteq> 0 then (fst line @ ''%s'', snd line @ [SArg (strerror lc errcode)]) else line);
          s = log_msg line s in
      if fatal then (Some EXIT_FAILURE, s) else (None, s))"

text \<open>
  The body of \<^verbatim>\<open>do { ... } while (false)\<close>: exit status, queue, lines printed to \<open>stdout\<close>, \<open>error\<close> and process.
  The status is set to success after the call of \<open>queue_send\<close>, whatever it returned.
\<close>

definition cli_body ::
  "('q, 'w) queue_ops \<Rightarrow> string list \<Rightarrow> 'w proc \<Rightarrow> (nat \<times> 'q option \<times> string list \<times> errp \<times> 'w proc) outcome" where
  "cli_body ops argv s =
     (if length argv \<noteq> 3 then
        Ret (EXIT_FAILURE, None, [], Some None,
          log_msg (''expected arguments are: 1) queue path/name ; 2) message to send'', []) s)
      else
        andthen (q_init ops (Some None) s) (\<lambda>(p, error, s).
        case p of
          None \<Rightarrow> Ret (EXIT_FAILURE, None, [], error, s)
        | Some q \<Rightarrow>
            andthen (q_open ops q (argv ! 1) QUEUE_FL_SENDER error s) (\<lambda>(ok, q, error, s).
            if \<not> ok then Ret (EXIT_FAILURE, Some q, [], error, s)
            else
              andthen (q_send ops q (argv ! 2) (- 1) error s) (\<lambda>(sent, q, error, s).
              Ret (EXIT_SUCCESS, Some q, if sent then [''OK''] else [], error, s)))))"

text \<open>\<open>main\<close>: after the body, close the queue and print the message that an operation left.\<close>

definition cli_main ::
  "('q, 'w) queue_ops \<Rightarrow> string list \<Rightarrow> 'w proc \<Rightarrow> (nat \<times> string list \<times> 'w proc) outcome" where
  "cli_main ops argv s =
     andthen (cli_body ops argv s) (\<lambda>(status, p, out, error, s).
     andthen
       (case p of
          None \<Rightarrow> Ret (error, s)
        | Some q \<Rightarrow> andthen (q_close ops (Some q) error s) (\<lambda>(_, _, error, s). Ret (error, s)))
       (\<lambda>(error, s).
        case error of
          Some (Some m) \<Rightarrow> andthen (error_free error) (\<lambda>_. Ret (status, out, log_msg m s))
        | _ \<Rightarrow> Ret (status, out, s)))"

section \<open>Lemmas\<close>

text \<open>What an observation of the world keeps when no call of the queue changes it.\<close>

definition mq_frame_law :: "'w libc \<Rightarrow> 'w mq_api \<Rightarrow> ('w \<Rightarrow> 'o) \<Rightarrow> bool" where
  "mq_frame_law lc api obs \<longleftrightarrow>
     (\<forall>n w. obs (snd (malloc lc n w)) = obs w) \<and>
     (\<forall>name fl mode um a w. obs (snd (mq_open api name fl mode um a w)) = obs w) \<and>
     (\<forall>d w. obs (snd (mq_close api d w)) = obs w) \<and> (\<forall>name w. obs (snd (mq_unlink api name w)) = obs w) \<and>
     (\<forall>d w. obs (snd (mq_getattr api d w)) = obs w) \<and> (\<forall>d m p w. obs (snd (mq_send api d m p w)) = obs w)"

lemma mq_frameD:
  assumes "mq_frame_law lc api obs"
  shows "alloc lc n s = (b, s') \<Longrightarrow> obs (world s') = obs (world s)"
    and "error_set lc e m s = Ret (e', s') \<Longrightarrow> obs (world s') = obs (world s)"
    and "syscall (mq_open api name fl mode um a) s = (x1, s') \<Longrightarrow> obs (world s') = obs (world s)"
    and "syscall (mq_close api d) s = (x2, s') \<Longrightarrow> obs (world s') = obs (world s)"
    and "syscall (mq_unlink api name) s = (x3, s') \<Longrightarrow> obs (world s') = obs (world s)"
    and "syscall (mq_getattr api d) s = (x4, s') \<Longrightarrow> obs (world s') = obs (world s)"
    and "syscall (mq_send api d txt p) s = (x5, s') \<Longrightarrow> obs (world s') = obs (world s)"
proof -
  have al: "obs (world s') = obs (world s)" if "alloc lc n s = (b, s')" for n s b s'
    using that assms unfolding mq_frame_law_def alloc_def by (auto split: prod.splits) (metis snd_conv)
  show "alloc lc n s = (b, s') \<Longrightarrow> obs (world s') = obs (world s)" by (rule al)
  show "error_set lc e m s = Ret (e', s') \<Longrightarrow> obs (world s') = obs (world s)"
    by (auto simp: error_set_def split: option.splits prod.splits bool.splits dest: al)
qed (erule syscall_frame_law [where obs = obs, rotated], use assms in \<open>simp add: mq_frame_law_def\<close>)+

lemma posix_close_frame:
  assumes "mq_frame_law lc api obs" and "posix_queue_close lc api p e s = Ret (ok, p', e', s')"
  shows "obs (world s') = obs (world s)"
proof -
  note frame = mq_frameD [OF assms(1)]
  have unl: "obs (world s2) = obs (world s1)" if "posix_queue_unlink lc api q e1 s1 = Ret (ok, p, e2, s2)" for q e1 s1 ok p e2 s2
    using that by (auto simp: posix_queue_unlink_def set_error_defs elim!: andthenE split: option.splits prod.splits sysret.splits dest!: frame)
  show ?thesis using assms(2)
    by (auto simp: posix_queue_close_def set_error_defs elim!: andthenE split: option.splits prod.splits sysret.splits if_splits dest!: frame unl)
qed

lemma cli_main_frame:
  assumes "mq_frame_law lc api obs" and "cli_main (posix_ops lc api) argv s = Ret (status, out, s')"
  shows "obs (world s') = obs (world s)"
proof -
  note frame = mq_frameD [OF assms(1)]
  have init: "obs (world s2) = obs (world s1)" if "posix_queue_init lc api e1 s1 = Ret (p, e2, s2)" for e1 s1 p e2 s2
    using that by (auto simp: posix_queue_init_def set_error_defs elim!: andthenE split: prod.splits bool.splits dest!: frame)
  have op: "obs (world s2) = obs (world s1)" if "posix_queue_open lc api q n QUEUE_FL_SENDER e1 s1 = Ret (ok, q', e2, s2)" for q n e1 s1 ok q' e2 s2
    using that by (auto simp: posix_queue_open_def posix_queue_open_mq_def Let_def set_error_defs elim!: andthenE
        split: prod.splits sysret.splits dest!: frame)
  have send: "obs (world s2) = obs (world s1)" if "posix_queue_send lc api q m k e1 s1 = Ret (ok, q', e2, s2)" for q m k e1 s1 ok q' e2 s2
    using that by (auto simp: posix_queue_send_def Let_def set_error_defs elim!: andthenE
        split: prod.splits sysret.splits if_splits dest!: frame)
  note close = posix_close_frame [OF assms(1)]
  have body: "obs (world s2) = obs (world s)" if "cli_body (posix_ops lc api) argv s = Ret (st, p, o2, e2, s2)" for st p o2 e2 s2
    using that by (auto simp: cli_body_def log_msg_def elim!: andthenE split: option.splits if_splits dest!: init op send)
  show ?thesis using assms(2)
    by (auto simp: cli_main_def log_msg_def elim!: andthenE split: option.splits dest!: body close)
qed


lemma cli_delivers_to:
  assumes "mq_kernel lc api kq kd" and "allocates lc" and "kq (world s) name = Some (a, ms)"
    and "length msg \<le> unat (mq_msgsize a)" and "length ms < unat (mq_maxmsg a)"
  shows "\<exists>w. cli_main (posix_ops lc api) [prog, name, msg] s = Ret (EXIT_SUCCESS, [''OK''], s\<lparr>world := w\<rparr>) \<and>
    kq w = (kq (world s))(name \<mapsto> (a, ms @ [msg])) \<and> kd w = kd (world s)"
proof -
  note laws = kernel_laws [OF assms(1)]
  let ?q = "\<lparr>mq = NOT_MQD_T, filename = None, attr = \<lparr>mq_maxmsg = 10, mq_msgsize = 1024\<rparr>\<rparr>"
  obtain w1 where al: "alloc lc (sizeof_posix_queue api) s = (True, s\<lparr>world := w1\<rparr>)" using allocatesD [OF assms(2)] by blast
  have k1: "kq w1 = kq (world s)" "kd w1 = kd (world s)" using heap_apartD [OF laws(6) al] by simp_all
  obtain d w2 where op: "posix_queue_open lc api ?q name QUEUE_FL_SENDER (Some None) (s\<lparr>world := w1\<rparr>) =
      Ret (True, ?q\<lparr>mq := d, attr := a\<rparr>, Some None, s\<lparr>world := w2\<rparr>)"
    and k2: "d \<noteq> NOT_MQD_T" "kd w1 d = None" "kq w2 = kq w1" "kd w2 = (kd w1)(d \<mapsto> name)"
    using posix_open_sender [OF laws(3,4), of "s\<lparr>world := w1\<rparr>" name a ms lc ?q "Some None"] k1 assms(3) by auto
  let ?q2 = "?q\<lparr>mq := d, attr := a\<rparr>"
  obtain w3 where send: "posix_queue_send lc api ?q2 msg (- 1) (Some None) (s\<lparr>world := w2\<rparr>) = Ret (True, ?q2, Some None, s\<lparr>world := w3\<rparr>)"
    and k3: "kq w3 = (kq w2)(name \<mapsto> (a, ms @ [msg]))" "kd w3 = kd w2"
    using posix_send_appends [OF laws(1), of "s\<lparr>world := w2\<rparr>" ?q2 name a ms msg lc "Some None"] k1 k2 assms(3-5) by auto
  obtain w4 where close: "posix_queue_close lc api (Some ?q2) (Some None) (s\<lparr>world := w3\<rparr>) = Ret (True, None, Some None, s\<lparr>world := w4\<rparr>)"
    and k4: "kd w4 = (kd w3)(d := None)" "kq w4 = kq w3"
    using posix_close_opened [OF laws(5), of "s\<lparr>world := w3\<rparr>" ?q2 name _ lc "Some None"] k2 k3 by auto
  have "kd w4 = kd (world s)" using k1 k2 k3 k4 by (auto simp: fun_eq_iff)
  then show ?thesis using al op send close k1 k2 k3 k4
    by (intro exI [of _ w4]) (simp add: cli_main_def cli_body_def posix_queue_init_def)
qed

section \<open>Properties\<close>

text \<open>The client delivers.  Called with the name of an existing queue that is not full and a message that
  fits, it appends the message, prints \<open>OK\<close>, exits with success, and leaves no descriptor open.\<close>

lemma cli_delivers:
  assumes "mq_kernel lc api kq kd" and "allocates lc" and "kq (world s) name = Some (a, ms)"
    and "length msg \<le> unat (mq_msgsize a)" and "length ms < unat (mq_maxmsg a)"
  shows "\<exists>w. cli_main (posix_ops lc api) [prog, name, msg] s = Ret (EXIT_SUCCESS, [''OK''], s\<lparr>world := w\<rparr>) \<and>
    kq w = (kq (world s))(name \<mapsto> (a, ms @ [msg])) \<and> kd w = kd (world s)"
  using assms by (rule cli_delivers_to)

lemma cli_delivers_witness:
  "\<exists>w. cli_main (posix_ops sample_libc sample_mq_api) [''banip-cli'', ''/banipd'', ''10.0.0.1''] (sample_proc sample_open_kernel) =
      Ret (EXIT_SUCCESS, [''OK''], (sample_proc sample_open_kernel)\<lparr>world := w\<rparr>) \<and>
    sk_queues w ''/banipd'' = Some (\<lparr>mq_maxmsg = 10, mq_msgsize = 1024\<rparr>, [''10.0.0.1''])"
proof -
  have "allocates (sample_libc :: sample_kernel libc)" by (simp add: allocates_def sample_libc_def)
  from cli_delivers [OF sample_kernel_law this, of "sample_proc sample_open_kernel" "''/banipd''" "\<lparr>mq_maxmsg = 10, mq_msgsize = 1024\<rparr>"
      "[]" "''10.0.0.1''" "''banip-cli''"]
  show ?thesis by (auto simp: sample_proc_def sample_open_kernel_def)
qed

text \<open>The exit status does not tell whether the message was sent.  With any implementation of the
  queue, a run in which \<open>queue_open\<close> succeeded exits with success, and prints \<open>OK\<close> exactly when
  \<open>queue_send\<close> succeeded.\<close>

lemma cli_status_ignores_send:
  assumes "q_init ops (Some None) s = Ret (Some q, e, s1)" and "q_open ops q name QUEUE_FL_SENDER e s1 = Ret (True, q1, e1, s2)"
    and "q_send ops q1 msg (- 1) e1 s2 = Ret (sent, q2, e2, s3)" and "cli_main ops [prog, name, msg] s = Ret (status, out, s4)"
  shows "status = EXIT_SUCCESS \<and> (out = [''OK''] \<longleftrightarrow> sent)"
  using assms by (cases sent) (auto simp: cli_main_def cli_body_def elim!: andthenE split: option.splits)

text \<open>A full queue: the send fails, the message of the failure is printed, the status is success.\<close>

lemma cli_status_ignores_send_witness:
  "\<exists>status out s' m. cli_main (posix_ops sample_libc (sample_mq_api\<lparr>mq_send := \<lambda>d m p w. (Err 11, w)\<rparr>))
      [''banip-cli'', ''/banipd'', ''10.0.0.1''] (sample_proc sample_open_kernel) = Ret (status, out, s') \<and>
    status = EXIT_SUCCESS \<and> out \<noteq> [''OK''] \<and> stderr_log s' = [m]"
proof -
  let ?api = "sample_mq_api\<lparr>mq_send := \<lambda>d m p w. (Err 11, w)\<rparr>" and ?s = "sample_proc sample_open_kernel"
  let ?q = "\<lparr>mq = NOT_MQD_T, filename = None, attr = \<lparr>mq_maxmsg = 10, mq_msgsize = 1024\<rparr>\<rparr>"
  have al: "alloc sample_libc n s = (True, s)" for n and s :: "sample_kernel proc"
    by (simp add: alloc_def sample_libc_def)
  let ?m = "(''mq_send failed to send \"%.*s\": %s'', [IArg 8, SArg ''10.0.0.1'', SArg ''error''])"
  have serr: "set_system_error sample_libc (Some None) ''mq_send failed to send \"%.*s\"'' [IArg 8, SArg ''10.0.0.1''] s = Ret (Some (Some ?m), s)"
    for s :: "sample_kernel proc"
    by (simp add: set_error_defs error_set_def sample_libc_def alloc_def)
  obtain s1 where op: "posix_queue_open sample_libc ?api ?q ''/banipd'' QUEUE_FL_SENDER (Some None) ?s =
      Ret (True, ?q\<lparr>mq := 2\<rparr>, Some None, s1)" "world s1 = snd (sk_add sample_open_kernel ''/banipd'')" "stderr_log s1 = []"
    by (simp add: posix_queue_open_def posix_queue_open_mq_def syscall_def sample_mq_api_def sample_proc_def sample_open_kernel_def sk_add_def
        sk_descr_def Let_def)
  obtain s2 where send: "posix_queue_send sample_libc ?api (?q\<lparr>mq := 2\<rparr>) ''10.0.0.1'' (- 1) (Some None) s1 = Ret (False, ?q\<lparr>mq := 2\<rparr>, Some (Some ?m), s2)"
    "world s2 = world s1" "stderr_log s2 = []"
    using serr op(3) by (simp add: posix_queue_send_def syscall_def)
  obtain s3 where close: "posix_queue_close sample_libc ?api (Some (?q\<lparr>mq := 2\<rparr>)) (Some (Some ?m)) s2 = Ret (True, None, Some (Some ?m), s3)"
    "stderr_log s3 = []"
    using send op(2) by (simp add: posix_queue_close_def posix_queue_unlink_def syscall_def sample_mq_api_def sk_descr_def sk_add_def sample_open_kernel_def)
  have "cli_main (posix_ops sample_libc ?api) [''banip-cli'', ''/banipd'', ''10.0.0.1''] ?s = Ret (EXIT_SUCCESS, [], log_msg ?m s3)"
    using op(1) send(1) close(1) by (simp add: cli_main_def cli_body_def posix_queue_init_def al error_free_def)
  then obtain status out s4 where run: "cli_main (posix_ops sample_libc ?api) [''banip-cli'', ''/banipd'', ''10.0.0.1''] ?s = Ret (status, out, s4)"
    "stderr_log s4 = [?m]" using close(2) by (simp add: log_msg_def)
  have "q_init (posix_ops sample_libc ?api) (Some None) ?s = Ret (Some ?q, Some None, ?s)" by (simp add: posix_queue_init_def al)
  from cli_status_ignores_send [OF this, of "''/banipd''" "?q\<lparr>mq := 2\<rparr>" "Some None" s1 "''10.0.0.1''" False] op(1) send(1) run(1)
  have "status = EXIT_SUCCESS" "out \<noteq> [''OK'']" by fastforce+
  with run show ?thesis by blast
qed

end
