(* ===== verification/Traffic.thy ===== *)
theory Traffic
  imports Daemon_Refinement Cli
begin

text \<open>
  Clients and daemon on one queue: a daemon that serves its queue with the packet filter, and clients that
  run at any time between its iterations.  A run is a list of events; the specification keeps the
  messages that wait and the addresses that are banned.  The locale \<open>client_channel\<close> adds the client to the channel of
  the daemon and derives once what every interleaving does; the two implementations of the queue are
  instances in the theories of the systems.
\<close>

section \<open>Events\<close>

text \<open>A client calls the command line program with the name of the queue and a message, or the daemon runs
  one iteration.  Every call of the client is a new process \<open>p\<close> on the shared world.\<close>

datatype event = Client string | Iterate

fun system_step ::
  "('q, 'w) queue_ops \<Rightarrow> 'w libc \<Rightarrow> 'w netlib \<Rightarrow> string \<Rightarrow> 'w proc \<Rightarrow> event \<Rightarrow> ('q, 'w) dstate \<Rightarrow> ('q, 'w) dstate outcome" where
  "system_step ops lc nl name p (Client msg) (d, s) =
     andthen (cli_main ops [''banip-cli'', name, msg] (p\<lparr>world := world s\<rparr>)) (\<lambda>(status, out, p). Ret (d, s\<lparr>world := world p\<rparr>))"
| "system_step ops lc nl name p Iterate ds = daemon_iteration ops lc nl ds"

fun spec_event :: "'w netlib \<Rightarrow> event \<Rightarrow> spec_state \<Rightarrow> spec_state" where
  "spec_event nl (Client msg) (ms, B) = (ms @ [msg], B)"
| "spec_event nl Iterate a = spec_step nl a"

text \<open>A client whose queue is full and a daemon whose queue is empty would wait: \<open>room\<close> is the number of messages that
  the queue holds.  Besides, the messages of clients are texts of less than \<open>bound\<close> characters, without a null character, whose prefix, if there is
  one, is a number that \<open>strtoul\<close> reads to its end, other than 0 and \<open>ULONG_MAX\<close> (\<open>clean_prefix\<close>).  Other prefixes make
  \<open>parse_addr\<close> store an error before it goes on, and are excluded: the iteration may be undefined then, as
  \<open>daemon_iteration_crash\<close> shows.\<close>

fun event_allowed :: "nat \<Rightarrow> nat \<Rightarrow> event \<Rightarrow> spec_state \<Rightarrow> bool" where
  "event_allowed room bound (Client msg) (ms, B) \<longleftrightarrow> length ms < room \<and> length msg < bound \<and> NUL \<notin> set msg \<and> clean_prefix msg"
| "event_allowed room bound Iterate (ms, B) \<longleftrightarrow> ms \<noteq> []"

lemma message_text_id: "NUL \<notin> set msg \<Longrightarrow> message_text msg = msg"
  by (auto simp: message_text_def takeWhile_eq_all_conv)

section \<open>The specification in closed form\<close>

text \<open>The messages are handled in the order in which they were sent.\<close>

fun sent :: "event list \<Rightarrow> string list" where
  "sent [] = []"
| "sent (Client msg # es) = msg # sent es"
| "sent (Iterate # es) = sent es"

fun handled :: "event list \<Rightarrow> nat" where
  "handled [] = 0"
| "handled (Client msg # es) = handled es"
| "handled (Iterate # es) = Suc (handled es)"

lemma spec_events_closed:
  assumes "allowed_events (event_allowed room bound) (spec_event nl) es (ms, B)"
  shows "handled es \<le> length (ms @ sent es) \<and>
    spec_events (spec_event nl) es (ms, B) =
      (drop (handled es) (ms @ sent es), B \<union> (\<Union>m \<in> set (take (handled es) (ms @ sent es)). spec_bans nl m))"
  using assms
proof (induction es arbitrary: ms B)
  case (Cons e es)
  show ?case
  proof (cases e)
    case (Client msg)
    then show ?thesis using Cons.IH [of "ms @ [msg]" B] Cons.prems by (simp del: take_append drop_append)
  next
    case Iterate
    then obtain m ms' where ms: "ms = m # ms'" using Cons.prems by (cases ms) auto
    then show ?thesis using Cons.IH [of ms' "B \<union> spec_bans nl m"] Cons.prems Iterate by auto
  qed
qed simp

section \<open>A channel with clients\<close>

text \<open>The abstraction of a state of the world: the texts that wait, and the addresses that match the table.\<close>

definition channel_abs :: "('o \<Rightarrow> char list list) \<Rightarrow> ('w \<Rightarrow> 'o) \<Rightarrow> 'w pf_tables \<Rightarrow> string \<Rightarrow> 'w \<Rightarrow> spec_state" where
  "channel_abs pending view tables t w =
     (map message_text (pending (view w)), {(f, ip). length ip = af_length f \<and> pf_banned tables w (take 31 t) f ip})"

text \<open>What the command line client promises to the channel: it appends a message with the given text and leaves the
  tables alone.\<close>

locale client_channel = server_channel ops laws view waiting tables
  for ops :: "('q, 'w) queue_ops" and laws :: bool and view :: "'w \<Rightarrow> 'o" and waiting :: "'o \<Rightarrow> 'q \<Rightarrow> nat \<Rightarrow> char list list \<Rightarrow> bool"
    and tables :: "'w pf_tables" +
  fixes name :: string and room bound :: nat and pending :: "'o \<Rightarrow> char list list"
  assumes pending: "waiting o2 q k ms \<Longrightarrow> pending o2 = ms"
    and client_appends: "laws \<Longrightarrow> waiting (view (world p)) q k ms \<Longrightarrow> length ms < room \<Longrightarrow> length msg < bound \<Longrightarrow> NUL \<notin> set msg \<Longrightarrow>
      \<exists>p' m. cli_main ops [''banip-cli'', name, msg] p = Ret (EXIT_SUCCESS, [''OK''], p') \<and> message_text m = msg \<and>
        waiting (view (world p')) q k (ms @ [m]) \<and> tables (world p') = tables (world p)"
begin

lemma serves_pending: "serves eng t view waiting ms (d, s) \<Longrightarrow> pending (view (world s)) = ms"
  by (auto simp: serves_def dest: pending)

lemma event_refines:
  assumes laws and plat: "platform lc nl" and sys: "pf_system lc nl api tables view" and t: "NUL \<notin> set t"
    and serve: "serves (pf_engine lc nl api) t view waiting ms (d, s)"
    and ok: "event_allowed room bound e (channel_abs pending view tables t (world s))"
  shows "\<exists>d' s' ms'. system_step ops lc nl name p e (d, s) = Ret (d', s') \<and> serves (pf_engine lc nl api) t view waiting ms' (d', s') \<and>
    channel_abs pending view tables t (world s') = spec_event nl e (channel_abs pending view tables t (world s))"
proof (cases e)
  case (Client msg)
  have msg: "length ms < room" "length msg < bound" "NUL \<notin> set msg" "clean_prefix msg"
    using ok serves_pending [OF serve] Client by (simp_all add: channel_abs_def)
  obtain fd q where sv: "loop_ready (pf_engine lc nl api) t (Some (Fd_Ctxt fd)) d" "d_error d = Some None" "d_queue d = Some q"
    "waiting (view (world s)) q (unat (max_message_size d)) ms" "list_all (\<lambda>m. clean_prefix (message_text m)) ms"
    using serve by (auto simp: serves_def)
  obtain p' m where cli: "cli_main ops [''banip-cli'', name, msg] (p\<lparr>world := world s\<rparr>) = Ret (EXIT_SUCCESS, [''OK''], p')"
    "message_text m = msg" "waiting (view (world p')) q (unat (max_message_size d)) (ms @ [m])" "tables (world p') = tables (world s)"
    using client_appends [OF assms(1), of "p\<lparr>world := world s\<rparr>" q "unat (max_message_size d)" ms msg] sv(4) msg(1-3) by auto
  then have "serves (pf_engine lc nl api) t view waiting (ms @ [m]) (d, s\<lparr>world := world p'\<rparr>)" using sv msg(4) by (auto simp: serves_def)
  moreover from serves_pending [OF this] serves_pending [OF serve]
  have "channel_abs pending view tables t (world p') = spec_event nl e (channel_abs pending view tables t (world s))"
    using cli(2,4) Client by (simp add: channel_abs_def pf_banned_def)
  ultimately show ?thesis using cli(1) Client by (intro exI [of _ d] exI [of _ "s\<lparr>world := world p'\<rparr>"] exI [of _ "ms @ [m]"]) simp
next
  case Iterate
  then obtain m ms' where ms: "ms = m # ms'" using ok serves_pending [OF serve] by (cases ms) (auto simp: channel_abs_def)
  obtain d' s' where it: "daemon_iteration ops lc nl (d, s) = Ret (d', s')" "serves (pf_engine lc nl api) t view waiting ms' (d', s')"
    and ban: "\<forall>f ip. length ip = af_length f \<longrightarrow> (pf_banned tables (world s') (take 31 t) f ip \<longleftrightarrow>
      pf_banned tables (world s) (take 31 t) f ip \<or> (f, ip) \<in> spec_bans nl (message_text m))"
    using iteration_serves [OF assms(1) plat sys t serve [unfolded ms]] by blast
  have "inet_pton_sound nl" using plat by (simp add: platform_def)
  then have "channel_abs pending view tables t (world s') = spec_event nl e (channel_abs pending view tables t (world s))"
    using ban serves_pending [OF serve] serves_pending [OF it(2)] spec_bans_length [of nl] Iterate ms by (auto simp: channel_abs_def)
  then show ?thesis using it Iterate by (intro exI [of _ d'] exI [of _ s'] exI [of _ ms']) simp
qed

end

sublocale client_channel \<subseteq> traffic: event_refinement "system_step ops lc nl name p"
  "\<lambda>ds. laws \<and> platform lc nl \<and> pf_system lc nl api tables view \<and> NUL \<notin> set t \<and> (\<exists>ms. serves (pf_engine lc nl api) t view waiting ms ds)"
  "\<lambda>ds. channel_abs pending view tables t (world (snd ds))" "spec_event nl" "event_allowed room bound"
  for lc nl p api t
proof (unfold_locales, elim conjE exE, goal_cases)
  case (1 ds e ms)
  then show ?case using event_refines [of lc nl api t ms "fst ds" "snd ds" e p] by (cases ds) fastforce
qed

context client_channel
begin

text \<open>Every interleaving of clients and daemon in which nobody has to wait.\<close>

lemma traffic_runs:
  assumes laws and "platform lc nl" and "pf_system lc nl api tables view" and "NUL \<notin> set t"
    and serve: "serves (pf_engine lc nl api) t view waiting ms (d, s)"
    and es: "allowed_events (event_allowed room bound) (spec_event nl) es (channel_abs pending view tables t (world s))"
  shows "\<exists>d' s' ms'. run_events (system_step ops lc nl name p) es (d, s) = Ret (d', s') \<and>
    serves (pf_engine lc nl api) t view waiting ms' (d', s') \<and>
    map message_text ms' = drop (handled es) (map message_text ms @ sent es) \<and>
    (\<forall>f ip. length ip = af_length f \<longrightarrow>
      (pf_banned tables (world s') (take 31 t) f ip \<longleftrightarrow>
        pf_banned tables (world s) (take 31 t) f ip \<or>
        (\<exists>m \<in> set (take (handled es) (map message_text ms @ sent es)). (f, ip) \<in> spec_bans nl m)))"
proof -
  let ?B = "{(f, ip). length ip = af_length f \<and> pf_banned tables (world s) (take 31 t) f ip}"
  let ?abs = "channel_abs pending view tables t"
  have abs: "?abs (world s) = (map message_text ms, ?B)" using serves_pending [OF serve] by (simp add: channel_abs_def)
  have "\<exists>ds'. run_events (system_step ops lc nl name p) es (d, s) = Ret ds' \<and>
      (laws \<and> platform lc nl \<and> pf_system lc nl api tables view \<and> NUL \<notin> set t \<and> (\<exists>ms. serves (pf_engine lc nl api) t view waiting ms ds')) \<and>
      ?abs (world (snd ds')) = spec_events (spec_event nl) es (?abs (world (snd (d, s))))"
    by (rule traffic.run_refines) (use assms in auto)
  then obtain d' s' ms' where run: "run_events (system_step ops lc nl name p) es (d, s) = Ret (d', s')"
    and sv: "serves (pf_engine lc nl api) t view waiting ms' (d', s')"
    and a': "?abs (world s') = spec_events (spec_event nl) es (map message_text ms, ?B)"
    using abs by auto
  have "?abs (world s') =
      (drop (handled es) (map message_text ms @ sent es), ?B \<union> (\<Union>m \<in> set (take (handled es) (map message_text ms @ sent es)). spec_bans nl m))"
    unfolding a' by (rule conjunct2 [OF spec_events_closed]) (use es abs in simp)
  then show ?thesis using run sv serves_pending [OF sv]
    by (intro exI [of _ d'] exI [of _ s'] exI [of _ ms']) (auto simp: channel_abs_def set_eq_iff)
qed

end

end
