(* ===== verification/Posix_System.thy ===== *)
theory Posix_System
  imports Traffic
begin

text \<open>
  The system over POSIX queues: the channel with clients of \<open>Traffic\<close> on the operations of \<open>queues/posix.c\<close>, and
  what every interleaving of clients and daemon does to the queue and to the tables.
\<close>

section \<open>The channel\<close>

definition posix_pending ::
  "string \<Rightarrow> (string \<Rightarrow> (mq_attr \<times> char list list) option) \<times> (int \<Rightarrow> string option) \<Rightarrow> char list list" where
  "posix_pending name o2 = (case fst o2 name of None \<Rightarrow> [] | Some (a, ms) \<Rightarrow> ms)"

lemma posix_abs: "channel_abs (posix_pending name) (\<lambda>w. (kq w, kd w)) tables t w = daemon_abs kq tables name t w"
  by (simp add: channel_abs_def daemon_abs_def posix_pending_def split: option.splits)

interpretation posix_traffic: client_channel "posix_ops lc papi"
  "mq_kernel lc papi kq kd \<and> allocates lc \<and> mq_frame_law lc papi tables \<and> (\<forall>d n w. tables (snd (mq_receive papi d n w)) = tables w)"
  "\<lambda>w. (kq w, kd w)" "posix_waiting name a" tables name "unat (mq_maxmsg a)" "Suc (unat (mq_msgsize a))" "posix_pending name"
  for lc papi kq kd tables name a
proof (unfold_locales, goal_cases)
  case (1 s q k m ms b e)
  then show ?case using posix_channel.receive_first [of papi kq kd name a] kernel_laws(2) by blast
next
  case (2 q b k e s n q' b' e' s')
  then have l: "mq_receive_law papi kq kd \<and> (\<forall>d n w. tables (snd (mq_receive papi d n w)) = tables w)" using kernel_laws(2) by blast
  show ?case by (rule posix_server.receive_tables [OF l 2(2,3)])
next
  case (3 o2 q k ms)
  then show ?case by (simp add: posix_waiting_def posix_pending_def)
next
  case (4 p q k ms msg)
  then have w: "kq (world p) name = Some (a, ms)" "kd (world p) (mq q) = Some name" "unat (mq_msgsize a) < k"
    "list_all (\<lambda>m. length m \<le> unat (mq_msgsize a)) ms" by (simp_all add: posix_waiting_def)
  obtain w' where cli: "cli_main (posix_ops lc papi) [''banip-cli'', name, msg] p = Ret (EXIT_SUCCESS, [''OK''], p\<lparr>world := w'\<rparr>)"
    "kq w' = (kq (world p))(name \<mapsto> (a, ms @ [msg]))" "kd w' = kd (world p)"
    using cli_delivers_to [of lc papi kq kd p name a ms msg "''banip-cli''"] 4(1,3,4) w(1) by auto
  moreover have "tables w' = tables (world p)" using cli_main_frame [OF _ cli(1), of tables] 4(1) by simp
  ultimately show ?case using w 4(4,5) message_text_id
    by (intro exI [of _ "p\<lparr>world := w'\<rparr>"] exI [of _ msg]) (auto simp: posix_waiting_def)
qed

lemma posix_laws:
  assumes "platform lc nl" and "ban_system lc nl api papi kq kd tables" and "mq_frame_law lc papi tables"
  shows "mq_kernel lc papi kq kd \<and> allocates lc \<and> mq_frame_law lc papi tables \<and> (\<forall>d n w. tables (snd (mq_receive papi d n w)) = tables w)"
    and "pf_system lc nl api tables (\<lambda>w. (kq w, kd w))"
  using assms by (simp_all add: ban_system_def platform_def)

lemma serving_serves:
  "kq (world s) name = Some (a, ms) \<Longrightarrow>
   serving lc nl api kq kd name t (d, s) \<longleftrightarrow> serves (pf_engine lc nl api) t (\<lambda>w. (kq w, kd w)) (posix_waiting name a) ms (d, s)"
  by (auto simp: serving_def serves_def posix_waiting_def list_all_iff)

text \<open>A whole run.\<close>

lemma system_runs:
  assumes "platform lc nl" and "ban_system lc nl api papi kq kd tables" and "mq_frame_law lc papi tables" and "NUL \<notin> set t"
    and "serving lc nl api kq kd name t (d, s)" and "kq (world s) name = Some (a, ms)"
    and "allowed_events (event_allowed (unat (mq_maxmsg a)) (Suc (unat (mq_msgsize a)))) (spec_event nl) es (daemon_abs kq tables name t (world s))"
  shows "\<exists>d' s'. run_events (system_step (posix_ops lc papi) lc nl name p) es (d, s) = Ret (d', s') \<and>
    serving lc nl api kq kd name t (d', s') \<and>
    fst (daemon_abs kq tables name t (world s')) = drop (handled es) (map message_text ms @ sent es) \<and>
    (\<forall>f ip. length ip = af_length f \<longrightarrow>
      (pf_banned tables (world s') (take 31 t) f ip \<longleftrightarrow>
        pf_banned tables (world s) (take 31 t) f ip \<or>
        (\<exists>m \<in> set (take (handled es) (map message_text ms @ sent es)). (f, ip) \<in> spec_bans nl m)))"
proof -
  have "serves (pf_engine lc nl api) t (\<lambda>w. (kq w, kd w)) (posix_waiting name a) ms (d, s)"
    using serving_serves [of kq s name a ms lc nl api kd t d] assms(5,6) by simp
  from posix_traffic.traffic_runs [OF posix_laws(1) [OF assms(1-3)] assms(1) posix_laws(2) [OF assms(1-3)] assms(4) this, of es p]
  obtain d' s' ms' where run: "run_events (system_step (posix_ops lc papi) lc nl name p) es (d, s) = Ret (d', s')"
    and sv: "serves (pf_engine lc nl api) t (\<lambda>w. (kq w, kd w)) (posix_waiting name a) ms' (d', s')"
    and ms: "map message_text ms' = drop (handled es) (map message_text ms @ sent es)"
    and ban: "\<forall>f ip. length ip = af_length f \<longrightarrow> (pf_banned tables (world s') (take 31 t) f ip \<longleftrightarrow>
      pf_banned tables (world s) (take 31 t) f ip \<or> (\<exists>m \<in> set (take (handled es) (map message_text ms @ sent es)). (f, ip) \<in> spec_bans nl m))"
    using assms(7) unfolding posix_abs by blast
  have k: "kq (world s') name = Some (a, ms')" using sv by (auto simp: serves_def posix_waiting_def)
  then have "serving lc nl api kq kd name t (d', s')" "fst (daemon_abs kq tables name t (world s')) = map message_text ms'"
    using sv serving_serves [of kq s' name a ms' lc nl api kd t d'] by (simp_all add: daemon_abs_def)
  then show ?thesis using run ms ban by auto
qed

section \<open>Properties\<close>

text \<open>C3: any interleaving of clients and daemon.  The daemon serves its queue; clients send messages and the daemon
  runs iterations in any order in which nobody has to wait: a client sends while the queue has room, the daemon iterates while a
  message waits.  The messages fit the queue, have no null character, and their prefix, if there is one, is a number that
  \<open>strtoul\<close> reads to its end, other than 0 and \<open>ULONG_MAX\<close> (\<open>event_allowed\<close>; a message such as \<open>x/y\<close> or \<open>x/0\<close> can make
  the iteration undefined, see \<open>daemon_iteration_crash\<close>).  Then the whole run is defined, the daemon goes on serving, the messages are
  handled in the order in which they were sent, and after \<open>k\<close> iterations exactly the networks of the first \<open>k\<close> messages are banned in addition.\<close>

theorem system_interleaving:
  assumes "platform lc nl" and "ban_system lc nl api papi kq kd tables" and "mq_frame_law lc papi tables" and "NUL \<notin> set t"
    and "serving lc nl api kq kd name t (d, s)" and "kq (world s) name = Some (a, ms)"
    and "allowed_events (event_allowed (unat (mq_maxmsg a)) (Suc (unat (mq_msgsize a)))) (spec_event nl) es (daemon_abs kq tables name t (world s))"
  shows "\<exists>d' s'. run_events (system_step (posix_ops lc papi) lc nl name p) es (d, s) = Ret (d', s') \<and>
    serving lc nl api kq kd name t (d', s') \<and>
    fst (daemon_abs kq tables name t (world s')) = drop (handled es) (map message_text ms @ sent es) \<and>
    (\<forall>f ip. length ip = af_length f \<longrightarrow>
      (pf_banned tables (world s') (take 31 t) f ip \<longleftrightarrow>
        pf_banned tables (world s) (take 31 t) f ip \<or>
        (\<exists>m \<in> set (take (handled es) (map message_text ms @ sent es)). (f, ip) \<in> spec_bans nl m)))"
  by (rule system_runs [OF assms])

text \<open>The first of the two messages that wait in the sample system is handled between two calls of a client.\<close>

lemma pair_mq_frame: "mq_frame_law sample_libc pair_mq_api snd"
  by (auto simp: mq_frame_law_def sample_libc_def pair_mq_api_def on_first_def split: prod.splits)

theorem system_interleaving_witness:
  "\<exists>d' s'. run_events (system_step (posix_ops sample_libc pair_mq_api) sample_libc sample_netlib ''/banipd'' (sample_proc pair_world))
      [Client ''10.1.2.3'', Iterate, Client ''10.9.9.9'', Iterate, Iterate] pair_daemon = Ret (d', s') \<and>
    fst (daemon_abs (sk_queues \<circ> fst) snd ''/banipd'' ''ban'' (world s')) = [''10.9.9.9''] \<and>
    pf_banned snd (world s') ''ban'' AF_INET [10, 1, 2, 3]"
proof -
  let ?es = "[Client ''10.1.2.3'', Iterate, Client ''10.9.9.9'', Iterate, Iterate]"
  obtain d s where ds: "pair_daemon = (d, s)" and w: "world s = pair_world" by (simp add: pair_daemon_def sample_proc_def)
  have q: "(sk_queues \<circ> fst) (world s) ''/banipd'' = Some (\<lparr>mq_maxmsg = 10, mq_msgsize = 1024\<rparr>, [''192.0.2.77/24'', ''nonsense''])"
    using w by (simp add: pair_world_def)
  have ok: "allowed_events (event_allowed (unat (mq_maxmsg \<lparr>mq_maxmsg = 10, mq_msgsize = 1024\<rparr>)) (Suc (unat (mq_msgsize \<lparr>mq_maxmsg = 10, mq_msgsize = 1024\<rparr>)))) (spec_event sample_netlib) ?es
      (daemon_abs (sk_queues \<circ> fst) snd ''/banipd'' ''ban'' (world s))"
    unfolding daemon_abs_def q by (simp add: clean_prefix_def)
  have "ban_of (sample_netlib :: sample_pair netlib) ''10.1.2.3'' = Some (AF_INET, [10, 1, 2, 3], 32)"
    by (simp add: ban_of_def sample_netlib_def sample_inet_pton_def dotted_quad_def octet_def is_digit_def)
  then have ban: "(AF_INET, [10, 1, 2, 3]) \<in> spec_bans (sample_netlib :: sample_pair netlib) ''10.1.2.3''"
    by (simp add: spec_bans_def same_network_def list_all_iff)
  have tx: "map message_text [''192.0.2.77/24'', ''nonsense''] @ sent ?es = [''192.0.2.77/24'', ''nonsense'', ''10.1.2.3'', ''10.9.9.9'']"
    "handled ?es = 3" by (simp_all add: message_text_def)
  have "NUL \<notin> set ''ban''" by simp
  note r = system_interleaving [OF sample_platform pair_system pair_mq_frame this pair_serving [unfolded ds] q ok,
      where p = "sample_proc pair_world", unfolded tx]
  then show ?thesis unfolding ds using ban by (fastforce simp: numeral_3_eq_3 af_length_def)
qed

end
