(* ===== verification/Boot.thy ===== *)
theory Boot
  imports Traffic
begin

text \<open>
  The start of the daemon, from its command line to the loop: the options in any spelling, and the steps of
  the start-up on a system that grants them.  What the start relies on in the queue is the locale
  \<open>startable_queue\<close>; the two implementations of the queue are instances in \<open>Posix_Boot\<close> and \<open>Systemv_Boot\<close>.
\<close>

section \<open>A system that grants the start\<close>

text \<open>What the start-up cannot do without succeeds where the process may do it, and no call changes what \<open>obs\<close> observes.
  \<open>priv\<close> are the states in which the process may change its groups, as that of a process of root; \<open>gs\<close> are the names of
  groups that the options give, and only these have to exist.  The process of root may become the account that the
  program picks.  The log file and the file with the process number may fail.\<close>

definition kept :: "('w \<Rightarrow> bool) \<Rightarrow> ('w \<Rightarrow> 'o) \<Rightarrow> 'w \<Rightarrow> 'w \<Rightarrow> bool" where
  "kept priv obs w w' \<longleftrightarrow> obs w' = obs w \<and> priv w' = priv w"

definition group_granted :: "'w os_api \<Rightarrow> ('w \<Rightarrow> bool) \<Rightarrow> ('w \<Rightarrow> 'o) \<Rightarrow> nat \<Rightarrow> bool" where
  "group_granted os priv obs gid \<longleftrightarrow>
     (\<forall>w. priv w \<longrightarrow> (\<exists>w'. os_setgid os gid w = (Ok (), w') \<and> kept priv obs w w')) \<and>
     (\<forall>w. priv w \<longrightarrow> (\<exists>w'. os_setgroups os gid w = (Ok (), w') \<and> kept priv obs w w'))"

definition unprivileged_account :: "'w os_api \<Rightarrow> 'w \<Rightarrow> nat option" where
  "unprivileged_account os w = (case os_getpwnam os ''nobody'' w of Some u \<Rightarrow> Some u | None \<Rightarrow> os_getpwnam os ''daemon'' w)"

definition os_grants :: "'w libc \<Rightarrow> 'w os_api \<Rightarrow> ('w \<Rightarrow> bool) \<Rightarrow> ('w \<Rightarrow> 'o) \<Rightarrow> string set \<Rightarrow> bool" where
  "os_grants lc os priv obs gs \<longleftrightarrow>
     (\<forall>n w. priv (snd (malloc lc n w)) = priv w) \<and>
     (\<forall>g \<in> gs. \<forall>w. \<exists>gid w'. os_getgrnam os g w = (Ok gid, w') \<and> kept priv obs w w' \<and> group_granted os priv obs gid) \<and>
     (\<forall>n w. \<exists>w'. os_daemon os n w = (Ok (), w') \<and> kept priv obs w w') \<and>
     (\<forall>w. os_getuid os w = 0 \<longrightarrow> (\<exists>u w'. unprivileged_account os w = Some u \<and> os_setuid os u w = (Ok (), w') \<and> obs w' = obs w)) \<and>
     (\<forall>f w. kept priv obs w (snd (os_fopen_log os f w))) \<and> (\<forall>f w. kept priv obs w (snd (os_write_pid os f w)))"

definition pf_grants :: "'w pf_api \<Rightarrow> ('w \<Rightarrow> 'o) \<Rightarrow> bool" where
  "pf_grants api obs \<longleftrightarrow> (\<forall>dev w. \<exists>fd w'. pf_open_dev api dev w = (Ok fd, w') \<and> obs w' = obs w)"

text \<open>The groups that options name.\<close>

definition groups_of :: "opt list \<Rightarrow> string set" where
  "groups_of opts = {g. (CHR ''g'', g) \<in> set opts}"

lemma syscall_umask: "syscall f s = (r, s') \<Longrightarrow> umask s' = umask s"
  by (auto simp: syscall_def split: prod.splits sysret.splits)

text \<open>A step of the start that \<open>obs\<close> does not see.\<close>

definition quiet :: "('w \<Rightarrow> bool) \<Rightarrow> ('w \<Rightarrow> 'o) \<Rightarrow> 'w proc \<Rightarrow> 'w proc \<Rightarrow> bool" where
  "quiet priv obs s s' \<longleftrightarrow> kept priv obs (world s) (world s') \<and> umask s' = umask s"

lemma quiet_refl [simp]: "quiet priv obs s s"
  by (simp add: quiet_def kept_def)

lemma quiet_trans: "quiet priv obs s1 s2 \<Longrightarrow> quiet priv obs s2 s3 \<Longrightarrow> quiet priv obs s1 s3"
  by (simp add: quiet_def kept_def)

lemma quiet_log [simp]: "quiet priv obs s (log_msg m s') \<longleftrightarrow> quiet priv obs s s'"
  by (simp add: quiet_def kept_def log_msg_def)

lemma syscall_quiet:
  assumes "\<exists>x w'. h (world s) = (Ok x, w') \<and> kept priv obs (world s) w' \<and> P x"
  shows "\<exists>x s'. syscall h s = (Ok x, s') \<and> quiet priv obs s s' \<and> P x"
  using assms by (auto simp: syscall_def quiet_def)

lemma group_grantedD:
  assumes "group_granted os priv obs g" and "priv (world s)"
  shows "\<exists>s'. syscall (os_setgid os g) s = (Ok (), s') \<and> quiet priv obs s s'"
    and "\<exists>s'. syscall (os_setgroups os g) s = (Ok (), s') \<and> quiet priv obs s s'"
  using assms syscall_quiet [of "os_setgid os g" s priv obs "\<lambda>_. True"] syscall_quiet [of "os_setgroups os g" s priv obs "\<lambda>_. True"]
  by (simp_all add: group_granted_def)

lemma os_grantsD:
  assumes "os_grants lc os priv obs gs"
  shows "g \<in> gs \<Longrightarrow> \<exists>gid s'. syscall (os_getgrnam os g) s = (Ok gid, s') \<and> quiet priv obs s s' \<and> group_granted os priv obs gid"
    and "\<exists>s'. syscall (os_daemon os n) s = (Ok (), s') \<and> quiet priv obs s s'"
    and "os_getuid os (world s) = 0 \<Longrightarrow> \<exists>u s'. unprivileged_account os (world s) = Some u \<and> syscall (os_setuid os u) s = (Ok (), s') \<and>
      obs (world s') = obs (world s)"
    and "\<exists>r s'. syscall (os_fopen_log os f) s = (r, s') \<and> quiet priv obs s s'"
    and "\<exists>r s'. syscall (os_write_pid os f) s = (r, s') \<and> quiet priv obs s s'"
    and "priv (snd (malloc lc k w)) = priv w"
proof -
  have any: "\<exists>r s'. syscall h s = (r, s') \<and> quiet priv obs s s'" if "kept priv obs (world s) (snd (h (world s)))" for h :: "'a \<Rightarrow> 'x sysret \<times> 'a"
    using that by (auto simp: syscall_def quiet_def split: prod.splits sysret.splits)
  note g = assms [unfolded os_grants_def]
  show "\<exists>gid s'. syscall (os_getgrnam os g) s = (Ok gid, s') \<and> quiet priv obs s s' \<and> group_granted os priv obs gid" if "g \<in> gs"
    by (rule syscall_quiet) (use g that in blast)
  show "\<exists>s'. syscall (os_daemon os n) s = (Ok (), s') \<and> quiet priv obs s s'"
    using syscall_quiet [of "os_daemon os n" s priv obs "\<lambda>_. True"] g by auto
  show "\<exists>u s'. unprivileged_account os (world s) = Some u \<and> syscall (os_setuid os u) s = (Ok (), s') \<and> obs (world s') = obs (world s)"
    if root: "os_getuid os (world s) = 0"
  proof -
    obtain u w' where "unprivileged_account os (world s) = Some u" "os_setuid os u (world s) = (Ok (), w')" "obs w' = obs (world s)"
      using g root by blast
    then show ?thesis by (auto simp: syscall_def)
  qed
  show "\<exists>r s'. syscall (os_fopen_log os f) s = (r, s') \<and> quiet priv obs s s'" "\<exists>r s'. syscall (os_write_pid os f) s = (r, s') \<and> quiet priv obs s s'"
    using any [of "os_fopen_log os f"] any [of "os_write_pid os f"] g by blast+
  show "priv (snd (malloc lc k w)) = priv w" using g by blast
qed

section \<open>Options that cannot fail\<close>

text \<open>The last argument given with an option.\<close>

definition last_arg :: "char \<Rightarrow> opt list \<Rightarrow> string option" where
  "last_arg c opts = map_of (rev opts) c"

lemma last_arg_Cons: "last_arg c ((c', v) # opts) = (case last_arg c opts of Some x \<Rightarrow> Some x | None \<Rightarrow> if c = c' then Some v else None)"
  by (auto simp: last_arg_def map_add_def split: option.splits)

definition plain_option :: "opt \<Rightarrow> bool" where
  "plain_option opt \<longleftrightarrow> fst opt \<in> set ''dglpqtv''"

lemma option_plain:
  assumes "os_grants lc os priv obs gs" and "plain_option (c, arg)" and "c = CHR ''g'' \<Longrightarrow> arg \<in> gs"
    and "\<forall>g. d_gid d = Some g \<longrightarrow> group_granted os priv obs g"
  shows "\<exists>d' s'. daemon_option ops lc2 os b (c, arg) (d, s) = Ret (Inr (), d', s') \<and> quiet priv obs s s' \<and>
    (d_queue d', d_engine d', d_error d', d_ctxt d', d_buffer d') = (d_queue d, d_engine d, d_error d, d_ctxt d, d_buffer d) \<and>
    queuename d' = (if c = CHR ''q'' then Some arg else queuename d) \<and> tablename d' = (if c = CHR ''t'' then Some arg else tablename d) \<and>
    (\<forall>g. d_gid d' = Some g \<longrightarrow> group_granted os priv obs g)"
proof -
  obtain r sl where l: "syscall (os_fopen_log os arg) s = (r, sl)" "quiet priv obs s sl" using os_grantsD(4) [OF assms(1)] by blast
  show ?thesis
  proof (cases "c = CHR ''g''")
    case True
    obtain gid sg where "syscall (os_getgrnam os arg) s = (Ok gid, sg)" "quiet priv obs s sg" "group_granted os priv obs gid"
      using os_grantsD(1) [OF assms(1) assms(3) [OF True]] by blast
    then show ?thesis using True assms(4) by (auto simp: daemon_option_def Let_def)
  next
    case False
    with assms(2) have "c \<in> {CHR ''d'', CHR ''l'', CHR ''p'', CHR ''q'', CHR ''t'', CHR ''v''}" by (simp add: plain_option_def)
    then show ?thesis using l assms(4) by (cases r) (auto simp: daemon_option_def warnc_def verr_def Let_def)
  qed
qed

lemma options_plain:
  assumes "os_grants lc os priv obs (groups_of opts)" and "list_all plain_option opts" and "d_gid d = None"
  shows "\<exists>d' s'. daemon_options ops lc2 os b opts (d, s) = Ret (Inr (), d', s') \<and> quiet priv obs s s' \<and>
    (d_queue d', d_engine d', d_error d', d_ctxt d', d_buffer d') = (d_queue d, d_engine d, d_error d, d_ctxt d, d_buffer d) \<and>
    queuename d' = (case last_arg CHR ''q'' opts of None \<Rightarrow> queuename d | v \<Rightarrow> v) \<and>
    tablename d' = (case last_arg CHR ''t'' opts of None \<Rightarrow> tablename d | v \<Rightarrow> v) \<and>
    (\<forall>g. d_gid d' = Some g \<longrightarrow> group_granted os priv obs g)"
proof -
  have "\<exists>d' s'. daemon_options ops lc2 os b os2 (d, s) = Ret (Inr (), d', s') \<and> quiet priv obs s s' \<and>
      (d_queue d', d_engine d', d_error d', d_ctxt d', d_buffer d') = (d_queue d, d_engine d, d_error d, d_ctxt d, d_buffer d) \<and>
      queuename d' = (case last_arg CHR ''q'' os2 of None \<Rightarrow> queuename d | v \<Rightarrow> v) \<and>
      tablename d' = (case last_arg CHR ''t'' os2 of None \<Rightarrow> tablename d | v \<Rightarrow> v) \<and>
      (\<forall>g. d_gid d' = Some g \<longrightarrow> group_granted os priv obs g)"
    if "list_all plain_option os2" "groups_of os2 \<subseteq> groups_of opts" "\<forall>g. d_gid d = Some g \<longrightarrow> group_granted os priv obs g" for os2 d
    using that
  proof (induction os2 arbitrary: d s)
    case Nil
    then show ?case by (simp add: last_arg_def)
  next
    case (Cons x os2)
    obtain c arg where x: "x = (c, arg)" by (cases x)
    have gs: "c = CHR ''g'' \<Longrightarrow> arg \<in> groups_of opts" "groups_of os2 \<subseteq> groups_of opts" using Cons.prems(2) x by (auto simp: groups_of_def)
    have plain: "plain_option (c, arg)" "list_all plain_option os2" using Cons.prems(1) x by simp_all
    obtain d1 s1 where 1: "daemon_option ops lc2 os b (c, arg) (d, s) = Ret (Inr (), d1, s1)" "quiet priv obs s s1"
      "(d_queue d1, d_engine d1, d_error d1, d_ctxt d1, d_buffer d1) = (d_queue d, d_engine d, d_error d, d_ctxt d, d_buffer d)"
      "queuename d1 = (if c = CHR ''q'' then Some arg else queuename d)" "tablename d1 = (if c = CHR ''t'' then Some arg else tablename d)"
      "\<forall>g. d_gid d1 = Some g \<longrightarrow> group_granted os priv obs g"
      using option_plain [OF assms(1) plain(1) gs(1) Cons.prems(3), of ops lc2 b s] by blast
    obtain d2 s2 where 2: "daemon_options ops lc2 os b os2 (d1, s1) = Ret (Inr (), d2, s2)" "quiet priv obs s1 s2"
      "(d_queue d2, d_engine d2, d_error d2, d_ctxt d2, d_buffer d2) = (d_queue d1, d_engine d1, d_error d1, d_ctxt d1, d_buffer d1)"
      "queuename d2 = (case last_arg CHR ''q'' os2 of None \<Rightarrow> queuename d1 | v \<Rightarrow> v)"
      "tablename d2 = (case last_arg CHR ''t'' os2 of None \<Rightarrow> tablename d1 | v \<Rightarrow> v)"
      "\<forall>g. d_gid d2 = Some g \<longrightarrow> group_granted os priv obs g"
      using Cons.IH [OF plain(2) gs(2) 1(6), of s1] by blast
    show ?case unfolding x using 1 2 quiet_trans [OF 1(2) 2(2)]
      by (intro exI [of _ d2] exI [of _ s2]) (auto simp: last_arg_Cons split: option.splits)
  qed
  from this [of opts d] assms(2,3) show ?thesis by simp
qed

section \<open>The steps of the start-up\<close>

lemma start_first_steps:
  assumes "os_grants lc os priv obs gs" and "priv (world s)" and "\<forall>g. d_gid d = Some g \<longrightarrow> group_granted os priv obs g"
  shows "\<exists>s'. run_steps [start_daemonize lc2 os, start_pidfile lc2 os, start_group lc2 os] (d, s) = Ret (True, d, s') \<and> quiet priv obs s s'"
proof -
  note grants = os_grantsD [OF assms(1)]
  have 1: "\<exists>s'. start_daemonize lc2 os (d, s) = Ret (True, d, s') \<and> quiet priv obs s s'" for s
  proof -
    obtain s1 where "syscall (os_daemon os (vFlag d = 0)) s = (Ok (), s1)" "quiet priv obs s s1" using grants(2) by blast
    then show ?thesis by (cases "dFlag d") (simp_all add: start_daemonize_def)
  qed
  have 2: "\<exists>s'. start_pidfile lc2 os (d, s) = Ret (True, d, s') \<and> quiet priv obs s s'" for s
  proof (cases "pidfilename d")
    case (Some f)
    obtain r s1 where "syscall (os_write_pid os f) s = (r, s1)" "quiet priv obs s s1" using grants(5) by blast
    then show ?thesis using Some by (cases r) (simp_all add: start_pidfile_def warnc_def verr_def)
  qed (simp add: start_pidfile_def)
  have 3: "\<exists>s'. start_group lc2 os (d, s) = Ret (True, d, s') \<and> quiet priv obs s s'" if pv: "priv (world s)" for s
  proof (cases "d_gid d")
    case (Some g)
    have gr: "group_granted os priv obs g" using assms(3) Some by simp
    obtain s1 where s1: "syscall (os_setgid os g) s = (Ok (), s1)" "quiet priv obs s s1" using group_grantedD(1) [OF gr pv] by blast
    have "priv (world s1)" using s1(2) pv by (simp add: quiet_def kept_def)
    then obtain s2 where "syscall (os_setgroups os g) s1 = (Ok (), s2)" "quiet priv obs s1 s2" using group_grantedD(2) [OF gr] by blast
    then show ?thesis using Some s1 quiet_trans [OF s1(2)] by (auto simp: start_group_def)
  qed (simp add: start_group_def)
  obtain s1 where s1: "start_daemonize lc2 os (d, s) = Ret (True, d, s1)" "quiet priv obs s s1" using 1 by blast
  obtain s2 where s2: "start_pidfile lc2 os (d, s1) = Ret (True, d, s2)" "quiet priv obs s1 s2" using 2 by blast
  have "priv (world s2)" using s1(2) s2(2) assms(2) by (simp add: quiet_def kept_def)
  then obtain s3 where s3: "start_group lc2 os (d, s2) = Ret (True, d, s3)" "quiet priv obs s2 s3" using 3 by blast
  show ?thesis using s1(1) s2(1) s3(1) quiet_trans [OF quiet_trans [OF s1(2) s2(2)] s3(2)] by simp
qed

lemma run_steps_append:
  "run_steps (fs @ gs) ds = andthen (run_steps fs ds) (\<lambda>(ok, ds). if ok then run_steps gs ds else Ret (False, ds))"
proof (induction fs arbitrary: ds)
  case (Cons f fs)
  then show ?case by (cases "f ds") auto
qed simp

lemma start_privileges_granted:
  assumes "os_grants lc os priv obs gs" and "d_engine d = Some eng"
  shows "\<exists>s'. start_privileges lc2 os (d, s) = Ret (True, d, s') \<and> obs (world s') = obs (world s)"
proof (cases "os_getuid os (world s) = 0 \<and> drop_privileges eng")
  case True
  then obtain u s1 where "unprivileged_account os (world s) = Some u" "syscall (os_setuid os u) s = (Ok (), s1)" "obs (world s1) = obs (world s)"
    using os_grantsD(3) [OF assms(1)] by blast
  then show ?thesis using True assms(2) by (auto simp: start_privileges_def unprivileged_account_def split: option.splits)
qed (use assms(2) in \<open>auto simp: start_privileges_def\<close>)

lemma pf_open_granted:
  assumes "pf_grants api obs" and "allocates lc" and "\<And>n w. obs (snd (malloc lc n w)) = obs w"
  shows "\<exists>fd s'. pf_open lc api t e s = Ret (Some (Fd_Ctxt fd), e, s') \<and> obs (world s') = obs (world s)"
proof -
  obtain w1 where al: "alloc lc 4 s = (True, s\<lparr>world := w1\<rparr>)" using allocatesD [OF assms(2)] by blast
  have "world (snd (alloc lc 4 s)) = snd (malloc lc 4 (world s))" by (simp add: alloc_def split: prod.splits)
  then have o1: "obs w1 = obs (world s)" using al assms(3) by simp
  obtain fd w2 where "pf_open_dev api ''/dev/pf'' w1 = (Ok fd, w2)" "obs w2 = obs w1" using assms(1) unfolding pf_grants_def by blast
  then show ?thesis using al o1 by (simp add: pf_open_def syscall_def)
qed

section \<open>From the command line to the loop\<close>

lemma daemon_entry_spelled:
  assumes "map (spelled optstr long_options) xs = map Some opts"
  shows "daemon_entry ops lc os b (prog # concat (map spell xs) @ operands) s =
    (case getopt_long (os_posixly_correct os) optstr long_options operands of
       (opts', rest) \<Rightarrow> daemon_main ops lc os b (opts @ opts') (length rest) s)"
  using getopt_spells [OF assms, of "os_posixly_correct os" operands] by (auto simp: daemon_entry_def split: prod.splits)

section \<open>The options that the manual lists\<close>

















section \<open>A queue that the daemon can start with\<close>

text \<open>The laws of the start: \<open>queue_init\<close> allocates and gives the state \<open>q0\<close>; where the name is \<open>vacant\<close> the owner opens it, after which
  the queue is \<open>opened\<close>, with messages of at most \<open>v\<close> bytes.  \<open>view\<close> is what is observed of the world.\<close>

locale startable_queue =
  fixes lc :: "'w libc" and ops :: "('q, 'w) queue_ops" and laws :: bool and view :: "'w \<Rightarrow> 'o" and name :: string and q0 :: 'q
    and vacant :: "'o \<Rightarrow> bool" and opened :: "'o \<Rightarrow> 'o \<Rightarrow> 'q \<Rightarrow> ulong \<Rightarrow> bool"
  assumes heap_ok: "laws \<Longrightarrow> allocates lc" and view_heap: "laws \<Longrightarrow> view (snd (malloc lc n w)) = view w"
    and init_ok: "laws \<Longrightarrow> \<exists>n s'. q_init ops (Some None) s = Ret (Some q0, Some None, s') \<and> world s' = snd (malloc lc n (world s))"
    and open_ok: "laws \<Longrightarrow> vacant (view (world s)) \<Longrightarrow>
      \<exists>q v s'. q_open ops q0 name QUEUE_FL_OWNER (Some None) s = Ret (True, q, Some None, s') \<and> opened (view (world s)) (view (world s')) q v"
    and size_ok: "laws \<Longrightarrow> opened o1 (view (world s)) q v \<Longrightarrow>
      \<exists>s'. q_get_attribute ops q QUEUE_ATTR_MAX_MESSAGE_SIZE s = (QUEUE_ERR_OK, Some v, s') \<and> view (world s') = view (world s)"
    and size_bound: "opened o1 o2 q v \<Longrightarrow> unat v + 1 < 2 ^ 64"
begin

lemma start_ready:
  assumes laws and os: "os_grants lc os priv view gs" "priv (world s)" and pf: "pf_grants api view"
    and d: "d_queue d = Some q0" "d_engine d = Some (pf_engine lc nl api)" "d_error d = Some None" "queuename d = Some name" "tablename d = Some t"
      "\<forall>g. d_gid d = Some g \<longrightarrow> group_granted os priv view g"
    and new: "vacant (view (world s))"
  shows "\<exists>d' s' q v fd. daemon_start ops lc os (d, s) = Ret (True, d', s') \<and> opened (view (world s)) (view (world s')) q v \<and>
    loop_ready (pf_engine lc nl api) t (Some (Fd_Ctxt fd)) d' \<and> d_error d' = Some None \<and> d_queue d' = Some q \<and> max_message_size d' = v + 1"
proof -
  obtain s1 where s1: "run_steps [start_daemonize lc os, start_pidfile lc os, start_group lc os] (d, s) = Ret (True, d, s1)"
    "view (world s1) = view (world s)" using start_first_steps [OF os d(6), of lc] by (auto simp: quiet_def kept_def)
  obtain q v s2 where q2: "q_open ops q0 name QUEUE_FL_OWNER (Some None) s1 = Ret (True, q, Some None, s2)"
    and o2: "opened (view (world s)) (view (world s2)) q v" using open_ok [OF assms(1), of s1] new s1(2) by auto
  let ?d2 = "d\<lparr>d_queue := Some q\<rparr>"
  have "d\<lparr>d_queue := Some q, d_error := Some None\<rparr> = ?d2" using d(3) by (cases d) simp
  then have 2: "start_queue ops (d, s1) = Ret (True, ?d2, s2)" using d q2 by (simp add: start_queue_def)
  obtain s3 where s3: "q_get_attribute ops q QUEUE_ATTR_MAX_MESSAGE_SIZE s2 = (QUEUE_ERR_OK, Some v, s3)" "view (world s3) = view (world s2)"
    using size_ok [OF assms(1) o2] by blast
  obtain w4 where al4: "alloc lc (unat (v + 1)) s3 = (True, s3\<lparr>world := w4\<rparr>)" using allocatesD [OF heap_ok [OF assms(1)]] by blast
  have "world (snd (alloc lc (unat (v + 1)) s3)) = snd (malloc lc (unat (v + 1)) (world s3))" by (simp add: alloc_def split: prod.splits)
  then have o4: "view w4 = view (world s2)" using al4 view_heap [OF assms(1), of "unat (v + 1)" "world s3"] s3(2) by simp
  let ?d3 = "?d2\<lparr>max_message_size := v + 1, d_buffer := Some (replicate (unat (v + 1)) NUL)\<rparr>"
  have 3: "start_buffer ops lc (?d2, s2) = Ret (True, ?d3, s3\<lparr>world := w4\<rparr>)" using al4 s3(1) by (simp add: start_buffer_def Let_def)
  obtain c s5 where 5: "pf_open lc api t (Some None) (s3\<lparr>world := w4\<rparr>) = Ret (Some (Fd_Ctxt c), Some None, s5)" "view (world s5) = view w4"
    using pf_open_granted [OF pf heap_ok [OF assms(1)] view_heap [OF assms(1)], of t "Some None" "s3\<lparr>world := w4\<rparr>"] by auto
  let ?d4 = "?d3\<lparr>d_ctxt := Some (Fd_Ctxt c), d_error := Some None\<rparr>"
  have 4: "start_engine (?d3, s3\<lparr>world := w4\<rparr>) = Ret (True, ?d4, s5)" using d 5(1) by (simp add: start_engine_def pf_engine_def)
  obtain s6 where 6: "start_privileges lc os (?d4, s5) = Ret (True, ?d4, s6)" "view (world s6) = view (world s5)"
    using start_privileges_granted [OF os(1), of ?d4 "pf_engine lc nl api" lc s5] d(2) by auto
  have "daemon_start ops lc os (d, s) = Ret (True, ?d4, s6)"
    using s1(1) 2 3 4 6(1) run_steps_append [of "[start_daemonize lc os, start_pidfile lc os, start_group lc os]"
        "[start_queue ops, start_buffer ops lc, start_engine, start_privileges lc os]" "(d, s)"]
    by (simp add: daemon_start_def)
  moreover have "opened (view (world s)) (view (world s6)) q v" using o2 o4 5(2) 6(2) by simp
  moreover have "loop_ready (pf_engine lc nl api) t (Some (Fd_Ctxt c)) ?d4" "d_error ?d4 = Some None" "d_queue ?d4 = Some q" "max_message_size ?d4 = v + 1"
    using d by (simp_all add: loop_ready_def)
  ultimately show ?thesis by blast
qed

text \<open>The options are read, the queue is initialised, and the start-up begins.\<close>

lemma entry_start:
  assumes laws and os: "os_grants lc os priv view (groups_of opts)" "priv (world s)" and xs: "map (spelled optstr long_options) xs = map Some opts"
    and opts: "list_all plain_option opts" "last_arg CHR ''q'' opts = Some name" "last_arg CHR ''t'' opts = Some t"
  shows "\<exists>d s1. daemon_entry ops lc os (bsd_build lc nl api) (prog # concat (map spell xs)) s =
      andthen (daemon_start ops lc os (d, s1)) (\<lambda>(ok, ds).
        if ok then Ret (Running ds) else andthen (daemon_give_up lc ds) (exit_cleanup ops lc os BANIPD_EXIT_FAILURE)) \<and>
    d_queue d = Some q0 \<and> d_engine d = Some (pf_engine lc nl api) \<and> d_error d = Some None \<and> d_ctxt d = None \<and> d_buffer d = None \<and>
    queuename d = Some name \<and> tablename d = Some t \<and> (\<forall>g. d_gid d = Some g \<longrightarrow> group_granted os priv view g) \<and>
    view (world s1) = view (world s) \<and> priv (world s1)"
proof -
  obtain n s0 where init: "q_init ops (Some None) s = Ret (Some q0, Some None, s0)" "world s0 = snd (malloc lc n (world s))"
    using init_ok [OF assms(1)] by blast
  then have v0: "view (world s0) = view (world s)" "priv (world s0)" using view_heap [OF assms(1)] os_grantsD(6) [OF os(1)] os(2) by auto
  have eng: "get_default_engine (bsd_build lc nl api) = Some (pf_engine lc nl api)"
    by (simp add: get_default_engine_def available_engines_def bsd_build_def map_filter_def)
  let ?d = "daemon_init (Some q0) (Some None) (Some (pf_engine lc nl api))"
  have "d_gid ?d = None" by (simp add: daemon_init_def)
  then obtain d s1 where o: "daemon_options ops lc os (bsd_build lc nl api) opts (?d, s0) = Ret (Inr (), d, s1)" "quiet priv view s0 s1"
    "(d_queue d, d_engine d, d_error d, d_ctxt d, d_buffer d) = (d_queue ?d, d_engine ?d, d_error ?d, d_ctxt ?d, d_buffer ?d)"
    "queuename d = Some name" "tablename d = Some t" "\<forall>g. d_gid d = Some g \<longrightarrow> group_granted os priv view g"
    using options_plain [OF os(1) opts(1), of ?d ops lc "bsd_build lc nl api" s0] opts(2,3) by auto
  have "daemon_entry ops lc os (bsd_build lc nl api) (prog # concat (map spell xs)) s = daemon_main ops lc os (bsd_build lc nl api) opts 0 s"
    using daemon_entry_spelled [OF xs, where operands = "[]"] by simp
  then show ?thesis using init(1) o eng v0
    by (intro exI [of _ d] exI [of _ s1]) (simp add: daemon_main_def daemon_init_def quiet_def kept_def)
qed

lemma entry_runs:
  assumes laws and os: "os_grants lc os priv view (groups_of opts)" "priv (world s)" and "pf_grants api view"
    and xs: "map (spelled optstr long_options) xs = map Some opts"
    and opts: "list_all plain_option opts" "last_arg CHR ''q'' opts = Some name" "last_arg CHR ''t'' opts = Some t"
    and new: "vacant (view (world s))"
  shows "\<exists>d' s' q v fd. daemon_entry ops lc os (bsd_build lc nl api) (prog # concat (map spell xs)) s = Ret (Running (d', s')) \<and>
    opened (view (world s)) (view (world s')) q v \<and> loop_ready (pf_engine lc nl api) t (Some (Fd_Ctxt fd)) d' \<and>
    d_error d' = Some None \<and> d_queue d' = Some q \<and> unat (max_message_size d') = unat v + 1"
proof -
  obtain d s1 where e: "daemon_entry ops lc os (bsd_build lc nl api) (prog # concat (map spell xs)) s =
      andthen (daemon_start ops lc os (d, s1)) (\<lambda>(ok, ds).
        if ok then Ret (Running ds) else andthen (daemon_give_up lc ds) (exit_cleanup ops lc os BANIPD_EXIT_FAILURE))"
    and d: "d_queue d = Some q0" "d_engine d = Some (pf_engine lc nl api)" "d_error d = Some None" "queuename d = Some name" "tablename d = Some t"
      "\<forall>g. d_gid d = Some g \<longrightarrow> group_granted os priv view g"
    and v: "view (world s1) = view (world s)" "priv (world s1)"
    using entry_start [OF assms(1) os xs opts, of nl api prog] by blast
  obtain d' s' q v fd where st: "daemon_start ops lc os (d, s1) = Ret (True, d', s')" "opened (view (world s)) (view (world s')) q v"
    "loop_ready (pf_engine lc nl api) t (Some (Fd_Ctxt fd)) d'" "d_error d' = Some None" "d_queue d' = Some q" "max_message_size d' = v + 1"
    using start_ready [OF assms(1) os(1) v(2) assms(4) d] new v(1) by auto
  have "unat (v + 1) = unat v + 1" using size_bound [OF st(2)] by (simp add: unat_add_lem [THEN iffD1])
  then show ?thesis using e st by (intro exI [of _ d'] exI [of _ s'] exI [of _ q] exI [of _ v] exI [of _ fd]) simp
qed

end

section \<open>The end\<close>

text \<open>What the end of the process does to files is not observed.\<close>

definition os_end_frame :: "'w os_api \<Rightarrow> ('w \<Rightarrow> 'o) \<Rightarrow> bool" where
  "os_end_frame os obs \<longleftrightarrow> (\<forall>f w. obs (snd (os_unlink os f w)) = obs w) \<and> (\<forall>w. obs (os_fclose_log os w) = obs w)"

lemma cleanup_before_engine:
  assumes "os_end_frame os obs" and "d_ctxt d = None" and "q_close ops (d_queue d) None s = Ret (ok, p, e, s1)"
  shows "\<exists>d' s'. daemon_cleanup ops lc os (d, s) = Ret (d', s') \<and> d_queue d' = p \<and> obs (world s') = obs (world s1)"
proof -
  define s2 where "s2 = (case pidfilename d of
      None \<Rightarrow> s1
    | Some f \<Rightarrow> (case syscall (os_unlink os f) s1 of (Err n, s) \<Rightarrow> warnc lc ''unlink failed'' [] s | (Ok _, s) \<Rightarrow> s))"
  have s2: "obs (world s2) = obs (world s1)"
  proof (cases "pidfilename d")
    case (Some f)
    obtain r s3 where io: "syscall (os_unlink os f) s1 = (r, s3)" by (cases "syscall (os_unlink os f) s1")
    have "obs (world s3) = obs (world s1)"
      by (rule syscall_frame_law [where obs = obs, OF _ io]) (use assms(1) in \<open>simp add: os_end_frame_def\<close>)
    then show ?thesis using Some io by (cases r) (simp_all add: s2_def warnc_def verr_def log_msg_def)
  qed (simp add: s2_def)
  let ?d = "d\<lparr>d_buffer := None, d_queue := p\<rparr>"
  have "daemon_cleanup ops lc os (d, s) =
      Ret (if err_file d then (?d\<lparr>err_file := False\<rparr>, s2\<lparr>world := os_fclose_log os (world s2)\<rparr>) else (?d, s2))"
    using assms(2,3) unfolding s2_def by (simp add: daemon_cleanup_def Let_def)
  then show ?thesis using assms(1) s2 by (auto simp: os_end_frame_def)
qed

section \<open>Samples\<close>

lemma sample_grants: "os_grants sample_libc sample_os (\<lambda>_. True) obs gs" "os_end_frame sample_os obs"
  by (auto simp: os_grants_def group_granted_def kept_def unprivileged_account_def os_end_frame_def sample_os_def)

text \<open>\<open>banipd -v --queue /banipd -tban\<close>\<close>

definition sample_arguments :: "spelling list" where
  "sample_arguments = [Short_Flag CHR ''v'', Long_Apart ''queue'' ''/banipd'', Short_Joined CHR ''t'' ''ban'']"

definition sample_options :: "opt list" where
  "sample_options = [(CHR ''v'', []), (CHR ''q'', ''/banipd''), (CHR ''t'', ''ban'')]"

lemma sample_options_plain:
  "map (spelled optstr long_options) sample_arguments = map Some sample_options" "list_all plain_option sample_options"
  "last_arg CHR ''q'' sample_options = Some ''/banipd''" "last_arg CHR ''t'' sample_options = Some ''ban''"
  by (simp_all add: sample_arguments_def sample_options_def plain_option_def last_arg_def optstr_def long_options_def short_kind_def long_match_def)

section \<open>Properties\<close>



end
