(* ===== verification/Posix_Boot.thy ===== *)
theory Posix_Boot
  imports Posix_System Boot
begin

text \<open>
  The daemon over POSIX queues from its command line to its end: the start as an instance of \<open>startable_queue\<close>, a run of
  clients and iterations afterwards, and the cleanup.
  Then what happens when the queue exists already, and how a daemon with the engine \<open>ipset\<close> ends.
\<close>

section \<open>The start\<close>

abbreviation system_view where
  "system_view kq kd tables \<equiv> \<lambda>w. (kq w, kd w, tables w)"

definition posix_q0 :: posix_queue where
  "posix_q0 = \<lparr>mq = NOT_MQD_T, filename = None, attr = \<lparr>mq_maxmsg = 10, mq_msgsize = 1024\<rparr>\<rparr>"

type_synonym 't mq_view = "(string \<Rightarrow> (mq_attr \<times> char list list) option) \<times> (int \<Rightarrow> string option) \<times> 't"

definition posix_opened :: "string \<Rightarrow> 't mq_view \<Rightarrow> 't mq_view \<Rightarrow> posix_queue \<Rightarrow> ulong \<Rightarrow> bool" where
  "posix_opened name = (\<lambda>(k1, d1, t1) (k2, d2, t2) q v.
     k2 = k1(name \<mapsto> (\<lparr>mq_maxmsg = 10, mq_msgsize = 1024\<rparr>, [])) \<and> d2 (mq q) = Some name \<and> t2 = t1 \<and>
     filename q = Some name \<and> mq q \<noteq> NOT_MQD_T \<and> attr q = \<lparr>mq_maxmsg = 10, mq_msgsize = 1024\<rparr> \<and> v = 1024)"

lemma posix_open_owner_frame:
  assumes "mq_frame_law lc papi obs" and "posix_queue_open lc papi q name QUEUE_FL_OWNER e s = Ret (ok, q', e', s')"
  shows "obs (world s') = obs (world s)"
  using assms(2)
  by (auto simp: posix_queue_open_def posix_queue_open_mq_def Let_def set_umask_def set_error_defs elim!: andthenE
      split: prod.splits sysret.splits bool.splits if_splits dest!: mq_frameD(1-3) [OF assms(1)])

lemma system_view_heap:
  assumes "mq_kernel lc papi kq kd" and "mq_frame_law lc papi tables"
  shows "system_view kq kd tables (snd (malloc lc n w)) = system_view kq kd tables w"
  using kernel_laws(6) [OF assms(1)] assms(2) by (simp add: heap_apart_def mq_frame_law_def)

lemma posix_init_ok:
  assumes "allocates lc"
  shows "\<exists>n s'. posix_queue_init lc papi e s = Ret (Some posix_q0, e, s') \<and> world s' = snd (malloc lc n (world s))"
proof -
  obtain w where al: "malloc lc (sizeof_posix_queue papi) (world s) = (True, w)" "alloc lc (sizeof_posix_queue papi) s = (True, s\<lparr>world := w\<rparr>)"
    using allocatesD [OF assms] by blast
  then show ?thesis by (intro exI [of _ "sizeof_posix_queue papi"] exI [of _ "s\<lparr>world := w\<rparr>"]) (simp add: posix_queue_init_def posix_q0_def)
qed

interpretation posix_start: startable_queue lc "posix_ops lc papi" "mq_kernel lc papi kq kd \<and> allocates lc \<and> mq_frame_law lc papi tables"
  "system_view kq kd tables" name posix_q0 "\<lambda>(k, _). k name = None" "posix_opened name"
  for lc papi kq kd tables name
proof (unfold_locales, goal_cases)
  case 1
  then show ?case by simp
next
  case (2 n w)
  then show ?case by (intro system_view_heap) auto
next
  case (3 s)
  then show ?case using posix_init_ok [of lc papi "Some None" s] by simp
next
  case (4 s)
  then have laws: "mq_kernel lc papi kq kd" "allocates lc" "mq_frame_law lc papi tables" "kq (world s) name = None" by simp_all
  obtain fd w where o: "posix_queue_open lc papi posix_q0 name QUEUE_FL_OWNER (Some None) s =
      Ret (True, posix_q0\<lparr>filename := Some name, mq := fd\<rparr>, Some None, s\<lparr>world := w\<rparr>)"
    and k: "fd \<noteq> NOT_MQD_T" "kq w = (kq (world s))(name \<mapsto> (attr posix_q0, []))" "kd w = (kd (world s))(fd \<mapsto> name)"
    using posix_open_owner [OF kernel_laws(3,6) [OF laws(1)] laws(2,4), of posix_q0 "Some None"] by blast
  have "tables w = tables (world s)" using posix_open_owner_frame [OF laws(3) o] by simp
  then show ?case using o k by (intro exI [of _ "posix_q0\<lparr>filename := Some name, mq := fd\<rparr>"] exI [of _ 1024] exI [of _ "s\<lparr>world := w\<rparr>"])
      (simp add: posix_opened_def posix_q0_def)
next
  case (5 o1 s q v)
  then show ?case by (auto simp: posix_opened_def posix_queue_get_attribute_def split: prod.splits)
next
  case (6 o1 o2 q v)
  then show ?case by (auto simp: posix_opened_def split: prod.splits)
qed

lemma daemon_boots:
  assumes plat: "platform lc nl" and sys: "ban_system lc nl api papi kq kd tables" and frame: "mq_frame_law lc papi tables"
    and os: "os_grants lc os priv (system_view kq kd tables) (groups_of opts)" "priv (world s)" and pf: "pf_grants api (system_view kq kd tables)"
    and xs: "map (spelled optstr long_options) xs = map Some opts"
    and opts: "list_all plain_option opts" "last_arg CHR ''q'' opts = Some name" "last_arg CHR ''t'' opts = Some t"
    and new: "kq (world s) name = None"
  shows "\<exists>d' s'. daemon_entry (posix_ops lc papi) lc os (bsd_build lc nl api) (prog # concat (map spell xs)) s = Ret (Running (d', s')) \<and>
    serving lc nl api kq kd name t (d', s') \<and> kq (world s') = (kq (world s))(name \<mapsto> (\<lparr>mq_maxmsg = 10, mq_msgsize = 1024\<rparr>, [])) \<and>
    tables (world s') = tables (world s) \<and> (\<exists>q. d_queue d' = Some q \<and> filename q = Some name \<and> mq q \<noteq> NOT_MQD_T)"
proof -
  have laws: "mq_kernel lc papi kq kd \<and> allocates lc \<and> mq_frame_law lc papi tables"
    using plat sys frame by (simp_all add: ban_system_def platform_def)
  have new': "(\<lambda>(k, _). k name = None) (system_view kq kd tables (world s))" using new by simp
  obtain d' s' q v fd where e: "daemon_entry (posix_ops lc papi) lc os (bsd_build lc nl api) (prog # concat (map spell xs)) s = Ret (Running (d', s'))"
    and o: "posix_opened name (system_view kq kd tables (world s)) (system_view kq kd tables (world s')) q v"
    and d: "loop_ready (pf_engine lc nl api) t (Some (Fd_Ctxt fd)) d'" "d_error d' = Some None" "d_queue d' = Some q" "unat (max_message_size d') = unat v + 1"
    using posix_start.entry_runs [OF laws os pf xs opts new', of nl prog] by blast
  have "serving lc nl api kq kd name t (d', s')" using d o by (auto simp: serving_def posix_opened_def)
  then show ?thesis using e o d(3) by (intro exI [of _ d'] exI [of _ s']) (auto simp: posix_opened_def)
qed

section \<open>A second daemon for the same queue\<close>

lemma daemon_start_exists:
  assumes kernel: "mq_kernel lc papi kq kd" and plat: "platform lc nl" and os: "os_grants lc os priv (system_view kq kd tables) gs" "priv (world s)"
    and d: "d_queue d = Some q" "d_error d = Some None" "queuename d = Some name"
      "\<forall>g. d_gid d = Some g \<longrightarrow> group_granted os priv (system_view kq kd tables) g" and old: "kq (world s) name \<noteq> None"
  shows "\<exists>m s'. daemon_start (posix_ops lc papi) lc os (d, s) =
      Ret (False, d\<lparr>d_queue := Some (q\<lparr>filename := Some name, mq := NOT_MQD_T\<rparr>), d_error := Some (Some m)\<rparr>, s') \<and> kq (world s') = kq (world s)"
proof -
  have al: "allocates lc" "formats lc" using plat by (simp_all add: platform_def)
  obtain s1 where s1: "run_steps [start_daemonize lc os, start_pidfile lc os, start_group lc os] (d, s) = Ret (True, d, s1)"
    "kq (world s1) = kq (world s)" using start_first_steps [OF os d(4), of lc] by (auto simp: quiet_def kept_def)
  obtain m s2 where "posix_queue_open lc papi q name QUEUE_FL_OWNER (Some None) s1 =
      Ret (False, q\<lparr>filename := Some name, mq := NOT_MQD_T\<rparr>, Some (Some m), s2)" "kq (world s2) = kq (world s1)"
    using posix_open_owner_exists [OF kernel al, of s1 name q] old s1(2) by auto
  then show ?thesis using s1 d run_steps_append [of "[start_daemonize lc os, start_pidfile lc os, start_group lc os]"
        "[start_queue (posix_ops lc papi), start_buffer (posix_ops lc papi) lc, start_engine, start_privileges lc os]" "(d, s)"]
    by (intro exI [of _ m] exI [of _ s2]) (simp add: daemon_start_def start_queue_def)
qed

section \<open>The end of a daemon with the engine ipset\<close>

lemma start_engine_context:
  "start_engine (d, s) = Ret (True, d', s') \<Longrightarrow> d_engine d' = Some (ipset_engine lc sh) \<Longrightarrow> d_ctxt d' = Some One_Ctxt"
  by (auto simp: start_engine_def ipset_engine_def ipset_open_def elim!: andthenE split: option.splits if_splits)

lemma daemon_start_ipset:
  assumes "daemon_start ops lc os (d, s) = Ret (True, d', s')" and "d_engine d' = Some (ipset_engine lc' sh)"
  shows "d_ctxt d' = Some One_Ctxt"
proof -
  let ?fs = "[start_daemonize lc os, start_pidfile lc os, start_group lc os, start_queue ops, start_buffer ops lc]"
  have "run_steps ((?fs @ [start_engine]) @ [start_privileges lc os]) (d, s) = Ret (True, d', s')" using assms(1) by (simp add: daemon_start_def)
  then obtain d2 s2 d3 s3 where "start_engine (d2, s2) = Ret (True, d3, s3)" "start_privileges lc os (d3, s3) = Ret (True, d', s')"
    unfolding run_steps_snoc by auto
  then show ?thesis using start_engine_context [of d2 s2 d3 s3 lc' sh] start_privileges_True [of lc os d3 s3 d' s'] assms(2) by auto
qed

section \<open>The end of the system\<close>

text \<open>Neither clients nor iterations change the queue that the daemon holds.\<close>

lemma iteration_keeps_queue:
  assumes "daemon_iteration (posix_ops lc papi) lc nl (d, s) = Ret (d', s')"
  shows "d_queue d' = d_queue d"
proof -
  have "q' = q" if "posix_queue_receive lc papi q buf n e s = Ret (r, q', buf', e', s')" for q buf n e s r q' buf' e' s'
    using that by (auto simp: posix_queue_receive_def elim!: andthenE split: prod.splits sysret.splits)
  then show ?thesis using assms
    by (fastforce simp: daemon_iteration_def daemon_report_def Let_def elim!: andthenE split: option.splits if_splits)
qed

lemma run_keeps_queue:
  "run_events (system_step (posix_ops lc papi) lc nl name p) es (d, s) = Ret (d', s') \<Longrightarrow> d_queue d' = d_queue d"
proof (induction es arbitrary: d s)
  case (Cons e es)
  then obtain d1 s1 where st: "system_step (posix_ops lc papi) lc nl name p e (d, s) = Ret (d1, s1)"
    and rest: "run_events (system_step (posix_ops lc papi) lc nl name p) es (d1, s1) = Ret (d', s')" by (auto elim!: andthenE)
  have "d_queue d1 = d_queue d" using st iteration_keeps_queue by (cases e) (auto elim!: andthenE)
  with Cons.IH [OF rest] show ?case by simp
qed simp

lemma daemon_cleanup_frame:
  assumes "mq_frame_law lc papi obs" and "\<And>fd w. obs (snd (pf_close_fd api fd w)) = obs w" and "os_end_frame os obs"
    and "d_engine d = Some (pf_engine lc nl api)" and "daemon_cleanup (posix_ops lc papi) lc os (d, s) = Ret (d', s')"
  shows "obs (world s') = obs (world s)"
proof -
  note sys = syscall_frame_law [where obs = obs]
  have pf: "obs (world s2) = obs (world s1)" if "pf_close lc api c s1 = Ret (c', s2)" for c c' s1 s2
    using that by (auto simp: pf_close_def warnc_def verr_def log_msg_def split: ctxt.splits if_splits prod.splits sysret.splits dest!: sys [OF assms(2)])
  have unl: "obs (world s2) = obs (world s1)" if "syscall (os_unlink os f) s1 = (r, s2)" for f s1 r s2
    by (rule sys [OF _ that]) (use assms(3) in \<open>simp add: os_end_frame_def\<close>)
  have fin: "obs (os_fclose_log os w) = obs w" for w using assms(3) by (simp add: os_end_frame_def)
  show ?thesis using assms(4,5)
    by (auto simp: daemon_cleanup_def pf_engine_def Let_def fin warnc_def verr_def log_msg_def elim!: andthenE
        split: option.splits if_splits prod.splits sysret.splits dest!: pf unl posix_close_frame [OF assms(1)])
qed

text \<open>Start and traffic together.\<close>

lemma started_system_runs:
  assumes plat: "platform lc nl" and sys: "ban_system lc nl api papi kq kd tables" and frame: "mq_frame_law lc papi tables"
    and os: "os_grants lc os priv (system_view kq kd tables) (groups_of opts)" "priv (world s)" and pf: "pf_grants api (system_view kq kd tables)"
    and xs: "map (spelled optstr long_options) xs = map Some opts"
    and opts: "list_all plain_option opts" "last_arg CHR ''q'' opts = Some name" "last_arg CHR ''t'' opts = Some t" and t: "NUL \<notin> set t"
    and new: "kq (world s) name = None"
    and es: "\<And>B. allowed_events (event_allowed 10 1025) (spec_event nl) es ([], B)"
  shows "\<exists>ds d' s'. daemon_entry (posix_ops lc papi) lc os (bsd_build lc nl api) (prog # concat (map spell xs)) s = Ret (Running ds) \<and>
    run_events (system_step (posix_ops lc papi) lc nl name p) es ds = Ret (d', s') \<and>
    serving lc nl api kq kd name t (d', s') \<and> (\<exists>q. d_queue d' = Some q \<and> filename q = Some name \<and> mq q \<noteq> NOT_MQD_T) \<and>
    fst (daemon_abs kq tables name t (world s')) = drop (handled es) (sent es) \<and>
    (\<forall>f ip. length ip = af_length f \<longrightarrow>
      (pf_banned tables (world s') (take 31 t) f ip \<longleftrightarrow>
        pf_banned tables (world s) (take 31 t) f ip \<or> (\<exists>m \<in> set (take (handled es) (sent es)). (f, ip) \<in> spec_bans nl m)))"
proof -
  obtain d1 s1 q where b: "daemon_entry (posix_ops lc papi) lc os (bsd_build lc nl api) (prog # concat (map spell xs)) s = Ret (Running (d1, s1))"
    "serving lc nl api kq kd name t (d1, s1)" "kq (world s1) name = Some (\<lparr>mq_maxmsg = 10, mq_msgsize = 1024\<rparr>, [])" "tables (world s1) = tables (world s)"
    and q: "d_queue d1 = Some q" "filename q = Some name" "mq q \<noteq> NOT_MQD_T"
    using daemon_boots [OF plat sys frame os pf xs opts new, of prog] by (metis fun_upd_same)
  have "allowed_events (event_allowed (unat (mq_maxmsg \<lparr>mq_maxmsg = 10, mq_msgsize = 1024\<rparr>)) (Suc (unat (mq_msgsize \<lparr>mq_maxmsg = 10, mq_msgsize = 1024\<rparr>))))
      (spec_event nl) es (daemon_abs kq tables name t (world s1))"
    using b(3) es by (simp add: daemon_abs_def)
  from system_runs [OF plat sys frame t b(2,3) this, of p] b(1,4) q show ?thesis by (fastforce simp: pf_banned_def dest: run_keeps_queue)
qed

section \<open>Properties\<close>

definition pair_world0 :: sample_pair where
  "pair_world0 = (sample_kernel0, {})"

lemma pair_grants: "os_grants sample_libc sample_os (\<lambda>_. True) obs gs" "os_end_frame sample_os obs" "pf_grants pair_pf_api obs"
  using sample_grants by (auto simp: pf_grants_def pair_pf_api_def on_second_def sample_pf_api_def)

text \<open>C15: a second daemon for a queue that another one serves.  It fails to create the queue and exits with the status
  for failures, but the cleanup at its exit removes the queue of the running daemon.\<close>

theorem second_daemon_removes_queue:
  assumes plat: "platform lc nl" and sys: "ban_system lc nl api papi kq kd tables" and frame: "mq_frame_law lc papi tables"
    and os: "os_grants lc os priv (system_view kq kd tables) (groups_of opts)" "priv (world s)" "os_end_frame os (system_view kq kd tables)"
    and xs: "map (spelled optstr long_options) xs = map Some opts"
    and opts: "list_all plain_option opts" "last_arg CHR ''q'' opts = Some name" "last_arg CHR ''t'' opts = Some t"
    and old: "kq (world s) name \<noteq> None"
  shows "\<exists>d' s'. daemon_entry (posix_ops lc papi) lc os (bsd_build lc nl api) (prog # concat (map spell xs)) s =
      Ret (Exited BANIPD_EXIT_FAILURE (d', s')) \<and> kq (world s') = (kq (world s))(name := None)"
proof -
  have kernel: "mq_kernel lc papi kq kd" and laws: "mq_kernel lc papi kq kd \<and> allocates lc \<and> mq_frame_law lc papi tables"
    using plat sys frame by (simp_all add: ban_system_def platform_def)
  obtain d s1 q where e: "daemon_entry (posix_ops lc papi) lc os (bsd_build lc nl api) (prog # concat (map spell xs)) s =
      andthen (daemon_start (posix_ops lc papi) lc os (d, s1)) (\<lambda>(ok, ds).
        if ok then Ret (Running ds) else andthen (daemon_give_up lc ds) (exit_cleanup (posix_ops lc papi) lc os BANIPD_EXIT_FAILURE))"
    and d: "d_queue d = Some q" "d_error d = Some None" "queuename d = Some name" "d_ctxt d = None"
      "\<forall>g. d_gid d = Some g \<longrightarrow> group_granted os priv (system_view kq kd tables) g"
    and v: "kq (world s1) = kq (world s)" "priv (world s1)"
    using posix_start.entry_start [OF laws os(1,2) xs opts, of nl api prog] by blast
  let ?q = "q\<lparr>filename := Some name, mq := NOT_MQD_T\<rparr>"
  obtain m s2 where st: "daemon_start (posix_ops lc papi) lc os (d, s1) = Ret (False, d\<lparr>d_queue := Some ?q, d_error := Some (Some m)\<rparr>, s2)"
    "kq (world s2) = kq (world s1)" using daemon_start_exists [OF kernel plat os(1) v(2) d(1-3,5)] old v(1) by auto
  let ?d = "d\<lparr>d_queue := Some ?q, d_error := Some None\<rparr>"
  have g: "daemon_give_up lc (d\<lparr>d_queue := Some ?q, d_error := Some (Some m)\<rparr>, s2) = Ret (?d, log_msg m s2)"
    by (simp add: daemon_give_up_def daemon_report_def verr_error_def error_free_def)
  obtain w where "posix_queue_close lc papi (Some ?q) None (log_msg m s2) = Ret (True, None, None, (log_msg m s2)\<lparr>world := w\<rparr>)"
    "kq w = (kq (world s))(name := None)"
    using posix_close_failed [OF kernel, of ?q name "log_msg m s2"] old st(2) v(1) by (auto simp: log_msg_def)
  with cleanup_before_engine [OF os(3), of ?d "posix_ops lc papi" "log_msg m s2" True None None _ lc] obtain d' s' where
    "daemon_cleanup (posix_ops lc papi) lc os (?d, log_msg m s2) = Ret (d', s')" "kq (world s') = (kq (world s))(name := None)"
    using d(4) by auto
  then show ?thesis using e st(1) g by (simp add: exit_cleanup_def)
qed

theorem second_daemon_removes_queue_witness:
  "\<exists>d' s'. daemon_entry (posix_ops sample_libc pair_mq_api) sample_libc sample_os (bsd_build sample_libc sample_netlib pair_pf_api)
      [''banipd'', ''-v'', ''--queue'', ''/banipd'', ''-tban''] (sample_proc pair_world) = Ret (Exited BANIPD_EXIT_FAILURE (d', s')) \<and>
    (sk_queues \<circ> fst) (world s') ''/banipd'' = None"
proof -
  have "(sk_queues \<circ> fst) (world (sample_proc pair_world)) ''/banipd'' \<noteq> None" by (simp add: sample_proc_def pair_world_def)
  then have "\<exists>d' s'. daemon_entry (posix_ops sample_libc pair_mq_api) sample_libc sample_os (bsd_build sample_libc sample_netlib pair_pf_api)
      (''banipd'' # concat (map spell sample_arguments)) (sample_proc pair_world) = Ret (Exited BANIPD_EXIT_FAILURE (d', s')) \<and>
    (sk_queues \<circ> fst) (world s') = ((sk_queues \<circ> fst) (world (sample_proc pair_world)))(''/banipd'' := None)"
    by (rule second_daemon_removes_queue [OF sample_platform pair_system pair_mq_frame pair_grants(1) TrueI pair_grants(2) sample_options_plain])
  then show ?thesis by (auto simp: sample_arguments_def)
qed

text \<open>C16: a daemon with the engine \<open>ipset\<close> cannot end cleanly.  The context of this engine is not a heap pointer, and whatever
  the daemon has done before, the cleanup at \<open>SIGTERM\<close> or \<open>SIGINT\<close> frees it, which is undefined.\<close>

theorem ipset_daemon_ends_undefined:
  assumes "daemon_main (posix_ops lc papi) lc os b opts argc s = Ret (Running ds)" and "d_engine (fst ds) = Some (ipset_engine lc sh)"
    and "daemon_reaches (posix_ops lc papi) lc nl os env ds ds'" and "signo = SIGTERM \<or> signo = SIGINT"
  shows "on_signal (posix_ops lc papi) lc os signo ds' = Undef Invalid_Free"
proof -
  obtain d s1 d' s' where ds: "ds = (d, s1)" "ds' = (d', s')" by (cases ds; cases ds')
  obtain d0 s0 where st: "daemon_start (posix_ops lc papi) lc os (d0, s0) = Ret (True, d, s1)" using daemon_main_Running assms(1) ds by blast
  have "d_ctxt d = Some One_Ctxt" using daemon_start_ipset [OF st] assms(2) ds by simp
  moreover obtain eng t where "loop_ready eng t (d_ctxt d) d" using daemon_start_True [OF st] by blast
  ultimately have "loop_ready eng t (Some One_Ctxt) (fst ds)" "eng = ipset_engine lc sh" using assms(2) ds by (auto simp: loop_ready_def)
  with posix.reaches_ready [OF assms(3)] have "d_ctxt d' = Some One_Ctxt" "d_engine d' = Some (ipset_engine lc sh)"
    unfolding ds by (auto simp: loop_ready_def)
  then show ?thesis using assms(4) unfolding ds
    by (auto simp: on_signal_def daemon_cleanup_def ipset_engine_def free_ctxt_def Let_def)
qed

definition sample_ipset :: "sample_kernel shell" where
  "sample_ipset cmd w = (0, w)"

lemma sample_ipset_daemon:
  "\<exists>ds. daemon_main (posix_ops sample_libc sample_mq_api) sample_libc sample_os (linux_build sample_libc sample_ipset True)
      [(CHR ''e'', ''ipset''), (CHR ''q'', ''/banipd''), (CHR ''t'', ''ban'')] 0 (sample_proc sample_kernel0) = Ret (Running ds) \<and>
    d_engine (fst ds) = Some (ipset_engine sample_libc sample_ipset)"
proof -
  let ?q = "\<lparr>mq = NOT_MQD_T, filename = None, attr = \<lparr>mq_maxmsg = 10, mq_msgsize = 1024\<rparr>\<rparr>" and ?b = "linux_build sample_libc sample_ipset True"
  obtain fd w where op: "posix_queue_open sample_libc sample_mq_api ?q ''/banipd'' QUEUE_FL_OWNER (Some None) (sample_proc sample_kernel0) =
      Ret (True, ?q\<lparr>filename := Some ''/banipd'', mq := fd\<rparr>, Some None, (sample_proc sample_kernel0)\<lparr>world := w\<rparr>)"
    using posix_open_owner [OF kernel_laws(3,6) [OF sample_kernel_law], of "sample_proc sample_kernel0" "''/banipd''" ?q "Some None"]
    by (auto simp: allocates_def sample_libc_def sample_proc_def sample_kernel0_def)
  have al: "alloc sample_libc n s = (True, s)" for n and s :: "sample_kernel proc"
    by (simp add: alloc_def sample_libc_def)
  have eng: "get_engine_by_name ?b ''ipset'' = Some (ipset_engine sample_libc sample_ipset)"
    by (simp add: get_engine_by_name_def available_engines_def linux_build_def map_filter_def)
  obtain e0 where e0: "get_default_engine ?b = Some e0"
    by (simp add: get_default_engine_def available_engines_def linux_build_def map_filter_def)
  have cmd: "\<exists>w'. ipset_open sample_libc sample_ipset ''ban'' (Some None) s = Ret (Some One_Ctxt, Some None, s\<lparr>world := w'\<rparr>)" for s
    using ipset_open_first_command_only [OF sample_alloc_formats(1), of "''ban''" sample_ipset s "Some None"] by auto
  have "start_queue (posix_ops sample_libc sample_mq_api) (d, sample_proc sample_kernel0) =
      Ret (True, d\<lparr>d_queue := Some (?q\<lparr>filename := Some ''/banipd'', mq := fd\<rparr>), d_error := Some None\<rparr>, (sample_proc sample_kernel0)\<lparr>world := w\<rparr>)"
    if "d_queue d = Some ?q" "queuename d = Some ''/banipd''" "d_error d = Some None" for d
    using op that by (simp add: start_queue_def)
  then show ?thesis using eng e0 cmd [of "(sample_proc sample_kernel0)\<lparr>world := w\<rparr>"]
    by (auto simp: daemon_main_def posix_queue_init_def al daemon_init_def daemon_option_def daemon_start_def
        start_daemonize_def start_pidfile_def start_group_def start_buffer_def posix_queue_get_attribute_def
        start_engine_def start_privileges_def ipset_engine_def sample_os_def syscall_def Let_def)
qed

theorem ipset_daemon_ends_undefined_witness:
  "\<exists>ds. daemon_main (posix_ops sample_libc sample_mq_api) sample_libc sample_os (linux_build sample_libc sample_ipset True)
      [(CHR ''e'', ''ipset''), (CHR ''q'', ''/banipd''), (CHR ''t'', ''ban'')] 0 (sample_proc sample_kernel0) = Ret (Running ds) \<and>
    on_signal (posix_ops sample_libc sample_mq_api) sample_libc sample_os SIGTERM ds = Undef Invalid_Free"
  using sample_ipset_daemon ipset_daemon_ends_undefined [OF _ _ rtranclp.rtrancl_refl, where signo = SIGTERM] by blast

end
