(* ===== verification/Systemv_System.thy ===== *)
theory Systemv_System
  imports Traffic
begin

text \<open>
  The system over System V queues: the command line client and the daemon, both linked with
  \<open>queues/systemv.c\<close>, and the packet filter.  Client and daemon are an instance of the channel with clients of
  \<open>Traffic\<close>.
\<close>

section \<open>Calls that leave an observation alone\<close>

definition sysv_frame_law :: "'w libc \<Rightarrow> 'w sysv_api \<Rightarrow> ('w \<Rightarrow> 'o) \<Rightarrow> bool" where
  "sysv_frame_law lc api obs \<longleftrightarrow>
     (\<forall>n w. obs (snd (malloc lc n w)) = obs w) \<and> (\<forall>p m w. obs (snd (fopen api p m w)) = obs w) \<and>
     (\<forall>fp w. obs (snd (fread_int api fp w)) = obs w) \<and> (\<forall>fp w. obs (snd (fclose api fp w)) = obs w) \<and>
     (\<forall>fp i w. obs (snd (fwrite_int api fp i w)) = obs w) \<and> (\<forall>fp w. obs (snd (fflush api fp w)) = obs w) \<and>
     (\<forall>k fl w. obs (snd (msgget api k fl w)) = obs w) \<and> (\<forall>d w. obs (snd (msg_stat api d w)) = obs w) \<and>
     (\<forall>d w. obs (snd (msg_rmid api d w)) = obs w) \<and> (\<forall>p w. obs (snd (unlink api p w)) = obs w) \<and>
     (\<forall>d ty m w. obs (snd (msgsnd api d ty m w)) = obs w) \<and> (\<forall>d n w. obs (snd (msgrcv api d n w)) = obs w)"

lemma sysv_frameD:
  assumes "sysv_frame_law lc api obs"
  shows "alloc lc n s = (b, s') \<Longrightarrow> obs (world s') = obs (world s)"
    and "error_set lc e m s = Ret (e', s') \<Longrightarrow> obs (world s') = obs (world s)"
    and "syscall (fopen api p md) s = (x1, s') \<Longrightarrow> obs (world s') = obs (world s)"
    and "syscall (fread_int api fp) s = (x2, s') \<Longrightarrow> obs (world s') = obs (world s)"
    and "syscall (fclose api fp) s = (x3, s') \<Longrightarrow> obs (world s') = obs (world s)"
    and "syscall (msgget api k fl) s = (x4, s') \<Longrightarrow> obs (world s') = obs (world s)"
    and "syscall (msg_stat api d) s = (x5, s') \<Longrightarrow> obs (world s') = obs (world s)"
    and "syscall (msg_rmid api d) s = (x6, s') \<Longrightarrow> obs (world s') = obs (world s)"
    and "syscall (unlink api p) s = (x7, s') \<Longrightarrow> obs (world s') = obs (world s)"
    and "syscall (msgsnd api d ty txt) s = (x8, s') \<Longrightarrow> obs (world s') = obs (world s)"
    and "syscall (fwrite_int api fp k2) s = (x9, s') \<Longrightarrow> obs (world s') = obs (world s)"
    and "syscall (fflush api fp) s = (x10, s') \<Longrightarrow> obs (world s') = obs (world s)"
proof -
  have al: "obs (world s') = obs (world s)" if "alloc lc n s = (b, s')" for n s b s'
    using that assms unfolding sysv_frame_law_def alloc_def by (auto split: prod.splits) (metis snd_conv)
  show "alloc lc n s = (b, s') \<Longrightarrow> obs (world s') = obs (world s)" by (rule al)
  show "error_set lc e m s = Ret (e', s') \<Longrightarrow> obs (world s') = obs (world s)"
    by (auto simp: error_set_def split: option.splits prod.splits bool.splits dest: al)
qed (erule syscall_frame_law [where obs = obs, rotated], use assms in \<open>simp add: sysv_frame_law_def\<close>)+

lemma sysv_frame_fclose: "sysv_frame_law lc api obs \<Longrightarrow> obs (world (snd (syscall (fclose api fp) s))) = obs (world s)"
  using sysv_frameD(5) [of lc api obs fp s] by (metis prod.collapse)

lemma systemv_other_file_frame:
  assumes "sysv_frame_law lc api obs" and "systemv_other_file lc api name e s = Ret (f, e', s')"
  shows "obs (world s') = obs (world s)"
proof -
  note frame = sysv_frameD [OF assms(1)]
  have copy: "obs (world s2) = obs (world s1)" if "systemv_copy_name lc api name e1 s1 = Ret (p, e2, s2)" for e1 s1 p e2 s2
    using that by (auto simp: systemv_copy_name_def set_error_defs elim!: andthenE split: if_splits dest!: frame(2))
  show ?thesis using assms(2)
    by (auto simp: systemv_other_file_def Let_def set_error_defs sysv_frame_fclose [OF assms(1)] elim!: andthenE
        split: option.splits prod.splits sysret.splits if_splits dest!: copy frame(2-4))
qed

lemma systemv_alloc_buffer_frame:
  assumes "sysv_frame_law lc api obs" and "systemv_alloc_buffer lc api q e s = Ret (ok, q', e', s')"
  shows "obs (world s') = obs (world s)"
  using assms(2) by (auto simp: systemv_alloc_buffer_def Let_def set_error_defs elim!: andthenE
      split: prod.splits sysret.splits bool.splits if_splits dest!: sysv_frameD(1,2,7) [OF assms(1)])

lemma systemv_open_sender_frame:
  assumes "sysv_frame_law lc api obs" and "systemv_queue_open lc api q name QUEUE_FL_SENDER e s = Ret (ok, q', e', s')"
  shows "obs (world s') = obs (world s)"
proof -
  note frame = sysv_frameD [OF assms(1)]
  have get: "obs (world s2) = obs (world s1)"
    if "systemv_open_msgget lc api q1 QUEUE_FL_SENDER key fn e1 s1 = Ret (ok1, q2, e2, s2)" for q1 key fn e1 s1 ok1 q2 e2 s2
    using that by (auto simp: systemv_open_msgget_def set_error_defs elim!: andthenE
        split: prod.splits sysret.splits option.splits dest!: frame(2,6) systemv_alloc_buffer_frame [OF assms(1)])
  show ?thesis using assms(2)
    by (auto simp: systemv_queue_open_def set_error_defs elim!: andthenE split: option.splits prod.splits
        dest!: systemv_other_file_frame [OF assms(1)] get frame(2))
qed

lemma systemv_close_frame:
  assumes "sysv_frame_law lc api obs" and "systemv_queue_close lc api q e s = Ret (ok, p, e', s')"
  shows "obs (world s') = obs (world s)"
  using assms(2) by (auto simp: systemv_queue_close_def set_error_defs elim!: andthenE
      split: option.splits prod.splits sysret.splits if_splits dest!: sysv_frameD(2,8,9) [OF assms(1)])

lemma cli_main_systemv_frame:
  assumes "sysv_frame_law lc api obs" and "cli_main (systemv_ops lc api) argv s = Ret (status, out, s')"
  shows "obs (world s') = obs (world s)"
proof -
  note frame = sysv_frameD [OF assms(1)]
  have init: "obs (world s2) = obs (world s1)" if "systemv_queue_init lc api e1 s1 = Ret (p, e2, s2)" for e1 s1 p e2 s2
    using that by (auto simp: systemv_queue_init_def set_error_defs elim!: andthenE split: prod.splits bool.splits dest!: frame(1,2))
  have send: "obs (world s2) = obs (world s1)" if "systemv_queue_send lc api q m k e1 s1 = Ret (ok, q', e2, s2)" for q m k e1 s1 ok q' e2 s2
    using that by (auto simp: systemv_queue_send_def Let_def set_error_defs elim!: andthenE
        split: option.splits prod.splits sysret.splits if_splits dest!: frame(2,10))
  have body: "obs (world s2) = obs (world s)" if "cli_body (systemv_ops lc api) argv s = Ret (st, p, o2, e2, s2)" for st p o2 e2 s2
    using that by (auto simp: cli_body_def log_msg_def elim!: andthenE split: option.splits if_splits
        dest!: init systemv_open_sender_frame [OF assms(1)] send)
  show ?thesis using assms(2)
    by (auto simp: cli_main_def log_msg_def elim!: andthenE split: option.splits dest!: body systemv_close_frame [OF assms(1)])
qed

section \<open>The client\<close>

text \<open>The client appends a block of \<open>buffer_size\<close> bytes whose text is the message.\<close>

lemma cli_delivers_systemv:
  assumes sys: "sv_system lc api key obs" and al: "allocates lc" and name: "NUL \<notin> set name" "length name < maxpathlen api"
    and old: "sv_files (obs (world s)) name = Some (ino, Some ident)" "sv_keys (obs (world s)) (key ino ident) = Some d"
      "sv_msgs (obs (world s)) d = Some (qbytes, raw)" "unat qbytes + 8 < 2 ^ 64"
    and msg: "NUL \<notin> set msg" "length msg < unat (qbytes div 8)"
      "sum_list (map (length \<circ> snd) raw) + unat (qbytes div 8) \<le> unat qbytes"
  shows "\<exists>w n m streams. cli_main (systemv_ops lc api) [prog, name, msg] s = Ret (EXIT_SUCCESS, [''OK''], s\<lparr>errno := n, world := w\<rparr>) \<and>
    obs w = (obs (world s))\<lparr>sv_streams := streams, sv_msgs := (sv_msgs (obs (world s)))(d \<mapsto> (qbytes, raw @ [(1, m)]))\<rparr> \<and>
    NUL \<in> set m \<and> message_text m = msg \<and> length m = unat (qbytes div 8)"
proof -
  let ?q = "\<lparr>qid = - 1, sv_buffer = None, sv_filename = None, sv_buffer_size = 0\<rparr>"
  obtain w1 where a: "alloc lc (sizeof_systemv_queue api) s = (True, s\<lparr>world := w1\<rparr>)" using allocatesD [OF al] by blast
  have "world (snd (alloc lc (sizeof_systemv_queue api) s)) = snd (malloc lc (sizeof_systemv_queue api) (world s))"
    by (simp add: alloc_def split: prod.splits)
  then have o1: "obs w1 = obs (world s)" using a sv_laws(6) [OF sys] by (simp add: sv_heap_law_def)
  obtain q' w2 n st where op: "systemv_queue_open lc api ?q name QUEUE_FL_SENDER (Some None) (s\<lparr>world := w1\<rparr>) =
      Ret (True, q', Some None, s\<lparr>errno := n, world := w2\<rparr>)" "sv_opened obs w2 d q'" "sv_filename q' = None"
      "obs w2 = (obs (world s))\<lparr>sv_streams := st\<rparr>"
    using systemv_open_sender [OF sys al name, of "s\<lparr>world := w1\<rparr>" ino ident d qbytes raw ?q "Some None"] old o1 by auto
  then obtain b where b: "sv_buffer q' = Some b" "qid q' = d" "sv_buffer_wf q'" "sv_buffer_size q' = qbytes div 8"
    "length (mtext b) = 8 * unat (qbytes div 8)"
    using old(3) by (auto simp: sv_opened_def sv_buffer_wf_def split: option.splits)
  let ?m = "take (unat (qbytes div 8)) (msg @ NUL # drop (Suc (length msg)) (mtext b))"
  have m: "?m = msg @ NUL # take (unat (qbytes div 8) - Suc (length msg)) (drop (Suc (length msg)) (mtext b))"
    using msg(2) by (simp add: take_Cons')
  have "length msg < length (mtext b)" using msg(2) b(5) by simp
  then obtain q2 w3 where send: "systemv_queue_send lc api q' msg (- 1) (Some None) (s\<lparr>errno := n, world := w2\<rparr>) =
      Ret (True, q2, Some None, s\<lparr>errno := n, world := w3\<rparr>)"
    "obs w3 = (obs w2)\<lparr>sv_msgs := (sv_msgs (obs w2))(d \<mapsto> (qbytes, raw @ [(1, ?m)]))\<rparr>"
    using systemv_send_appends [OF sv_laws(5) [OF sys] b(1,3), of "s\<lparr>errno := n, world := w2\<rparr>" qbytes raw msg lc "- 1" "Some None"]
      b(2,4) op(4) old(3) msg(3) by auto
  have "sv_filename q2 = None" using send(1) op(3) by (auto simp: systemv_queue_send_def Let_def set_error_defs elim!: andthenE
      split: option.splits prod.splits sysret.splits if_splits)
  then have "cli_main (systemv_ops lc api) [prog, name, msg] s = Ret (EXIT_SUCCESS, [''OK''], s\<lparr>errno := n, world := w3\<rparr>)"
    using a op(1) send(1) by (simp add: cli_main_def cli_body_def systemv_queue_init_def systemv_queue_close_def)
  moreover have "message_text ?m = msg" "NUL \<in> set ?m" unfolding m using msg(1) by (auto simp: message_text_def takeWhile_tail)
  moreover have "length ?m = unat (qbytes div 8)" using b(5) msg(2) by simp
  ultimately show ?thesis using send(2) op(4)
    by (intro exI [of _ w3] exI [of _ n] exI [of _ ?m] exI [of _ st]) (simp del: take_append)
qed

section \<open>The channel\<close>

text \<open>Where the queue is: its file, its key and its capacity.  What a client sends is a block of an eighth of the capacity.\<close>

definition systemv_place ::
  "'w sysv_api \<Rightarrow> (nat \<Rightarrow> cint \<Rightarrow> int) \<Rightarrow> string \<Rightarrow> int \<Rightarrow> ulong \<Rightarrow>
   (string \<Rightarrow> (nat \<times> cint option) option) \<times> (int \<Rightarrow> int option) \<times> string option \<times> nat \<Rightarrow> bool" where
  "systemv_place api key name i qbytes fixed \<longleftrightarrow>
     NUL \<notin> set name \<and> length name < maxpathlen api \<and> unat qbytes + 8 < 2 ^ 64 \<and>
     (\<exists>ino ident. fst fixed name = Some (ino, Some ident) \<and> fst (snd fixed) (key ino ident) = Some i)"

definition systemv_pending :: "int \<Rightarrow> sv_state \<Rightarrow> char list list" where
  "systemv_pending i o2 = (case sv_msgs o2 i of None \<Rightarrow> [] | Some (qbytes, raw) \<Rightarrow> map snd raw)"

text \<open>The queue has room for eight blocks.\<close>

lemma room_for_block:
  assumes "list_all (\<lambda>m. NUL \<in> set m \<and> length m \<le> unat (qbytes div 8 :: ulong)) (map snd raw)" and "length raw < 8"
  shows "sum_list (map (length \<circ> snd) raw) + unat (qbytes div 8) \<le> unat qbytes"
proof -
  let ?b = "unat (qbytes div 8)"
  have "sum_list (map (length \<circ> snd) raw) \<le> length raw * ?b" using assms(1) by (induction raw) auto
  also have "\<dots> \<le> 7 * ?b" using assms(2) by simp
  finally have "sum_list (map (length \<circ> snd) raw) + ?b \<le> 8 * ?b" by simp
  also have "8 * ?b \<le> unat qbytes" by (simp add: unat_div)
  finally show ?thesis .
qed

interpretation systemv_traffic: client_channel "systemv_ops lc yapi"
  "sv_system lc yapi key obs \<and> allocates lc \<and> sysv_frame_law lc yapi tables \<and> systemv_place yapi key name i qbytes fixed"
  obs "systemv_waiting i qbytes (unat (qbytes div 8)) fixed" tables name 8 "unat (qbytes div 8)" "systemv_pending i"
  for lc yapi key obs tables name i qbytes fixed
proof (unfold_locales, goal_cases)
  case (1 s q k m ms b e)
  then show ?case using systemv_channel.receive_first [of yapi obs] sv_laws(5) by blast
next
  case (2 q b k e s n q' b' e' s')
  then have l: "sv_msg_law yapi obs \<and> (\<forall>d n w. tables (snd (msgrcv yapi d n w)) = tables w)"
    using sv_laws(5) [of lc yapi key obs] by (simp add: sysv_frame_law_def)
  show ?case by (rule systemv_server.receive_tables [OF l 2(2,3)])
next
  case (3 o2 q k ms)
  then show ?case by (auto simp: systemv_waiting_def systemv_pending_def)
next
  case (4 p q k ms msg)
  then have sys: "sv_system lc yapi key obs" and al: "allocates lc" and frame: "sysv_frame_law lc yapi tables"
    and pl: "systemv_place yapi key name i qbytes fixed" by simp_all
  obtain b raw where w: "qid q = i" "fixed = (sv_files (obs (world p)), sv_keys (obs (world p)), sv_filename q, k)" "unat (qbytes div 8) \<le> k"
    "sv_buffer q = Some b" "unat (qbytes div 8) \<le> length (mtext b)" "sv_msgs (obs (world p)) i = Some (qbytes, raw)" "map snd raw = ms"
    "list_all (\<lambda>m. NUL \<in> set m \<and> length m \<le> unat (qbytes div 8)) ms"
    using 4(2) by (auto simp: systemv_waiting_def)
  obtain ino ident where f: "sv_files (obs (world p)) name = Some (ino, Some ident)" "sv_keys (obs (world p)) (key ino ident) = Some i"
    and nm: "NUL \<notin> set name" "length name < maxpathlen yapi" "unat qbytes + 8 < 2 ^ 64" using pl w(2) by (auto simp: systemv_place_def)
  have room: "sum_list (map (length \<circ> snd) raw) + unat (qbytes div 8) \<le> unat qbytes"
    by (rule room_for_block) (use w(7,8) 4(3) in auto)
  obtain w' n m streams where cli: "cli_main (systemv_ops lc yapi) [''banip-cli'', name, msg] p = Ret (EXIT_SUCCESS, [''OK''], p\<lparr>errno := n, world := w'\<rparr>)"
    "obs w' = (obs (world p))\<lparr>sv_streams := streams, sv_msgs := (sv_msgs (obs (world p)))(i \<mapsto> (qbytes, raw @ [(1, m)]))\<rparr>"
    "NUL \<in> set m" "message_text m = msg" "length m = unat (qbytes div 8)"
    using cli_delivers_systemv [OF sys al nm(1,2) f w(6) nm(3) 4(5,4) room, of "''banip-cli''"] by blast
  moreover have "tables w' = tables (world p)" using cli_main_systemv_frame [OF frame cli(1)] by simp
  ultimately show ?case using w
    by (intro exI [of _ "p\<lparr>errno := n, world := w'\<rparr>"] exI [of _ m]) (auto simp: systemv_waiting_def)
qed

section \<open>A sample system\<close>

text \<open>A host with System V queues and tables: the calls act on their half of the pair.\<close>

type_synonym sysv_pair = "sample_system \<times> sample_host"

definition pair_sysv_api :: "sysv_pair sysv_api" where
  "pair_sysv_api =
     \<lparr>maxpathlen = 16, char_signed = True, sizeof_systemv_queue = 32,
      stack_bytes = (\<lambda>w. stack_bytes sample_sysv_api (fst w)), stack_int = (\<lambda>w. 7), heap_bytes = (\<lambda>w. heap_bytes sample_sysv_api (fst w)),
      ipc_creat = 512, ipc_excl = 1024, fopen = (\<lambda>p m. on_first (fopen sample_sysv_api p m)),
      fwrite_int = (\<lambda>fp i. on_first (fwrite_int sample_sysv_api fp i)), fread_int = (\<lambda>fp. on_first (fread_int sample_sysv_api fp)),
      fflush = (\<lambda>fp. on_first (fflush sample_sysv_api fp)), fclose = (\<lambda>fp. on_first (fclose sample_sysv_api fp)),
      ftok = (\<lambda>p i w. ftok sample_sysv_api p i (fst w)), msgget = (\<lambda>k fl. on_first (msgget sample_sysv_api k fl)),
      msg_stat = (\<lambda>d. on_first (msg_stat sample_sysv_api d)), msg_rmid = (\<lambda>d. on_first (msg_rmid sample_sysv_api d)),
      msgrcv = (\<lambda>d n. on_first (msgrcv sample_sysv_api d n)), msgsnd = (\<lambda>d ty m. on_first (msgsnd sample_sysv_api d ty m)),
      unlink = (\<lambda>p. on_first (unlink sample_sysv_api p))\<rparr>"

definition sysv_pf_api :: "sysv_pair pf_api" where
  "sysv_pf_api =
     \<lparr>pf_open_dev = (\<lambda>dev. on_second (pf_open_dev sample_pf_api dev)), pf_close_fd = (\<lambda>fd. on_second (pf_close_fd sample_pf_api fd)),
      DIOCRADDADDRS = (\<lambda>fd io. on_second (\<lambda>w. (Ok (), snd (DIOCRADDADDRS sample_pf_api fd io w)))),
      DIOCKILLSTATES = (\<lambda>fd psk. on_second (DIOCKILLSTATES sample_pf_api fd psk))\<rparr>"

lemma sysv_pair_system: "sv_system sample_libc pair_sysv_api sample_key (ss_obs \<circ> fst)"
proof -
  note defs = pair_sysv_api_def sample_sysv_api_def on_first_def
  have "sv_create_law pair_sysv_api (ss_obs \<circ> fst)"
    by (auto simp: sv_create_law_def defs ss_fopen_def ss_fwrite_def Let_def ss_obs_def)
  moreover have "sv_read_law pair_sysv_api (ss_obs \<circ> fst)"
    by (auto simp: sv_read_law_def defs ss_fopen_def ss_fread_def Let_def ss_obs_def)
  moreover have "sv_close_law pair_sysv_api (ss_obs \<circ> fst)"
    by (auto simp: sv_close_law_def defs ss_obs_def)
  moreover have "sv_queue_law pair_sysv_api sample_key (ss_obs \<circ> fst)"
    using ss_msgs_add
    by (auto simp: sv_queue_law_def defs ss_msgget_def)
      (auto simp: ss_obs_def ss_msgs_def intro!: exI [of _ "2048 :: ulong"])
  moreover have "sv_msg_law pair_sysv_api (ss_obs \<circ> fst)"
    using ss_msgs_update
    by (auto simp: sv_msg_law_def defs ss_msgsnd_def ss_msgrcv_def ss_obs_def)
  moreover have "sv_heap_law sample_libc (ss_obs \<circ> fst)" by (simp add: sv_heap_law_def sample_libc_def)
  ultimately show ?thesis by (simp add: sv_system_def)
qed

lemma sysv_pair_frame: "sysv_frame_law sample_libc pair_sysv_api snd"
  by (auto simp: sysv_frame_law_def sample_libc_def pair_sysv_api_def on_first_def split: prod.splits)

lemma sysv_pair_pf: "pf_system sample_libc sample_netlib sysv_pf_api snd (ss_obs \<circ> fst)"
proof -
  have "pf_add_law sysv_pf_api snd"
    by (auto simp: pf_add_law_def sysv_pf_api_def on_second_def sample_pf_api_def)
  moreover have "pf_frame_law sample_libc sample_netlib sysv_pf_api snd" "pf_frame_law sample_libc sample_netlib sysv_pf_api (ss_obs \<circ> fst)"
    by (auto simp: pf_frame_law_def sysv_pf_api_def on_second_def sample_pf_api_def sample_netlib_def sample_libc_def split: option.splits)
  moreover have "fst (DIOCRADDADDRS sysv_pf_api fd io w) = Ok ()" "fst (snd (DIOCRADDADDRS sysv_pf_api fd io w)) = fst w" for fd io w
    by (simp_all add: sysv_pf_api_def on_second_def split: prod.splits)
  ultimately show ?thesis by (simp add: pf_system_def)
qed

text \<open>One message waits on a queue of 256 bytes.\<close>

definition sysv_world :: sysv_pair where
  "sysv_world =
     (\<lparr>ss_files = [''/tmp/banip'' \<mapsto> (5, Some 98)], ss_streams = (\<lambda>_. None), ss_keys = [sample_key 5 98 \<mapsto> 0],
       ss_table = [Some (256, [(1, ''192.0.2.77/24'' @ replicate 19 NUL)])], ss_next = 6\<rparr>, {})"

definition sysv_daemon :: "(systemv_queue, sysv_pair) daemon" where
  "sysv_daemon =
     (daemon_init (Some \<lparr>qid = 0, sv_buffer = Some \<lparr>mtype = 1, mtext = replicate 256 NUL\<rparr>, sv_filename = Some ''/tmp/banip'', sv_buffer_size = 32\<rparr>)
        (Some None) (Some (pf_engine sample_libc sample_netlib sysv_pf_api)))
       \<lparr>d_ctxt := Some (Fd_Ctxt 3), d_buffer := Some (replicate 257 NUL), max_message_size := 257, tablename := Some ''ban''\<rparr>"


section \<open>Properties\<close>

text \<open>C7: the system over System V queues.  The daemon serves the queue \<open>i\<close> behind the file \<open>name\<close>, and clients call the command line
  program with that name, at any time between two iterations, while fewer than eight messages wait; the daemon iterates while a message
  waits.  The messages are shorter than an eighth of the capacity of the queue, have no null character, and their prefix, if there is one, is a
  number that \<open>strtoul\<close> reads to its end, other than 0 and \<open>ULONG_MAX\<close> (\<open>event_allowed\<close>; messages such as \<open>x/y\<close> and \<open>x/0\<close> are
  excluded).  Then every run succeeds; the messages are handled in the order in which they were sent, and an address
  matches the table exactly when it did before or lies in the network of a message that was handled.\<close>

theorem systemv_interleaving:
  assumes "platform lc nl" and "pf_system lc nl api tables obs" and "sv_system lc yapi key obs" and "sysv_frame_law lc yapi tables"
    and "NUL \<notin> set t" and "systemv_place yapi key name i qbytes fixed"
    and "serves (pf_engine lc nl api) t obs (systemv_waiting i qbytes (unat (qbytes div 8)) fixed) ms (d, s)"
    and "allowed_events (event_allowed 8 (unat (qbytes div 8))) (spec_event nl) es (channel_abs (systemv_pending i) obs tables t (world s))"
  shows "\<exists>d' s' ms'. run_events (system_step (systemv_ops lc yapi) lc nl name p) es (d, s) = Ret (d', s') \<and>
    serves (pf_engine lc nl api) t obs (systemv_waiting i qbytes (unat (qbytes div 8)) fixed) ms' (d', s') \<and>
    map message_text ms' = drop (handled es) (map message_text ms @ sent es) \<and>
    (\<forall>f ip. length ip = af_length f \<longrightarrow>
      (pf_banned tables (world s') (take 31 t) f ip \<longleftrightarrow>
        pf_banned tables (world s) (take 31 t) f ip \<or>
        (\<exists>m \<in> set (take (handled es) (map message_text ms @ sent es)). (f, ip) \<in> spec_bans nl m)))"
proof -
  have "allocates lc" using assms(1) by (simp add: platform_def)
  then have "sv_system lc yapi key obs \<and> allocates lc \<and> sysv_frame_law lc yapi tables \<and> systemv_place yapi key name i qbytes fixed"
    using assms(3,4,6) by simp
  from systemv_traffic.traffic_runs [OF this assms(1,2,5,7,8)] show ?thesis by blast
qed

lemma sysv_serving:
  "serves (pf_engine sample_libc sample_netlib sysv_pf_api) ''ban'' (ss_obs \<circ> fst)
     (systemv_waiting 0 256 32 (ss_files (fst sysv_world), ss_keys (fst sysv_world), Some ''/tmp/banip'', 257))
     [''192.0.2.77/24'' @ replicate 19 NUL] (sysv_daemon, sample_proc sysv_world)"
proof -
  have "message_text (''192.0.2.77/24'' @ replicate 19 NUL) = ''192.0.2.77/24''" by (simp add: message_text_def)
  then have "clean_prefix (message_text (''192.0.2.77/24'' @ replicate 19 NUL))" using sample_clean by simp
  moreover have "loop_ready (pf_engine sample_libc sample_netlib sysv_pf_api) ''ban'' (Some (Fd_Ctxt 3)) sysv_daemon"
    by (simp add: loop_ready_def sysv_daemon_def daemon_init_def)
  moreover have "systemv_waiting 0 256 32 (ss_files (fst sysv_world), ss_keys (fst sysv_world), Some ''/tmp/banip'', 257)
      ((ss_obs \<circ> fst) (world (sample_proc sysv_world))) (the (d_queue sysv_daemon)) 257 [''192.0.2.77/24'' @ replicate 19 NUL]"
    by (simp add: systemv_waiting_def sysv_daemon_def daemon_init_def sample_proc_def sysv_world_def ss_msgs_def)
  ultimately show ?thesis unfolding serves_def prod.case
    by (auto simp: sysv_daemon_def daemon_init_def)
qed

theorem systemv_interleaving_witness:
  "\<exists>d' s' ms'. run_events (system_step (systemv_ops sample_libc pair_sysv_api) sample_libc sample_netlib ''/tmp/banip'' (sample_proc sysv_world))
      [Client ''10.1.2.3'', Iterate, Client ''10.9.9.9'', Iterate] (sysv_daemon, sample_proc sysv_world) = Ret (d', s') \<and>
    serves (pf_engine sample_libc sample_netlib sysv_pf_api) ''ban'' (ss_obs \<circ> fst)
      (systemv_waiting 0 256 32 (ss_files (fst sysv_world), ss_keys (fst sysv_world), Some ''/tmp/banip'', 257)) ms' (d', s') \<and>
    map message_text ms' = [''10.9.9.9''] \<and> pf_banned snd (world s') ''ban'' AF_INET [10, 1, 2, 3]"
proof -
  let ?es = "[Client ''10.1.2.3'', Iterate, Client ''10.9.9.9'', Iterate]" and ?s = "sample_proc sysv_world"
  let ?fx = "(ss_files (fst sysv_world), ss_keys (fst sysv_world), Some ''/tmp/banip'', 257)" and ?ms = "[''192.0.2.77/24'' @ replicate 19 NUL]"
  have blk: "unat ((256 :: ulong) div 8) = 32" by (simp add: unat_div)
  have place: "systemv_place pair_sysv_api sample_key ''/tmp/banip'' 0 256 ?fx"
    by (simp add: systemv_place_def sysv_world_def pair_sysv_api_def)
  have tx: "map message_text ?ms @ sent ?es = [''192.0.2.77/24'', ''10.1.2.3'', ''10.9.9.9'']" "handled ?es = 2"
    by (simp_all add: message_text_def)
  have "systemv_pending 0 ((ss_obs \<circ> fst) (world ?s)) = ?ms"
    by (simp add: systemv_pending_def sample_proc_def sysv_world_def ss_msgs_def)
  then have ok: "allowed_events (event_allowed 8 (unat ((256 :: ulong) div 8))) (spec_event sample_netlib) ?es
      (channel_abs (systemv_pending 0) (ss_obs \<circ> fst) snd ''ban'' (world ?s))"
    unfolding channel_abs_def blk by (simp add: clean_prefix_def)
  have "ban_of (sample_netlib :: sysv_pair netlib) ''10.1.2.3'' = Some (AF_INET, [10, 1, 2, 3], 32)"
    by (simp add: ban_of_def sample_netlib_def sample_inet_pton_def dotted_quad_def octet_def is_digit_def)
  then have ban: "(AF_INET, [10, 1, 2, 3]) \<in> spec_bans (sample_netlib :: sysv_pair netlib) ''10.1.2.3''"
    by (simp add: spec_bans_def same_network_def list_all_iff)
  have t: "NUL \<notin> set ''ban''" by simp
  note r = systemv_interleaving [OF sample_platform sysv_pair_pf sysv_pair_system sysv_pair_frame t place sysv_serving [folded blk] ok,
      where p = ?s, unfolded tx blk]
  then show ?thesis using ban by (fastforce simp: numeral_2_eq_2 af_length_def)
qed

end
