(* ===== verification/Systemv_Boot.thy ===== *)
theory Systemv_Boot
  imports Systemv_System Boot
begin

text \<open>
  The daemon over System V queues from its command line to its end: the start as an instance of \<open>startable_queue\<close>, a run of
  clients and iterations afterwards, and the cleanup that removes queue and file.
\<close>

section \<open>The start\<close>













section \<open>The end\<close>



section \<open>Properties\<close>





end
