(* ===== verification/Matchnet.thy ===== *)
theory Matchnet
  imports Netmask
begin

text \<open>
  The two functions of \<open>parse.c\<close> (lines 63 to 99) that tell whether an address lies in a network.  They
  are inside \<open>#if 0\<close>, and so are not part of the program; they are modelled as they would behave in it.
  A mask is built in words of 32 bits and compared word by word, for either byte order.
\<close>

section \<open>Definitions\<close>

text \<open>\<open>-1 - ((1U << (32 - mask)) - 1)\<close>; a shift by a negative number is undefined.\<close>

definition high_ones :: "int \<Rightarrow> u32 outcome" where
  "high_ones k = (if 0 \<le> 32 - k \<and> 32 - k < 32 then Ret (- 1 - (push_bit (nat (32 - k)) 1 - 1)) else Undef Bad_Shift)"

text \<open>The address is the last of the four words of an IPv6 address.\<close>

definition ip4_matchnet :: "bool \<Rightarrow> byte list \<Rightarrow> byte list \<Rightarrow> byte \<Rightarrow> int outcome" where
  "ip4_matchnet be ip net bits =
     (if bits = 0 then Ret 1
      else
        andthen (high_ones (uint bits)) (\<lambda>h.
        let m = htonl be h in
        andthen (peek (load_words be ip) 3) (\<lambda>x.
        andthen (peek (load_words be net) 0) (\<lambda>y.
        Ret (if x AND m = y AND m then 1 else 0)))))"

text \<open>\<^verbatim>\<open>for (i = 0; i < mask / 32; ++i) maskv6.s6_addr32[i] = -1;\<close>\<close>

function mask6_full :: "nat \<Rightarrow> nat \<Rightarrow> u32 list \<Rightarrow> u32 list outcome" where
  "mask6_full i n m = (if i < n then andthen (poke m i (- 1)) (mask6_full (Suc i) n) else Ret m)"
  by pat_completeness auto
termination
  by (relation "measure (\<lambda>(i, n, m). n - i)") auto

definition mask6_words :: "bool \<Rightarrow> nat \<Rightarrow> u32 list outcome" where
  "mask6_words be n =
     andthen (mask6_full 0 (n div 32) (replicate 4 0)) (\<lambda>m.
     if n mod 32 \<noteq> 0 then andthen (high_ones (int (n mod 32))) (\<lambda>h. poke m (n div 32) (htonl be h)) else Ret m)"

text \<open>\<^verbatim>\<open>for (i = 3; i >= 0; i--)\<close>, with \<open>i + 1\<close> for \<open>i\<close>\<close>

fun match6 :: "nat \<Rightarrow> u32 list \<Rightarrow> u32 list \<Rightarrow> u32 list \<Rightarrow> int outcome" where
  "match6 0 ip net m = Ret 1"
| "match6 (Suc i) ip net m =
     andthen (peek ip i) (\<lambda>x.
     andthen (peek m i) (\<lambda>k.
     andthen (peek net i) (\<lambda>y.
     if x AND k \<noteq> y AND k then Ret 0 else match6 i ip net m)))"

definition ip6_matchnet :: "bool \<Rightarrow> byte list \<Rightarrow> byte list \<Rightarrow> byte \<Rightarrow> int outcome" where
  "ip6_matchnet be ip net bits =
     andthen (mask6_words be (unat bits)) (\<lambda>m. match6 4 (load_words be ip) (load_words be net) m)"

declare mask6_full.simps [simp del]

section \<open>The masks\<close>

lemma high_ones_bits:
  assumes "0 < n" and "n \<le> 32"
  shows "\<exists>w. high_ones (int n) = Ret w \<and> (\<forall>k<32. bit w k \<longleftrightarrow> 32 - n \<le> k)"
proof -
  let ?w = "- 1 - (push_bit (32 - n) 1 - 1) :: u32"
  have "?w = NOT (Bit_Operations.mask (32 - n))" by (simp add: mask_eq_exp_minus_1 not_eq_complement push_bit_of_1)
  then have "bit ?w k \<longleftrightarrow> 32 - n \<le> k" if "k < 32" for k using that by (simp add: bit_not_iff bit_mask_iff not_less)
  moreover have "nat (32 - int n) = 32 - n" by simp
  ultimately show ?thesis using assms by (auto simp: high_ones_def)
qed

lemma mask6_full_eq:
  "i \<le> n \<Longrightarrow> n \<le> length m \<Longrightarrow> mask6_full i n m = Ret (take i m @ replicate (n - i) (- 1) @ drop n m)"
proof (induction i n m rule: mask6_full.induct)
  case (1 i n m)
  show ?case
  proof (cases "i < n")
    case True
    then have "mask6_full i n m = mask6_full (Suc i) n (m[i := - 1])" using 1(3) by (simp add: mask6_full.simps [of i n m] poke_def)
    also have "\<dots> = Ret (take (Suc i) (m[i := - 1]) @ replicate (n - Suc i) (- 1) @ drop n m)" using True 1 by simp
    also have "take (Suc i) (m[i := - 1]) = take i m @ [- 1]" using True 1(3) by (simp add: take_Suc_conv_app_nth)
    finally show ?thesis using True by (simp add: Suc_diff_Suc [symmetric])
  qed (use 1(2) in \<open>simp add: mask6_full.simps [of n n m]\<close>)
qed

lemma mask6_full_overrun: "i \<le> length m \<Longrightarrow> length m < n \<Longrightarrow> mask6_full i n m = Undef Out_Of_Bounds"
proof (induction i n m rule: mask6_full.induct)
  case (1 i n m)
  show ?case unfolding mask6_full.simps [of i n m] using 1 by (cases "i < length m") (simp_all add: poke_def)
qed

lemma mask6_words_ex:
  assumes "n \<le> 128"
  shows "\<exists>ws. mask6_words be n = Ret ws \<and> length ws = 4 \<and> (\<forall>p<128. bit_at (store_words be ws) p \<longleftrightarrow> p < n)"
proof -
  let ?j = "n div 32" and ?b = "n mod 32"
  define m :: "u32 list" where "m = replicate ?j 0xFFFFFFFF @ replicate (4 - ?j) 0"
  have j: "?j \<le> 4" using assms by simp
  have full: "mask6_full 0 ?j (replicate 4 0) = Ret m" using mask6_full_eq [of 0 ?j "replicate 4 0"] j by (simp add: m_def)
  have len: "length m = 4" using j by (simp add: m_def)
  have nth: "m ! q = (if q < ?j then 0xFFFFFFFF else 0)" if "q < 4" for q using that j by (auto simp: m_def nth_append)
  show ?thesis
  proof (cases "?b = 0")
    case True
    then have "mask6_words be n = Ret m" by (simp add: mask6_words_def full)
    with prefix_words_bits [OF len, of _ n be] nth True len show ?thesis by auto
  next
    case False
    with assms have "n \<noteq> 128" by auto
    then have j4: "?j < 4" using assms by simp
    obtain w where w: "high_ones (int ?b) = Ret w" "\<forall>k<32. bit w k \<longleftrightarrow> 32 - ?b \<le> k" using high_ones_bits [of ?b] False by auto
    then have r: "mask6_words be n = Ret (m[?j := htonl be w])" using False j4 len by (simp add: mask6_words_def full poke_def)
    have "bit_at (store_words be (m[?j := htonl be w])) p \<longleftrightarrow> p < n" if "p < 128" for p
      by (rule prefix_words_bits) (use that False len nth j4 w(2) in \<open>auto simp: nth_list_update\<close>)
    with r len show ?thesis by auto
  qed
qed

text \<open>The mask as bytes in memory keeps the contract of a network mask.\<close>

definition mask6_bytes :: "bool \<Rightarrow> nat \<Rightarrow> byte list outcome" where
  "mask6_bytes be n = andthen (mask6_words be n) (\<lambda>m. Ret (store_words be m))"

interpretation match6_mask: prefix_mask "mask6_bytes be" 16 for be
proof
  fix n assume "n \<le> 8 * (16 :: nat)"
  then show "\<exists>m. mask6_bytes be n = Ret m \<and> length m = 16 \<and> (\<forall>p<8 * 16. bit_at m p \<longleftrightarrow> p < n)"
    using mask6_words_ex [of n be] by (auto simp: mask6_bytes_def)
qed

definition mask4_bytes :: "bool \<Rightarrow> nat \<Rightarrow> byte list outcome" where
  "mask4_bytes be n =
     (if n = 0 then Ret (replicate 4 0) else andthen (high_ones (int n)) (\<lambda>h. Ret (bytes_of_word be (htonl be h))))"

interpretation match4_mask: prefix_mask "mask4_bytes be" 4 for be
proof
  fix n assume n: "n \<le> 8 * (4 :: nat)"
  show "\<exists>m. mask4_bytes be n = Ret m \<and> length m = 4 \<and> (\<forall>p<8 * 4. bit_at m p \<longleftrightarrow> p < n)"
  proof (cases "n = 0")
    case True
    then show ?thesis using bit_at_replicate(2) [of _ 4] by (simp add: mask4_bytes_def)
  next
    case False
    then obtain w where w: "high_ones (int n) = Ret w" "\<forall>k<32. bit w k \<longleftrightarrow> 32 - n \<le> k" using high_ones_bits [of n] n by auto
    have "bit_at (bytes_of_word True w) p \<longleftrightarrow> p < n" if "p < 32" for p using w(2) that n by (auto simp: bit_at_word_be)
    then show ?thesis using False w(1) by (simp add: mask4_bytes_def bytes_of_htonl)
  qed
qed

section \<open>The comparison\<close>

lemma bytes_of_word_inj: "bytes_of_word be v = bytes_of_word be w \<longleftrightarrow> v = w"
proof
  assume eq: "bytes_of_word be v = bytes_of_word be w"
  then have "bytes_of_word True v = bytes_of_word True w" by (cases be) (auto simp: bytes_of_word_def Let_def)
  then have p: "bit v (31 - p) = bit w (31 - p)" if "p < 32" for p using bit_at_word_be [OF that] by metis
  have "bit v k = bit w k" if "k < 32" for k using p [of "31 - k"] that by simp
  then show "v = w" by (intro bit_word_eqI) simp
qed simp

lemma store_words_inj: "length v = length w \<Longrightarrow> store_words be v = store_words be w \<longleftrightarrow> v = w"
  by (induction v w rule: list_induct2) (simp_all add: store_words_Cons bytes_of_word_inj store_words_def)

lemma match6_eq:
  assumes "length ip = length net" and "length m = length net" and "i \<le> length net"
  shows "match6 i ip net m = Ret (if take i (map2 (AND) ip m) = take i (map2 (AND) net m) then 1 else 0)"
  using assms(3)
proof (induction i)
  case (Suc i)
  then show ?case using assms(1,2) by (simp add: peek_def take_Suc_conv_app_nth)
qed simp

lemma ip6_matchnet_eq:
  assumes "length ip = 16" and "length net = 16" and n: "unat n \<le> 128"
  shows "ip6_matchnet be ip net n = Ret (if same_network (unat n) ip net then 1 else 0)"
proof -
  obtain m where m: "mask6_words be (unat n) = Ret m" "length m = 4" "mask6_bytes be (unat n) = Ret (store_words be m)"
    using mask6_words_ex [OF n, of be] by (auto simp: mask6_bytes_def)
  have len: "length (load_words be ip) = 4" "length (load_words be net) = 4" using assms by (simp_all add: length_load_words)
  have "map2 (AND) (load_words be ip) m = map2 (AND) (load_words be net) m \<longleftrightarrow>
      band_bytes ip (store_words be m) = band_bytes net (store_words be m)"
    using assms(1,2) len m(2) store_words_inj [of "map2 (AND) (load_words be ip) m" "map2 (AND) (load_words be net) m" be]
    by (simp add: store_words_map2_and store_load_words)
  also have "\<dots> \<longleftrightarrow> same_network (unat n) ip net" by (rule match6_mask.masked_eq_iff) (use n m(3) assms in simp_all)
  finally show ?thesis using m(1,2) len by (simp add: ip6_matchnet_def match6_eq)
qed

lemma mask6_words_overrun:
  assumes "128 < n"
  shows "mask6_words be n = Undef Out_Of_Bounds"
proof (cases "n div 32 \<le> 4")
  case True
  with assms have j: "n div 32 = 4" by linarith
  then have b: "n mod 32 = n - 128" using minus_mult_div_eq_mod [of n 32] by simp
  then have "0 < n mod 32" using assms by simp
  then obtain w where w: "high_ones (int (n mod 32)) = Ret w" using high_ones_bits [of "n mod 32"] mod_less_divisor [of 32 n] by fastforce
  have "mask6_full 0 4 (replicate 4 0) = Ret (replicate 4 (- 1))" using mask6_full_eq [of 0 4 "replicate 4 0"] by simp
  then show ?thesis unfolding mask6_words_def j using w assms b by (simp add: poke_def)
qed (simp add: mask6_words_def mask6_full_overrun)

lemma ip4_matchnet_eq:
  assumes "length ip = 16" and "length net = 4" and n: "unat n \<le> 32"
  shows "ip4_matchnet be ip net n = Ret (if same_network (unat n) (drop 12 ip) net then 1 else 0)"
proof (cases "n = 0")
  case True
  then show ?thesis by (simp add: ip4_matchnet_def same_network_def)
next
  case False
  then have n0: "0 < unat n" by (simp add: unat_gt_0)
  obtain w where w: "high_ones (int (unat n)) = Ret w" using high_ones_bits [OF n0 n] by blast
  then have m: "mask4_bytes be (unat n) = Ret (bytes_of_word be (htonl be w))" using n0 by (simp add: mask4_bytes_def)
  obtain x where x: "peek (load_words be ip) 3 = Ret x" "bytes_of_word be x = drop 12 ip"
    using assms(1) by (auto simp: numeral_eq_Suc length_Suc_conv peek_def)
  obtain y where y: "peek (load_words be net) 0 = Ret y" "bytes_of_word be y = net"
    using assms(2) by (auto simp: numeral_eq_Suc length_Suc_conv peek_def)
  have "x AND htonl be w = y AND htonl be w \<longleftrightarrow> band_bytes (drop 12 ip) (bytes_of_word be (htonl be w)) = band_bytes net (bytes_of_word be (htonl be w))"
    using bytes_of_word_inj [of be "x AND htonl be w" "y AND htonl be w"] x(2) y(2) by (simp add: bytes_of_word_and)
  also have "\<dots> \<longleftrightarrow> same_network (unat n) (drop 12 ip) net" by (rule match4_mask.masked_eq_iff) (use n m assms in simp_all)
  finally show ?thesis using False w x(1) y(1) by (simp add: ip4_matchnet_def Let_def)
qed

section \<open>Properties\<close>

text \<open>C22: the functions that match an address with a network.  On both byte orders \<open>ip6_matchnet\<close> tells whether two
  addresses lie in the same network, which is the case exactly when the masking block of \<open>parse_addr\<close>
  makes them equal; a prefix of more than 128 bits leaves its array.  \<open>ip4_matchnet\<close> does the same for the last four bytes of an address.\<close>

theorem matchnet_same_network:
  assumes "length ip = 16" and "length net = 16" and "length net4 = 4"
  shows "(unat n \<le> 128 \<longrightarrow> ip6_matchnet be ip net n = Ret (if same_network (unat n) ip net then 1 else 0) \<and>
      (ip6_matchnet be ip net n = Ret 1 \<longleftrightarrow> apply_netmask be (unat n) ip = apply_netmask be (unat n) net)) \<and>
    (128 < unat n \<longrightarrow> ip6_matchnet be ip net n = Undef Out_Of_Bounds) \<and>
    (unat n \<le> 32 \<longrightarrow> ip4_matchnet be ip net4 n = Ret (if same_network (unat n) (drop 12 ip) net4 then 1 else 0)) \<and>
    (32 < unat n \<longrightarrow> ip4_matchnet be ip net4 n = Undef Bad_Shift)"
proof (intro conjI impI)
  assume n: "unat n \<le> 128"
  show r: "ip6_matchnet be ip net n = Ret (if same_network (unat n) ip net then 1 else 0)" by (rule ip6_matchnet_eq [OF assms(1,2) n])
  show "ip6_matchnet be ip net n = Ret 1 \<longleftrightarrow> apply_netmask be (unat n) ip = apply_netmask be (unat n) net"
    unfolding r using apply_netmask_same_network [OF n assms(1,2)] by simp
next
  assume "unat n \<le> 32"
  then show "ip4_matchnet be ip net4 n = Ret (if same_network (unat n) (drop 12 ip) net4 then 1 else 0)" by (rule ip4_matchnet_eq [OF assms(1,3)])
next
  assume n: "32 < unat n"
  have "int (unat n) = uint n" by simp
  then have "32 < uint n" "n \<noteq> 0" using n by linarith (use n in auto)
  then show "ip4_matchnet be ip net4 n = Undef Bad_Shift" by (simp add: ip4_matchnet_def high_ones_def)
qed (simp add: ip6_matchnet_def mask6_words_overrun)

text \<open>The addresses of a private network.\<close>

theorem matchnet_same_network_witness:
  "ip4_matchnet False (replicate 12 0 @ [172, 20, 1, 2]) [172, 16, 0, 0] 12 = Ret 1 \<and>
   ip4_matchnet False (replicate 12 0 @ [172, 32, 1, 2]) [172, 16, 0, 0] 12 = Ret 0 \<and>
   ip6_matchnet True (replicate 16 7) (replicate 16 7) 200 = Undef Out_Of_Bounds"
proof -
  have net: "same_network 12 (drop 12 (replicate 12 0 @ [172, 20, 1, 2])) [172, 16, 0, 0]" "\<not> same_network 12 (drop 12 (replicate 12 0 @ [172, 32, 1, 2])) [172, 16, 0, 0]"
    by (simp_all add: same_network_def bit_at_def upt_rec bit_iff_odd)
  have small: "unat (12 :: byte) = 12" "unat (200 :: byte) = 200" by simp_all
  have len: "length (replicate 12 0 @ [172, 20, 1, 2 :: byte]) = 16" "length (replicate 12 0 @ [172, 32, 1, 2 :: byte]) = 16"
    "length (replicate 16 7 :: byte list) = 16" "length [172, 16, 0, 0 :: byte] = 4" by (simp_all only: length_append length_replicate) simp_all
  show ?thesis
  proof (intro conjI)
    show "ip4_matchnet False (replicate 12 0 @ [172, 20, 1, 2]) [172, 16, 0, 0] 12 = Ret 1"
      using matchnet_same_network [OF len(1,3,4), of 12 False] net(1) unfolding small by (simp only: if_True le_refl)
    show "ip4_matchnet False (replicate 12 0 @ [172, 32, 1, 2]) [172, 16, 0, 0] 12 = Ret 0"
      using matchnet_same_network [OF len(2,3,4), of 12 False] net(2) unfolding small by (simp only: if_False le_refl)
    show "ip6_matchnet True (replicate 16 7) (replicate 16 7) 200 = Undef Out_Of_Bounds"
      using matchnet_same_network [OF len(3,3,4), of 200 True] unfolding small by (simp only: le_refl)
  qed
qed

end
