(* ===== verification/Capsicum.thy ===== *)
theory Capsicum
  imports Engine
begin

text \<open>
  The wrappers of \<open>queues/capsicum.c\<close> around the capabilities of FreeBSD.  The whole file is inside
  \<open>#if 0\<close>, and the header replaces the calls by \<open>true\<close>, which is how the other theories treat them; here
  the functions are modelled as they would behave when the condition is removed.  The calls of the kernel and the
  functions on \<open>cap_rights_t\<close> are parameters.
\<close>

section \<open>Definitions\<close>

type_synonym u64 = "64 word"

record ('r, 'w) cap_api =
  cap_rights_init :: 'r
  cap_rights_set :: "'r \<Rightarrow> u64 \<Rightarrow> 'r"
  cap_rights_limit :: "int \<Rightarrow> 'r \<Rightarrow> 'w \<Rightarrow> unit sysret \<times> 'w"
  cap_ioctls_limit :: "int \<Rightarrow> u64 list \<Rightarrow> 'w \<Rightarrow> unit sysret \<times> 'w"
  cap_enter :: "'w \<Rightarrow> unit sysret \<times> 'w"
  ENOSYS :: nat

abbreviation MAX_IOCTL_COMMANDS :: nat where
  "MAX_IOCTL_COMMANDS \<equiv> 32"

text \<open>The loop of \<open>_cap_ioctls_limit\<close>: the argument is only read while there is room for it.\<close>

fun read_cmds :: "nat \<Rightarrow> u64 list \<Rightarrow> u64 list \<Rightarrow> (nat \<times> u64 list) outcome" where
  "read_cmds ncmds cmds [] = (if ncmds < length cmds then Undef No_More_Arguments else Ret (ncmds, cmds))"
| "read_cmds ncmds cmds (cmd # ap) =
     (if ncmds < length cmds \<and> cmd \<noteq> 0 then andthen (poke cmds ncmds cmd) (\<lambda>cmds. read_cmds (Suc ncmds) cmds ap)
      else Ret (ncmds, cmds))"

definition cap_ioctls_limit_fn ::
  "'w libc \<Rightarrow> ('r, 'w) cap_api \<Rightarrow> errp \<Rightarrow> int \<Rightarrow> u64 list \<Rightarrow> 'w proc \<Rightarrow> (bool \<times> errp \<times> 'w proc) outcome" where
  "cap_ioctls_limit_fn lc api error fd ap s =
     andthen (read_cmds 0 (replicate MAX_IOCTL_COMMANDS 0) ap) (\<lambda>(ncmds, cmds).
     if length cmds \<le> ncmds then
       andthen (set_generic_error lc error ''maximum of %zu allowed commands exceeded for fd %d'' [IArg (int (length cmds)), IArg fd] s)
         (\<lambda>(error, s). Ret (False, error, s))
     else
       (case syscall (cap_ioctls_limit api fd (take ncmds cmds)) s of
          (Err n, s) \<Rightarrow>
            andthen (set_system_error lc error ''cap_ioctls_limit failed to set limits on %d'' [IArg fd] s)
              (\<lambda>(error, s). Ret (False, error, s))
        | (Ok _, s) \<Rightarrow> Ret (True, error, s)))"

text \<open>The loop of \<open>_cap_rights_limit\<close>\<close>

fun read_rights :: "('r, 'w) cap_api \<Rightarrow> 'r \<Rightarrow> u64 list \<Rightarrow> 'r outcome" where
  "read_rights api rights [] = Undef No_More_Arguments"
| "read_rights api rights (cap # ap) = (if cap \<noteq> 0 then read_rights api (cap_rights_set api rights cap) ap else Ret rights)"

definition cap_rights_limit_fn ::
  "'w libc \<Rightarrow> ('r, 'w) cap_api \<Rightarrow> errp \<Rightarrow> int \<Rightarrow> u64 list \<Rightarrow> 'w proc \<Rightarrow> (bool \<times> errp \<times> 'w proc) outcome" where
  "cap_rights_limit_fn lc api error fd ap s =
     andthen (read_rights api (cap_rights_init api) ap) (\<lambda>rights.
     case syscall (cap_rights_limit api fd rights) s of
       (Err n, s) \<Rightarrow>
         if ENOSYS api \<noteq> errno s then
           andthen (set_system_error lc error ''cap_rights_limit failed to set rights on %d'' [IArg fd] s)
             (\<lambda>(error, s). Ret (False, error, s))
         else Ret (True, error, s)
     | (Ok _, s) \<Rightarrow> Ret (True, error, s))"

definition CAP_ENTER :: "'w libc \<Rightarrow> ('r, 'w) cap_api \<Rightarrow> errp \<Rightarrow> 'w proc \<Rightarrow> (bool \<times> errp \<times> 'w proc) outcome" where
  "CAP_ENTER lc api error s =
     (case syscall (cap_enter api) s of
        (Err n, s) \<Rightarrow>
          if ENOSYS api \<noteq> errno s then
            andthen (set_system_error lc error ''cap_enter failed'' [] s) (\<lambda>(error, s). Ret (False, error, s))
          else Ret (True, error, warnc lc ''kernel is compiled without \"options CAPABILITY_MODE\"'' [] s)
      | (Ok _, s) \<Rightarrow> Ret (True, error, s))"

text \<open>The macros add the zero that ends the arguments.\<close>

definition CAP_RIGHTS_LIMIT where
  "CAP_RIGHTS_LIMIT lc api error fd caps = cap_rights_limit_fn lc api error fd (caps @ [0])"

definition CAP_IOCTLS_LIMIT where
  "CAP_IOCTLS_LIMIT lc api error fd cmds = cap_ioctls_limit_fn lc api error fd (cmds @ [0])"

section \<open>The loops over the arguments\<close>

lemma read_rights_fold: "0 \<notin> set caps \<Longrightarrow> read_rights api r (caps @ 0 # ap) = Ret (foldl (cap_rights_set api) r caps)"
  by (induction caps arbitrary: r) auto

lemma read_cmds_all:
  assumes "0 \<notin> set args" and "n + length args < length cmds"
  shows "read_cmds n cmds (args @ 0 # ap) = Ret (n + length args, take n cmds @ args @ drop (n + length args) cmds)"
  using assms
proof (induction args arbitrary: n cmds)
  case (Cons a args)
  then have "read_cmds n cmds ((a # args) @ 0 # ap) = read_cmds (Suc n) (cmds[n := a]) (args @ 0 # ap)" by (simp add: poke_def)
  also have "\<dots> = Ret (Suc n + length args, take (Suc n) (cmds[n := a]) @ args @ drop (Suc n + length args) cmds)"
    using Cons by simp
  also have "take (Suc n) (cmds[n := a]) = take n cmds @ [a]" using Cons.prems by (simp add: take_Suc_conv_app_nth)
  finally show ?case by simp
qed simp

lemma read_cmds_full:
  assumes "0 \<notin> set args" and "n \<le> length cmds" and "length cmds \<le> n + length args"
  shows "\<exists>cmds'. read_cmds n cmds (args @ ap) = Ret (length cmds, cmds') \<and> length cmds' = length cmds"
  using assms
proof (induction args arbitrary: n cmds)
  case Nil
  then show ?case by (cases ap) simp_all
next
  case (Cons a args)
  show ?case
  proof (cases "n < length cmds")
    case True
    then show ?thesis using Cons.IH [of "Suc n" "cmds[n := a]"] Cons.prems by (simp add: poke_def)
  qed (use Cons.prems in simp)
qed

text \<open>The table is read exactly for the commands that were given, or the call fails before the kernel is asked.\<close>

lemma ioctls_limit_cases:
  assumes "0 \<notin> set cmds"
  shows "CAP_IOCTLS_LIMIT lc api error fd cmds s =
    (if length cmds < MAX_IOCTL_COMMANDS then
       case syscall (cap_ioctls_limit api fd cmds) s of
         (Err n, s) \<Rightarrow>
           andthen (set_system_error lc error ''cap_ioctls_limit failed to set limits on %d'' [IArg fd] s) (\<lambda>(error, s). Ret (False, error, s))
       | (Ok _, s) \<Rightarrow> Ret (True, error, s)
     else andthen (set_generic_error lc error ''maximum of %zu allowed commands exceeded for fd %d'' [IArg 32, IArg fd] s)
         (\<lambda>(error, s). Ret (False, error, s)))"
proof (cases "length cmds < MAX_IOCTL_COMMANDS")
  case True
  then have "read_cmds 0 (replicate MAX_IOCTL_COMMANDS 0) (cmds @ [0]) = Ret (length cmds, cmds @ replicate (MAX_IOCTL_COMMANDS - length cmds) 0)"
    using read_cmds_all [OF assms, of 0 "replicate MAX_IOCTL_COMMANDS 0" "[]"] by simp
  then show ?thesis using True by (simp add: CAP_IOCTLS_LIMIT_def cap_ioctls_limit_fn_def)
next
  case False
  then obtain cmds' where "read_cmds 0 (replicate MAX_IOCTL_COMMANDS 0) (cmds @ [0]) = Ret (MAX_IOCTL_COMMANDS, cmds')" "length cmds' = MAX_IOCTL_COMMANDS"
    using read_cmds_full [OF assms, of 0 "replicate MAX_IOCTL_COMMANDS 0" "[0]"] by auto
  then show ?thesis using False by (simp add: CAP_IOCTLS_LIMIT_def cap_ioctls_limit_fn_def)
qed

section \<open>Properties\<close>

text \<open>C31: the wrappers limit a descriptor to what was asked for.  \<open>CAP_RIGHTS_LIMIT\<close> succeeds without a message when the kernel has set exactly the
  given rights, and also when it has no capabilities; \<open>CAP_IOCTLS_LIMIT\<close> passes on exactly the given
  commands, and from 32 of them on refuses before it asks the kernel.  In every other case they store a message and fail; they never read
  past the zero that ends their arguments or outside their table.\<close>

theorem capsicum_limits:
  assumes "formats lc" and "allocates lc" and "0 \<notin> set caps" and "0 \<notin> set cmds"
    and "syscall (cap_rights_limit api fd (foldl (cap_rights_set api) (cap_rights_init api) caps)) s = (r, s1)"
    and "syscall (cap_ioctls_limit api fd cmds) s = (i, s2)"
  shows "(\<exists>e s3. CAP_RIGHTS_LIMIT lc api (Some None) fd caps s = Ret (e = None, Some e, s3) \<and>
      (e = None \<longleftrightarrow> r = Ok () \<or> errno s1 = ENOSYS api) \<and> (e = None \<longrightarrow> s3 = s1)) \<and>
    (\<exists>e s4. CAP_IOCTLS_LIMIT lc api (Some None) fd cmds s = Ret (e = None, Some e, s4) \<and>
      (e = None \<longleftrightarrow> length cmds < MAX_IOCTL_COMMANDS \<and> i = Ok ()) \<and> (e = None \<longrightarrow> s4 = s2))"
proof
  have first: "\<exists>s'. error_set lc (Some None) m s0 = Ret (Some (Some m), s')" for m s0 using error_set_first [OF assms(1,2)] by blast
  note sets = set_system_error_def set_errno_error_def set_generic_error_def
  show "\<exists>e s3. CAP_RIGHTS_LIMIT lc api (Some None) fd caps s = Ret (e = None, Some e, s3) \<and>
      (e = None \<longleftrightarrow> r = Ok () \<or> errno s1 = ENOSYS api) \<and> (e = None \<longrightarrow> s3 = s1)"
    using assms(5) first [of "(''cap_rights_limit failed to set rights on %d: %s'', [IArg fd, SArg (strerror lc (errno s1))])" s1]
    by (cases r) (auto simp: CAP_RIGHTS_LIMIT_def cap_rights_limit_fn_def read_rights_fold [OF assms(3)] sets)
  show "\<exists>e s4. CAP_IOCTLS_LIMIT lc api (Some None) fd cmds s = Ret (e = None, Some e, s4) \<and>
      (e = None \<longleftrightarrow> length cmds < MAX_IOCTL_COMMANDS \<and> i = Ok ()) \<and> (e = None \<longrightarrow> s4 = s2)"
    using assms(6) first [of "(''cap_ioctls_limit failed to set limits on %d: %s'', [IArg fd, SArg (strerror lc (errno s2))])" s2]
      first [of "(''maximum of %zu allowed commands exceeded for fd %d'', [IArg 32, IArg fd])" s]
    by (cases i) (auto simp: ioctls_limit_cases [OF assms(4)] sets)
qed

text \<open>A kernel that records the limits; it knows no capability mode.\<close>

definition sample_cap_api :: "(u64 list, (int \<times> u64 list) list) cap_api" where
  "sample_cap_api =
     \<lparr>cap_rights_init = [], cap_rights_set = (\<lambda>r c. r @ [c]), cap_rights_limit = (\<lambda>fd r w. (Ok (), w @ [(fd, r)])),
      cap_ioctls_limit = (\<lambda>fd c w. (Ok (), w @ [(fd, c)])), cap_enter = (\<lambda>w. (Err 78, w)), ENOSYS = 78\<rparr>"

theorem capsicum_limits_witness:
  "CAP_RIGHTS_LIMIT sample_libc sample_cap_api (Some None) 3 [1, 2] (sample_proc []) =
      Ret (True, Some None, (sample_proc [])\<lparr>world := [(3, [1, 2])]\<rparr>) \<and>
    (\<exists>m s. CAP_IOCTLS_LIMIT sample_libc sample_cap_api (Some None) 3 (replicate 32 5) (sample_proc []) = Ret (False, Some (Some m), s))"
proof -
  have "syscall (cap_rights_limit sample_cap_api 3 (foldl (cap_rights_set sample_cap_api) (cap_rights_init sample_cap_api) [1, 2])) (sample_proc []) =
      (Ok (), (sample_proc [])\<lparr>world := [(3, [1, 2])]\<rparr>)"
    "syscall (cap_ioctls_limit sample_cap_api 3 (replicate 32 5)) (sample_proc []) = (Ok (), (sample_proc [])\<lparr>world := [(3, replicate 32 5)]\<rparr>)"
    by (simp_all add: syscall_def sample_cap_api_def sample_proc_def)
  from capsicum_limits [OF sample_alloc_formats _ _ this] show ?thesis by auto
qed

text \<open>\<open>CAP_ENTER\<close>: without capability mode in the kernel the process goes on, with a warning.\<close>

lemma cap_enter_optional:
  assumes "syscall (cap_enter api) s = (r, s1)" and "r = Ok () \<or> errno s1 = ENOSYS api"
  shows "\<exists>msgs. CAP_ENTER lc api error s = Ret (True, error, s1\<lparr>stderr_log := stderr_log s1 @ msgs\<rparr>) \<and> (r = Ok () \<longleftrightarrow> msgs = [])"
  using assms by (cases r) (auto simp: CAP_ENTER_def warnc_def verr_def log_msg_def)

end
