(* ===== verification/Pftest.thy ===== *)
theory Pftest
  imports Engines Cli
begin

text \<open>
  The test program for engines (\<open>pftest.c\<close>): it opens the engine that its argument names, or the default
  one, bans \<open>1.2.3.4\<close> in the table \<open>blacklist\<close> and closes the engine.  The shell scripts under \<open>tests\<close>
  run it and look for the address in the table afterwards.
\<close>

section \<open>Definitions\<close>

definition TABLENAME :: string where "TABLENAME = ''blacklist''"

text \<open>The \<open>_verr\<close> of this program has the text of the client's.\<close>

definition pftest_verr :: "'w libc \<Rightarrow> bool \<Rightarrow> nat \<Rightarrow> string option \<Rightarrow> carg list \<Rightarrow> 'w proc \<Rightarrow> nat option \<times> 'w proc" where
  "pftest_verr lc fatal errcode fmt args s =
     (let line = (case fmt of
                    Some f \<Rightarrow> if errcode \<noteq> 0 then (f @ '': '', args) else (f, args)
                  | None \<Rightarrow> ([], []));
          line = (if errcode \<noteq> 0 then (fst line @ ''%s'', snd line @ [SArg (strerror lc errcode)]) else line);
          s = log_msg line s in
      if fatal then (Some EXIT_FAILURE, s) else (None, s))"

definition pftest_engine ::
  "'w libc \<Rightarrow> 'w build \<Rightarrow> string list \<Rightarrow> errp \<Rightarrow> 'w proc \<Rightarrow> ('w engine option \<times> errp \<times> 'w proc) outcome" where
  "pftest_engine lc b argv error s =
     (if 1 < length argv then
        (case get_engine_by_name b (argv ! 1) of
           None \<Rightarrow>
             andthen (set_generic_error lc error (''unknown engine '' @ [CHR 0x27] @ ''%s'' @ [CHR 0x27]) [SArg (argv ! 1)] s)
               (\<lambda>(error, s). Ret (None, error, s))
         | Some eng \<Rightarrow> Ret (Some eng, error, s))
      else
        (case get_default_engine b of
           None \<Rightarrow>
             andthen (set_generic_error lc error ''no engine available for your system'' [] s)
               (\<lambda>(error, s). Ret (None, error, s))
         | Some eng \<Rightarrow> Ret (Some eng, error, s)))"

text \<open>Lines 57 to 68: open, parse, hand over; the result is the status and the context.\<close>

definition pftest_ban ::
  "'w libc \<Rightarrow> 'w netlib \<Rightarrow> 'w engine \<Rightarrow> errp \<Rightarrow> 'w proc \<Rightarrow> (nat \<times> ctxt option \<times> errp \<times> 'w proc) outcome" where
  "pftest_ban lc nl eng error s =
     andthen
       (case e_open eng of
          None \<Rightarrow> Ret (True, None, error, s)
        | Some f \<Rightarrow> andthen (f TABLENAME error s) (\<lambda>(c, error, s). Ret (c \<noteq> None, c, error, s)))
       (\<lambda>(opened, c, error, s).
        if \<not> opened then Ret (EXIT_FAILURE, c, error, s)
        else
          andthen (parse_addr lc nl ''1.2.3.4'' error s) (\<lambda>(ok, addr, error, s).
          if \<not> ok then Ret (EXIT_FAILURE, c, error, s)
          else
            andthen (e_handle eng c TABLENAME addr error s) (\<lambda>(ok, error, s).
            Ret (if ok then EXIT_SUCCESS else EXIT_FAILURE, c, error, s))))"

text \<open>Lines 70 to 83: print the message, close the engine, free the context.\<close>

definition pftest_finish ::
  "nat \<Rightarrow> 'w engine option \<Rightarrow> ctxt option \<Rightarrow> errp \<Rightarrow> 'w proc \<Rightarrow> (nat \<times> 'w proc) outcome" where
  "pftest_finish status eng c error s =
     andthen
       (case error of
          Some (Some m) \<Rightarrow> andthen (error_free error) (\<lambda>_. Ret (log_msg m s))
        | _ \<Rightarrow> Ret s)
       (\<lambda>s.
        case (c, eng) of
          (None, _) \<Rightarrow> Ret (status, s)
        | (Some c, None) \<Rightarrow> Undef Uninit_Read
        | (Some c, Some eng) \<Rightarrow>
            andthen (case e_close eng of None \<Rightarrow> Ret (c, s) | Some g \<Rightarrow> g c s) (\<lambda>(c, s).
            andthen (free_ctxt c) (\<lambda>_. Ret (status, s))))"

definition pftest_main ::
  "'w libc \<Rightarrow> 'w netlib \<Rightarrow> 'w build \<Rightarrow> string list \<Rightarrow> 'w proc \<Rightarrow> (nat \<times> 'w proc) outcome" where
  "pftest_main lc nl b argv s =
     andthen (pftest_engine lc b argv (Some None) s) (\<lambda>(eng, error, s).
     case eng of
       None \<Rightarrow> pftest_finish EXIT_FAILURE None None error s
     | Some e \<Rightarrow>
         andthen (pftest_ban lc nl e error s) (\<lambda>(status, c, error, s). pftest_finish status (Some e) c error s))"

section \<open>Lemmas\<close>

text \<open>Engines that warn (\<open>warnc\<close> in \<open>pf.c\<close> and \<open>npf.c\<close>) leave the same line whichever program they are linked into.\<close>

lemma verr_same_line:
  "cli_verr lc False n (Some fmt) args s = (None, verr lc n fmt args s)"
  "pftest_verr lc False n (Some fmt) args s = (None, verr lc n fmt args s)"
  by (simp_all add: cli_verr_def pftest_verr_def verr_def)

text \<open>A fatal call exits with failure, after exactly one line.\<close>

lemma verr_fatal:
  "\<exists>m. cli_verr lc True n fmt args s = (Some EXIT_FAILURE, log_msg m s) \<and> pftest_verr lc True n fmt args s = (Some EXIT_FAILURE, log_msg m s)"
  unfolding cli_verr_def pftest_verr_def Let_def if_True by blast

lemma pf_open_tables:
  assumes "pf_frame_law lc nl api tables" and "\<And>dev w. tables (snd (pf_open_dev api dev w)) = tables w"
    and "pf_open lc api t e s = Ret (Some c, e', s')"
  shows "tables (world s') = tables (world s)"
proof -
  obtain s1 where al: "alloc lc 4 s = (True, s1)" using assms(3) by (auto simp: pf_open_def elim!: andthenE split: prod.splits bool.splits)
  then obtain fd where "syscall (pf_open_dev api ''/dev/pf'') s1 = (Ok fd, s')"
    using assms(3) by (auto simp: pf_open_def elim!: andthenE split: prod.splits sysret.splits)
  from syscall_frame_law [where obs = tables, OF assms(2) this] pf_frame_alloc [OF assms(1) al] show ?thesis by simp
qed

lemma pf_close_tables:
  assumes "\<And>fd w. tables (snd (pf_close_fd api fd w)) = tables w" and "pf_close lc api c s = Ret (c', s')"
  shows "tables (world s') = tables (world s)"
proof -
  have "tables (world s2) = tables (world s)" if "syscall (pf_close_fd api fd) s = (r, s2)" for fd r s2
    using syscall_frame_law [where obs = tables, OF assms(1) that] .
  then show ?thesis using assms(2)
    by (cases c) (auto simp: pf_close_def warnc_def verr_def log_msg_def split: if_splits prod.splits sysret.splits)
qed

lemma pftest_finish_tables:
  assumes "\<And>fd w. tables (snd (pf_close_fd api fd w)) = tables w"
    and "pftest_finish status (Some (pf_engine lc nl api)) c e s = Ret (status', s')"
  shows "tables (world s') = tables (world s)"
  using assms(2)
  by (auto simp: pftest_finish_def pf_engine_def log_msg_def elim!: andthenE split: option.splits dest!: pf_close_tables [OF assms(1)])

lemma same_network_all:
  assumes "length a = 4" and "length b = 4"
  shows "same_network 32 a b \<longleftrightarrow> a = b"
proof
  assume "same_network 32 a b"
  then have "bit_at a p = bit_at b p" if "p < 8 * length a" for p
    using that assms(1) by (simp add: same_network_def list_all_iff)
  then show "a = b" using bytes_eqI [of a b] assms by simp
qed (simp add: same_network_def list_all_iff)

section \<open>Properties\<close>

text \<open>C30: what the test of the packet filter relies on.  When the program exits with success on a system with the
  packet filter, exactly the address \<open>1.2.3.4\<close> matches the table \<open>blacklist\<close> in addition to what
  matched before.\<close>

theorem pftest_pf_bans:
  assumes "pf_add_law api tables" and "pf_frame_law lc nl api tables"
    and "\<And>dev w. tables (snd (pf_open_dev api dev w)) = tables w" and "\<And>fd w. tables (snd (pf_close_fd api fd w)) = tables w"
    and "inet_pton_sound nl" and "inet_pton nl AF_INET ''1.2.3.4'' = Some [1, 2, 3, 4]"
    and "pftest_main lc nl (bsd_build lc nl api) [prog] s = Ret (EXIT_SUCCESS, s')" and "length ip = 4"
  shows "pf_banned tables (world s') ''blacklist'' AF_INET ip \<longleftrightarrow> pf_banned tables (world s) ''blacklist'' AF_INET ip \<or> ip = [1, 2, 3, 4]"
proof -
  let ?a = "addr_of AF_INET ''1.2.3.4'' [1, 2, 3, 4] 32"
  have eng: "pftest_engine lc (bsd_build lc nl api) [prog] (Some None) s = Ret (Some (pf_engine lc nl api), Some None, s)"
    by (simp add: pftest_engine_def get_default_engine_def available_engines_def bsd_build_def map_filter_def)
  obtain c e1 s1 where ban: "pftest_ban lc nl (pf_engine lc nl api) (Some None) s = Ret (EXIT_SUCCESS, c, e1, s1)"
    and fin: "pftest_finish EXIT_SUCCESS (Some (pf_engine lc nl api)) c e1 s1 = Ret (EXIT_SUCCESS, s')"
    using assms(7) eng by (auto simp: pftest_main_def pftest_finish_def elim!: andthenE split: option.splits)
  obtain c2 e2 s2 where op: "pf_open lc api TABLENAME (Some None) s = Ret (Some c2, e2, s2)"
    using ban by (auto simp: pftest_ban_def pf_engine_def EXIT_SUCCESS_def EXIT_FAILURE_def elim!: andthenE split: if_splits)
  have p: "parse_addr lc nl ''1.2.3.4'' e s2 = Ret (True, ?a, e, s2)" for e
    by (rule parse_addr_host_v4 [OF assms(5,6)]) simp_all
  have h: "pf_handle lc nl api (Some c2) TABLENAME ?a e2 s2 = Ret (True, e1, s1)"
    using ban op p by (auto simp: pftest_ban_def pf_engine_def EXIT_SUCCESS_def EXIT_FAILURE_def elim!: andthenE split: if_splits)
  have wf: "addr_wf ?a" by (rule addr_of_wf) simp_all
  have nul: "NUL \<notin> set TABLENAME" by (simp add: TABLENAME_def)
  have t: "tables (world s2) = tables (world s)" "tables (world s') = tables (world s1)"
    using pf_open_tables [where tables = tables, OF assms(2,3) op] pftest_finish_tables [where tables = tables, OF assms(4) fin] by simp_all
  have n: "take (Suc (Suc (Suc (Suc 0)))) (network 32 ([1, 2, 3, 4] @ replicate 12 0)) = [1, 2, 3, 4 :: byte]"
    by (simp add: network_def lead_ones_def mask_eq_exp_minus_1 upt_rec)
  have "pf_banned tables (world s1) ''blacklist'' AF_INET ip \<longleftrightarrow>
      pf_banned tables (world s2) ''blacklist'' AF_INET ip \<or> same_network 32 [1, 2, 3, 4] ip"
    using pf_handle_network [OF assms(1,2) nul wf h, of ip "''blacklist''" AF_INET] assms(8) n
    by (simp add: TABLENAME_def addr_of_def unat_of_nat)
  then show ?thesis using t same_network_all [of "[1, 2, 3, 4]" ip] assms(8) by (auto simp: pf_banned_def)
qed


lemma sample_pftest_runs:
  "\<exists>s'. pftest_main sample_libc sample_netlib (bsd_build sample_libc sample_netlib sample_pf_api) [''pftest''] (sample_proc {}) =
     Ret (EXIT_SUCCESS, s')"
proof -
  let ?a = "addr_of AF_INET ''1.2.3.4'' [1, 2, 3, 4] 32"
  have pt: "inet_pton (sample_netlib :: (string \<times> pfr_addr) set netlib) AF_INET ''1.2.3.4'' = Some [1, 2, 3, 4]"
    by (simp add: sample_netlib_def sample_inet_pton_def dotted_quad_def octet_def is_digit_def)
  have p: "parse_addr sample_libc sample_netlib ''1.2.3.4'' e s = Ret (True, ?a, e, s)" for e and s :: "(string \<times> pfr_addr) set proc"
    by (rule parse_addr_host_v4 [OF sample_inet_pton_sound pt]) simp_all
  obtain name where name: "strlcpy (replicate PF_TABLE_NAME_SIZE NUL) (TABLENAME @ [NUL]) PF_TABLE_NAME_SIZE = Ret (length TABLENAME, name)"
    "c_str name = Ret (take (PF_TABLE_NAME_SIZE - 1) TABLENAME)" using pf_name [of TABLENAME] by (auto simp: TABLENAME_def)
  have host: "c_str (humanrepr ?a) = Ret ''1.2.3.4''" by (simp add: addr_of_def c_str_def)
  have gai: "getaddrinfo sample_netlib ''1.2.3.4'' False (w :: (string \<times> pfr_addr) set) =
      (Inr [\<lparr>ai_family = AF_INET, ai_addr = Some ([16, 2, 0, 0] @ [1, 2, 3, 4] @ replicate 8 0)\<rparr>], w)" for w
    by (simp add: sample_netlib_def dotted_quad_def octet_def is_digit_def)
  have mask: "pf_mask be (fa ?a) (unat (netmask ?a)) = Ret (replicate 16 0xFF)" for be
    by (simp add: addr_of_def pf_mask_def)
  have "\<exists>s'. pf_handle sample_libc sample_netlib sample_pf_api (Some (Fd_Ctxt 3)) TABLENAME ?a (Some None) (sample_proc {}) = Ret (True, Some None, s')"
    using name host gai mask by (simp add: pf_handle_def syscall_def sample_pf_api_def pf_kill_addr_def write_at_def)
  then obtain s' where h: "pf_handle sample_libc sample_netlib sample_pf_api (Some (Fd_Ctxt 3)) TABLENAME ?a (Some None) (sample_proc {}) = Ret (True, Some None, s')"
    by blast
  have "pf_open sample_libc sample_pf_api TABLENAME (Some None) (sample_proc {}) = Ret (Some (Fd_Ctxt 3), Some None, sample_proc {})"
    by (simp add: pf_open_def alloc_def sample_libc_def syscall_def sample_pf_api_def sample_proc_def)
  then have "pftest_ban sample_libc sample_netlib (pf_engine sample_libc sample_netlib sample_pf_api) (Some None) (sample_proc {}) =
      Ret (EXIT_SUCCESS, Some (Fd_Ctxt 3), Some None, s')"
    using p h by (simp add: pftest_ban_def pf_engine_def)
  then show ?thesis
    by (simp add: pftest_main_def pftest_engine_def get_default_engine_def available_engines_def bsd_build_def map_filter_def
        pftest_finish_def pf_engine_def pf_close_def sample_pf_api_def syscall_def free_ctxt_def)
qed

theorem pftest_pf_bans_witness:
  "\<exists>s'. pftest_main sample_libc sample_netlib (bsd_build sample_libc sample_netlib sample_pf_api) [''pftest''] (sample_proc {}) =
      Ret (EXIT_SUCCESS, s') \<and>
    pf_banned (\<lambda>w. w) (world s') ''blacklist'' AF_INET [1, 2, 3, 4] \<and> \<not> pf_banned (\<lambda>w. w) (world s') ''blacklist'' AF_INET [1, 2, 3, 5]"
proof -
  obtain s' where r: "pftest_main sample_libc sample_netlib (bsd_build sample_libc sample_netlib sample_pf_api) [''pftest''] (sample_proc {}) =
      Ret (EXIT_SUCCESS, s')" using sample_pftest_runs by blast
  have pt: "inet_pton (sample_netlib :: (string \<times> pfr_addr) set netlib) AF_INET ''1.2.3.4'' = Some [1, 2, 3, 4]"
    by (simp add: sample_netlib_def sample_inet_pton_def dotted_quad_def octet_def is_digit_def)
  have bans: "pf_banned (\<lambda>w. w) (world s') ''blacklist'' AF_INET ip \<longleftrightarrow>
      pf_banned (\<lambda>w. w) (world (sample_proc {})) ''blacklist'' AF_INET ip \<or> ip = [1, 2, 3, 4]" if "length ip = 4" for ip
    by (rule pftest_pf_bans [OF sample_pf_laws _ _ sample_inet_pton_sound pt r that]) (simp_all add: sample_pf_api_def)
  show ?thesis using r bans [of "[1, 2, 3, 4]"] bans [of "[1, 2, 3, 5]"] by (simp add: pf_banned_def sample_proc_def)
qed

text \<open>The test of \<open>ipset\<close> ends in undefined behaviour, whatever the commands return: the context that
  \<open>ipset_open\<close> returns is the number 1 converted to a pointer, and the program frees it.  (The daemon
  does the same in its \<open>cleanup\<close>.)\<close>

lemma pftest_ipset_invalid_free:
  assumes "formats lc" and "inet_pton_sound nl" and "inet_pton nl AF_INET ''1.2.3.4'' = Some [1, 2, 3, 4]"
  shows "pftest_main lc nl (linux_build lc sh True) [prog, ''ipset''] s = Undef Invalid_Free"
proof -
  let ?a = "addr_of AF_INET ''1.2.3.4'' [1, 2, 3, 4] 32"
  obtain w where op: "ipset_open lc sh TABLENAME (Some None) s = Ret (Some One_Ctxt, Some None, s\<lparr>world := w\<rparr>)"
    using ipset_open_one [OF assms(1), of TABLENAME sh s "Some None"] by (auto simp: TABLENAME_def)
  have p: "parse_addr lc nl ''1.2.3.4'' e s2 = Ret (True, ?a, e, s2)" for e s2
    by (rule parse_addr_host_v4 [OF assms(2,3)]) simp_all
  have host: "c_str (humanrepr ?a) = Ret ''1.2.3.4''" by (simp add: addr_of_def c_str_def)
  obtain r w2 where h: "ipset_handle lc sh (Some One_Ctxt) TABLENAME ?a (Some None) (s\<lparr>world := w\<rparr>) = Ret (r, Some None, s\<lparr>world := w2\<rparr>)"
    using ipset_handle_runs [OF assms(1) host, of TABLENAME sh "Some One_Ctxt" "Some None" "s\<lparr>world := w\<rparr>"]
    by (auto simp: TABLENAME_def split: prod.splits)
  have "pftest_engine lc (linux_build lc sh True) [prog, ''ipset''] (Some None) s = Ret (Some (ipset_engine lc sh), Some None, s)"
    by (simp add: pftest_engine_def get_engine_by_name_def available_engines_def linux_build_def map_filter_def)
  moreover have "pftest_ban lc nl (ipset_engine lc sh) (Some None) s =
      Ret (if r then EXIT_SUCCESS else EXIT_FAILURE, Some One_Ctxt, Some None, s\<lparr>world := w2\<rparr>)"
    using op p h by (simp add: pftest_ban_def ipset_engine_def)
  ultimately show ?thesis by (simp add: pftest_main_def pftest_finish_def ipset_engine_def free_ctxt_def)
qed

lemma pftest_ipset_invalid_free_witness:
  "pftest_main sample_libc sample_netlib (linux_build sample_libc sample_shell True) [''pftest'', ''ipset''] (sample_proc []) =
     Undef Invalid_Free"
  by (rule pftest_ipset_invalid_free [OF sample_alloc_formats(1) sample_inet_pton_sound])
    (simp add: sample_netlib_def sample_inet_pton_def dotted_quad_def octet_def is_digit_def)

end
