(* ===== verification/Varnish.thy ===== *)
theory Varnish
  imports Posix_Queue Systemv_Queue Engine
begin

text \<open>
  The client for Varnish (\<open>clients/varnish4/vmod_msgsend.c\<close>): an object of the configuration language that
  holds an open queue, with a method that sends a message.  The assertions of Varnish (\<open>AN\<close>, \<open>AZ\<close>,
  \<open>XXXAN\<close>, \<open>CHECK_OBJ_NOTNULL\<close>) end the process when they fail, which is \<open>Undef Assert_Failed\<close> here; what
  \<open>VSLb\<close> logs takes the place of the diagnostic stream.
\<close>

section \<open>Definitions\<close>

record 'q vmod_mqueue =
  vm_queue :: "'q option"
  vm_queue_name :: string

abbreviation SIZEOF_MQUEUE :: nat where
  "SIZEOF_MQUEUE \<equiv> 24"

text \<open>Log the message that an operation left with \<open>%s\<close> and free it; \<open>vsl\<close> says whether there is a log.\<close>

definition vsl_error :: "bool \<Rightarrow> string \<Rightarrow> carg list \<Rightarrow> errp \<Rightarrow> 'w proc \<Rightarrow> (errp \<times> 'w proc) outcome" where
  "vsl_error vsl fmt args error s =
     (if vsl then
        (case error of
           Some (Some m) \<Rightarrow> andthen (error_free error) (\<lambda>error. Ret (error, log_msg (fmt @ fst m, args @ snd m) s))
         | _ \<Rightarrow> Undef Bad_Format)
      else Ret (error, s))"

text \<open>
  \<open>vmod_mqueue__init\<close>: \<open>qp\<close> is the object that \<open>*qp\<close> points to before.  A queue that could not be initialised is
  passed on to \<open>queue_open\<close>, which dereferences it in both implementations.
\<close>

definition vmod_mqueue_init ::
  "('q, 'w) queue_ops \<Rightarrow> 'w libc \<Rightarrow> bool \<Rightarrow> 'q vmod_mqueue option \<Rightarrow> string \<Rightarrow> 'w proc \<Rightarrow> ('q vmod_mqueue option \<times> 'w proc) outcome" where
  "vmod_mqueue_init ops lc vsl qp queue_name s =
     (if qp \<noteq> None then Undef Assert_Failed
      else
        andthen (q_init ops (Some None) s) (\<lambda>(queue, error, s).
        andthen (if queue = None then vsl_error vsl (''Can'' @ [CHR 0x27] @ ''t init queue: '') [] error s else Ret (error, s)) (\<lambda>(error, s).
        case queue of
          None \<Rightarrow> Undef Null_Deref
        | Some q \<Rightarrow>
            andthen (q_open ops q queue_name QUEUE_FL_SENDER error s) (\<lambda>(ok, q, error, s).
            andthen
              (if \<not> ok then
                 andthen (vsl_error vsl (''Can'' @ [CHR 0x27] @ ''t open queue '' @ [CHR 0x27] @ ''%s'' @ [CHR 0x27] @ '': '') [SArg queue_name] error s)
                   (\<lambda>(error, s). andthen (q_close ops (Some q) None s) (\<lambda>(_, queue, _, s). Ret (queue, s)))
               else Ret (Some q, s))
              (\<lambda>(queue, s).
               if queue = None then Undef Assert_Failed
               else
                 (case alloc lc SIZEOF_MQUEUE s of
                    (False, s) \<Rightarrow> Undef Assert_Failed
                  | (True, s) \<Rightarrow> Ret (Some \<lparr>vm_queue = queue, vm_queue_name = queue_name\<rparr>, s)))))))"

definition vmod_mqueue_fini ::
  "('q, 'w) queue_ops \<Rightarrow> 'q vmod_mqueue option \<Rightarrow> 'w proc \<Rightarrow> ('q vmod_mqueue option \<times> 'w proc) outcome" where
  "vmod_mqueue_fini ops qp s =
     (case qp of
        None \<Rightarrow> Undef Assert_Failed
      | Some v \<Rightarrow> andthen (q_close ops (vm_queue v) None s) (\<lambda>(_, _, _, s). Ret (None, s)))"

text \<open>\<open>vmod_mqueue_sendmsg\<close>, called in a request, which has a log.\<close>

definition vmod_mqueue_sendmsg ::
  "('q, 'w) queue_ops \<Rightarrow> 'q vmod_mqueue option \<Rightarrow> string \<Rightarrow> 'w proc \<Rightarrow> ('q vmod_mqueue option \<times> 'w proc) outcome" where
  "vmod_mqueue_sendmsg ops qp message s =
     (case qp of
        None \<Rightarrow> Undef Assert_Failed
      | Some v \<Rightarrow>
          (case vm_queue v of
             None \<Rightarrow> Undef Null_Deref
           | Some q \<Rightarrow>
               andthen (q_send ops q message (- 1) (Some None) s) (\<lambda>(ok, q, error, s).
               andthen
                 (if \<not> ok then
                    vsl_error True (''Failed sending message '' @ [CHR 0x27] @ ''%s'' @ [CHR 0x27] @ '' on '' @ [CHR 0x27] @ ''%s'' @ [CHR 0x27] @ '': '')
                      [SArg message, SArg (vm_queue_name v)] error s
                  else Ret (error, s))
                 (\<lambda>(error, s). Ret (Some (v\<lparr>vm_queue := Some q\<rparr>), s)))))"

section \<open>Lemmas\<close>

text \<open>For any implementation of the contract, the methods that can fail log what went wrong: the message is
  there whenever it is printed.\<close>

context queue_backend
begin

lemma sendmsg_defined:
  assumes messages and "vm_queue v = Some q" and "q_send ops q message (- 1) (Some None) s = Ret (ok, q', e', s')"
  shows "\<exists>s2. vmod_mqueue_sendmsg ops (Some v) message s = Ret (Some (v\<lparr>vm_queue := Some q'\<rparr>), s2) \<and>
    (if ok then s2 = s' else \<exists>m. s2 = log_msg m s')"
proof (cases ok)
  case True
  then show ?thesis using assms by (simp add: vmod_mqueue_sendmsg_def)
next
  case False
  then obtain m where "e' = Some (Some m)" using send_fails [of q message "- 1" s q' e' s'] assms by auto
  then show ?thesis using False assms by (auto simp: vmod_mqueue_sendmsg_def vsl_error_def error_free_def)
qed

end


section \<open>Properties\<close>

text \<open>C28: the life of an object.  For an existing POSIX queue that is not full, initialising the object, sending a
  message that fits and destroying the object succeed; afterwards the message is the last one of the
  queue and no descriptor is left.\<close>

theorem vmod_lifecycle:
  assumes "mq_kernel lc api kq kd" and "allocates lc" and "formats lc" and "kq (world s) name = Some (a, ms)"
    and "length msg \<le> unat (mq_msgsize a)" and "length ms < unat (mq_maxmsg a)"
  shows "\<exists>v v' w1 w2 w3.
    vmod_mqueue_init (posix_ops lc api) lc vsl None name s = Ret (Some v, s\<lparr>world := w1\<rparr>) \<and>
    vmod_mqueue_sendmsg (posix_ops lc api) (Some v) msg (s\<lparr>world := w1\<rparr>) = Ret (Some v', s\<lparr>world := w2\<rparr>) \<and>
    vmod_mqueue_fini (posix_ops lc api) (Some v') (s\<lparr>world := w2\<rparr>) = Ret (None, s\<lparr>world := w3\<rparr>) \<and>
    kq w3 = (kq (world s))(name \<mapsto> (a, ms @ [msg])) \<and> kd w3 = kd (world s)"
proof -
  note laws = kernel_laws [OF assms(1)]
  let ?q = "\<lparr>mq = NOT_MQD_T, filename = None, attr = \<lparr>mq_maxmsg = 10, mq_msgsize = 1024\<rparr>\<rparr>"
  obtain w1 where al: "alloc lc (sizeof_posix_queue api) s = (True, s\<lparr>world := w1\<rparr>)" using allocatesD [OF assms(2)] by blast
  have k1: "kq w1 = kq (world s)" "kd w1 = kd (world s)" using heap_apartD [OF laws(6) al] by simp_all
  obtain d w2 where op: "posix_queue_open lc api ?q name QUEUE_FL_SENDER (Some None) (s\<lparr>world := w1\<rparr>) =
      Ret (True, ?q\<lparr>mq := d, attr := a\<rparr>, Some None, s\<lparr>world := w2\<rparr>)"
    and k2: "d \<noteq> NOT_MQD_T" "kd w1 d = None" "kq w2 = kq w1" "kd w2 = (kd w1)(d \<mapsto> name)"
    using posix_open_sender [OF laws(3,4), of "s\<lparr>world := w1\<rparr>" name a ms lc ?q "Some None"] k1 assms(4) by auto
  let ?q2 = "?q\<lparr>mq := d, attr := a\<rparr>"
  let ?v = "\<lparr>vm_queue = Some ?q2, vm_queue_name = name\<rparr>"
  obtain w3 where al2: "alloc lc SIZEOF_MQUEUE (s\<lparr>world := w2\<rparr>) = (True, s\<lparr>world := w3\<rparr>)"
    using allocatesD [OF assms(2), of SIZEOF_MQUEUE "s\<lparr>world := w2\<rparr>"] by auto
  have k3: "kq w3 = kq w2" "kd w3 = kd w2" using heap_apartD [OF laws(6) al2] by simp_all
  have init: "vmod_mqueue_init (posix_ops lc api) lc vsl None name s = Ret (Some ?v, s\<lparr>world := w3\<rparr>)"
    using al op al2 by (simp add: vmod_mqueue_init_def posix_queue_init_def)
  obtain w4 where send: "posix_queue_send lc api ?q2 msg (- 1) (Some None) (s\<lparr>world := w3\<rparr>) = Ret (True, ?q2, Some None, s\<lparr>world := w4\<rparr>)"
    and k4: "kq w4 = (kq w3)(name \<mapsto> (a, ms @ [msg]))" "kd w4 = kd w3"
    using posix_send_appends [OF laws(1), of "s\<lparr>world := w3\<rparr>" ?q2 name a ms msg lc "Some None"] k1 k2 k3 assms(4-6) by auto
  have sendmsg: "vmod_mqueue_sendmsg (posix_ops lc api) (Some ?v) msg (s\<lparr>world := w3\<rparr>) = Ret (Some ?v, s\<lparr>world := w4\<rparr>)"
    using posix.sendmsg_defined [OF assms(3), of ?v ?q2 api msg "s\<lparr>world := w3\<rparr>" True ?q2 "Some None" "s\<lparr>world := w4\<rparr>"] send by simp
  obtain w5 where close: "posix_queue_close lc api (Some ?q2) None (s\<lparr>world := w4\<rparr>) = Ret (True, None, None, s\<lparr>world := w5\<rparr>)"
    and k5: "kd w5 = (kd w4)(d := None)" "kq w5 = kq w4"
    using posix_close_opened [OF laws(5), of "s\<lparr>world := w4\<rparr>" ?q2 name _ lc None] k2 k3 k4 by auto
  have fini: "vmod_mqueue_fini (posix_ops lc api) (Some ?v) (s\<lparr>world := w4\<rparr>) = Ret (None, s\<lparr>world := w5\<rparr>)"
    using close by (simp add: vmod_mqueue_fini_def)
  have "kd w5 = kd (world s)" "kq w5 = (kq (world s))(name \<mapsto> (a, ms @ [msg]))" using k1 k2 k3 k4 k5 by (auto simp: fun_eq_iff)
  with init sendmsg fini show ?thesis by blast
qed

theorem vmod_lifecycle_witness:
  "\<exists>v v' w1 w2 w3.
    vmod_mqueue_init (posix_ops sample_libc sample_mq_api) sample_libc True None ''/banipd'' (sample_proc sample_open_kernel) =
      Ret (Some v, (sample_proc sample_open_kernel)\<lparr>world := w1\<rparr>) \<and>
    vmod_mqueue_sendmsg (posix_ops sample_libc sample_mq_api) (Some v) ''10.0.0.1'' ((sample_proc sample_open_kernel)\<lparr>world := w1\<rparr>) =
      Ret (Some v', (sample_proc sample_open_kernel)\<lparr>world := w2\<rparr>) \<and>
    vmod_mqueue_fini (posix_ops sample_libc sample_mq_api) (Some v') ((sample_proc sample_open_kernel)\<lparr>world := w2\<rparr>) =
      Ret (None, (sample_proc sample_open_kernel)\<lparr>world := w3\<rparr>) \<and>
    sk_queues w3 = (sk_queues (world (sample_proc sample_open_kernel)))(''/banipd'' \<mapsto> (\<lparr>mq_maxmsg = 10, mq_msgsize = 1024\<rparr>, [] @ [''10.0.0.1''])) \<and>
    sk_descr w3 = sk_descr (world (sample_proc sample_open_kernel))"
  by (rule vmod_lifecycle [OF sample_kernel_law])
    (simp_all add: sample_alloc_formats sample_proc_def sample_open_kernel_def)

text \<open>A queue that cannot be opened ends the process.  When \<open>mq_open\<close> fails, the object is not created: the
  queue is closed, its pointer is null, and the assertion behind it fails.\<close>

lemma vmod_open_failure_panics:
  assumes "formats lc" and "allocates lc"
    and "\<And>w. \<exists>n w'. mq_open api name (o_wronly api) 432 (umask s) \<lparr>mq_maxmsg = 10, mq_msgsize = 1024\<rparr> w = (Err n, w')"
  shows "vmod_mqueue_init (posix_ops lc api) lc vsl None name s = Undef Assert_Failed"
proof -
  let ?q = "\<lparr>mq = NOT_MQD_T, filename = None, attr = \<lparr>mq_maxmsg = 10, mq_msgsize = 1024\<rparr>\<rparr>"
  obtain w1 where al: "alloc lc (sizeof_posix_queue api) s = (True, s\<lparr>world := w1\<rparr>)" using allocatesD [OF assms(2)] by blast
  obtain n w2 where op: "mq_open api name (o_wronly api) 432 (umask s) \<lparr>mq_maxmsg = 10, mq_msgsize = 1024\<rparr> w1 = (Err n, w2)"
    using assms(3) by blast
  obtain m s3 where err: "set_system_error lc (Some None) ''mq_open(\"%s\", %u, 0660, %p) failed'' [SArg name, IArg (uint (o_wronly api)), PArg]
      (s\<lparr>world := w2, errno := n\<rparr>) = Ret (Some (Some m), s3)"
    using set_system_error_first [OF assms(1,2)] by blast
  then have "posix_queue_open lc api ?q name QUEUE_FL_SENDER (Some None) (s\<lparr>world := w1\<rparr>) =
      Ret (False, ?q, Some (Some m), s3)"
    using op by (simp add: posix_queue_open_def posix_queue_open_mq_def syscall_def Let_def)
  then show ?thesis using al
    by (simp add: vmod_mqueue_init_def posix_queue_init_def vsl_error_def error_free_def posix_queue_close_def posix_queue_unlink_def)
qed

lemma vmod_open_failure_panics_witness:
  "vmod_mqueue_init (posix_ops sample_libc (sample_mq_api\<lparr>mq_open := \<lambda>n fl mode um a w. (Err 2, w)\<rparr>)) sample_libc False None ''/none''
     (sample_proc sample_open_kernel) = Undef Assert_Failed"
  by (rule vmod_open_failure_panics [OF sample_alloc_formats]) simp

end
