(* ===== verification/Npf.thy ===== *)
theory Npf
  imports Engine
begin

text \<open>
  The engine for the packet filter of NetBSD (\<open>npf.c\<close>): \<open>npf_handle\<close> and \<open>npf_close\<close>.  \<open>npf_open\<close> is left out,
  because its text is not a C function: line 20 lacks a parenthesis, and line 27 calls a macro of two
  arguments with one.
\<close>

section \<open>Structures and device\<close>

text \<open>A table is designated by its name or, where names are not available, by its number.\<close>

datatype npf_table = Nct_Name string | Nct_Tid int

record npf_ioctl_table =
  nct_table :: npf_table
  ent_mask :: byte
  ent_alen :: nat
  ent_addr :: "byte list"    \<comment> \<open>16 bytes\<close>

text \<open>\<open>IOC_NPF_TABLE\<close> with the command \<open>NPF_CMD_TABLE_ADD\<close>.\<close>

record 'w npf_api =
  npf_allow_named_table :: bool
  npf_no_netmask :: byte
  IOC_NPF_TABLE :: "int \<Rightarrow> npf_ioctl_table \<Rightarrow> 'w \<Rightarrow> unit sysret \<times> 'w"
  npf_close_fd :: "int \<Rightarrow> 'w \<Rightarrow> unit sysret \<times> 'w"

section \<open>Operations\<close>

text \<open>\<open>atoi\<close>: white space, an optional sign, digits; the rest of the text is ignored, no digit gives 0, and a
  number that does not fit an \<open>int\<close> is undefined.\<close>

definition atoi :: "string \<Rightarrow> int outcome" where
  "atoi str =
     (let rest = dropWhile is_space str;
          neg = (rest \<noteq> [] \<and> hd rest = CHR ''-'');
          k = (if rest \<noteq> [] \<and> (hd rest = CHR ''-'' \<or> hd rest = CHR ''+'') then 1 else 0);
          v = int (dec_value 0 (takeWhile is_digit (drop k rest)));
          n = (if neg then - v else v)
      in if - (2 ^ 31) \<le> n \<and> n < 2 ^ 31 then Ret n else Undef Overflow)"

definition npf_handle ::
  "'w libc \<Rightarrow> 'w npf_api \<Rightarrow> ctxt option \<Rightarrow> string \<Rightarrow> addr_t \<Rightarrow> errp \<Rightarrow> 'w proc \<Rightarrow> (bool \<times> errp \<times> 'w proc) outcome" where
  "npf_handle lc api c tablename addr error s =
     (case c of
        Some (Fd_Ctxt fd) \<Rightarrow>
          andthen
            (if npf_allow_named_table api then Ret (Nct_Name tablename)
             else andthen (atoi tablename) (\<lambda>n. Ret (Nct_Tid n))) (\<lambda>table.
          if length (sa addr) < sa_size addr then Undef Out_Of_Bounds
          else
            andthen (write_at (replicate 16 0) 0 (take (sa_size addr) (sa addr))) (\<lambda>m.
            case syscall (IOC_NPF_TABLE api fd
                \<lparr>nct_table = table, ent_mask = npf_no_netmask api, ent_alen = sa_size addr, ent_addr = m\<rparr>) s of
              (Err n, s) \<Rightarrow>
                andthen (set_system_error lc error ''ioctl(IOC_NPF_TABLE) failed'' [] s)
                  (\<lambda>(error, s). Ret (False, error, s))
            | (Ok _, s) \<Rightarrow> Ret (True, error, s)))
      | _ \<Rightarrow> Undef Null_Deref)"

definition npf_close :: "'w libc \<Rightarrow> 'w npf_api \<Rightarrow> ctxt \<Rightarrow> 'w proc \<Rightarrow> (ctxt \<times> 'w proc) outcome" where
  "npf_close lc api c s =
     (case c of
        Fd_Ctxt fd \<Rightarrow>
          if fd \<noteq> - 1 then
            (case syscall (npf_close_fd api fd) s of
               (Err n, s) \<Rightarrow> Ret (Fd_Ctxt (- 1), warnc lc ''closing /dev/npf failed'' [] s)
             | (Ok _, s) \<Rightarrow> Ret (Fd_Ctxt (- 1), s))
          else Ret (c, s)
      | One_Ctxt \<Rightarrow> Undef Null_Deref)"

section \<open>The contract of an engine\<close>

text \<open>Linked with an \<open>open\<close> that keeps the contract, the two operations make an engine that keeps it.\<close>

definition npf_engine_with ::
  "(string \<Rightarrow> errp \<Rightarrow> 'w proc \<Rightarrow> (ctxt option \<times> errp \<times> 'w proc) outcome) option \<Rightarrow> 'w libc \<Rightarrow> 'w npf_api \<Rightarrow> 'w engine" where
  "npf_engine_with opn lc api =
     \<lparr>drop_privileges = True, engine_name = ''npf'', e_open = opn, e_handle = npf_handle lc api, e_close = Some (npf_close lc api)\<rparr>"

lemma npf_handle_reports:
  "npf_handle lc api c t a e s = Ret (ok, e', s') \<Longrightarrow> reports lc ok e e'"
  by (auto simp: npf_handle_def set_error_defs Let_def elim!: andthenE
      split: prod.splits option.splits ctxt.splits sysret.splits if_splits dest!: error_set_reports)

interpretation npf: engine_contract "npf_engine_with None lc api" "formats lc" for lc api
proof (unfold_locales, goal_cases)
  case (3 p t a s e' s')
  then show ?case using npf_handle_reports [of lc api p t a "Some None" s False] reports_False
    by (auto simp: npf_engine_with_def)
next
  case (4 p t a e s e' s')
  then show ?case using npf_handle_reports [of lc api p t a e s True] by (auto simp: npf_engine_with_def)
next
  case (5 g c s)
  then show ?case by (auto simp: npf_engine_with_def npf_close_def split: ctxt.splits sysret.splits prod.splits)
qed (simp_all add: npf_engine_with_def)

section \<open>The tables\<close>

text \<open>What \<open>npf(7)\<close> documents: an addition without netmask adds one address to the table.\<close>

type_synonym 'w npf_hosts = "'w \<Rightarrow> (npf_table \<times> byte list) set"

definition npf_add_law :: "'w npf_api \<Rightarrow> 'w npf_hosts \<Rightarrow> bool" where
  "npf_add_law api hosts \<longleftrightarrow>
     (\<forall>fd nct w w'. IOC_NPF_TABLE api fd nct w = (Ok (), w') \<and> ent_mask nct = npf_no_netmask api \<longrightarrow>
        hosts w' = insert (nct_table nct, take (ent_alen nct) (ent_addr nct)) (hosts w))"

lemma atoi_no_number:
  assumes "tablename \<noteq> []" and "\<not> is_space (hd tablename)" and "\<not> is_digit (hd tablename)" and "hd tablename \<notin> {CHR ''-'', CHR ''+''}"
  shows "atoi tablename = Ret 0"
  using assms by (cases tablename) (auto simp: atoi_def)

lemma take_network: "take (length bs) (network n (bs @ z)) = network n bs"
  by (rule nth_equalityI) (simp_all add: network_def nth_append)

lemma npf_handle_adds:
  assumes "npf_add_law api hosts" and "addr_wf addr" and "npf_handle lc api c tablename addr error s = Ret (True, error', s')"
  shows "\<exists>table. hosts (world s') = insert (table, take (sa_size addr) (sa addr)) (hosts (world s)) \<and>
    (if npf_allow_named_table api then table = Nct_Name tablename else (\<exists>n. atoi tablename = Ret n \<and> table = Nct_Tid n))"
proof -
  obtain fd where c: "c = Some (Fd_Ctxt fd)" using assms(3) by (auto simp: npf_handle_def split: option.splits ctxt.splits)
  have sz: "sa_size addr \<le> 16" "length (sa addr) = 16" using assms(2) by (auto simp: addr_wf_def)
  obtain table where t: "(if npf_allow_named_table api then Ret (Nct_Name tablename) else andthen (atoi tablename) (\<lambda>n. Ret (Nct_Tid n))) = Ret table"
    using assms(3) c by (auto simp: npf_handle_def elim!: andthenE)
  let ?m = "take (sa_size addr) (sa addr) @ replicate (16 - sa_size addr) 0"
  let ?nct = "\<lparr>nct_table = table, ent_mask = npf_no_netmask api, ent_alen = sa_size addr, ent_addr = ?m\<rparr>"
  have wr: "write_at (replicate 16 0) 0 (take (sa_size addr) (sa addr)) = Ret ?m" using sz by (simp add: write_at_def)
  obtain r w where io: "IOC_NPF_TABLE api fd ?nct (world s) = (r, w)" by (cases "IOC_NPF_TABLE api fd ?nct (world s)")
  have "r = Ok () \<and> world s' = w" using assms(3) c t wr io sz
    by (cases r) (auto simp: npf_handle_def syscall_def set_error_defs elim!: andthenE)
  then have "hosts (world s') = insert (table, take (sa_size addr) (sa addr)) (hosts (world s))"
    using assms(1) io sz unfolding npf_add_law_def by fastforce
  then show ?thesis using t by (auto elim!: andthenE split: if_splits)
qed

section \<open>Properties\<close>

text \<open>C37: what \<open>npf_handle\<close> bans.  A successful call adds one address without a netmask: for a network it is the
  network address, so that neither the host named in the message nor any other host of the network
  is banned.  Where tables have no names, every name that does not start like a number is the table
  with the number 0.\<close>

theorem npf_handle_bans_one_address:
  assumes "npf_add_law api hosts" and "inet_pton_sound nl" and "gai_numeric nl" and "allocates lc"
    and "NUL \<notin> set host" and "CHR ''/'' \<notin> set host" and "inet_pton nl f host = Some bs"
    and "0 < n" and "f = AF_INET \<and> n \<le> 32 \<or> f = AF_INET6 \<and> n \<le> 128"
    and "parse_addr lc nl (host @ CHR ''/'' # dec n) e s = Ret (ok, addr, e1, s1)"
    and "npf_handle lc api c tablename addr e1 s1 = Ret (True, e2, s2)"
    and "npf_allow_named_table api \<or> tablename \<noteq> [] \<and> \<not> is_space (hd tablename) \<and> \<not> is_digit (hd tablename) \<and> hd tablename \<notin> {CHR ''-'', CHR ''+''}"
  shows "hosts (world s2) =
    insert (if npf_allow_named_table api then Nct_Name tablename else Nct_Tid 0, network n bs) (hosts (world s1))"
proof -
  have addr: "addr = addr_of f host bs n" using parse_addr_cidr_eq [OF assms(2-9), of e s] assms(10) by auto
  have len: "f = AF_INET \<and> length bs = 4 \<and> n \<le> 32 \<or> f = AF_INET6 \<and> length bs = 16 \<and> n \<le> 128" "length host < HUMANREPR_SIZE"
    using assms(2,7,9) unfolding inet_pton_sound_def by fastforce+
  have wf: "addr_wf addr" unfolding addr using addr_of_wf(1) [OF assms(5) len(2,1)] .
  have net: "take (sa_size addr) (sa addr) = network n bs" by (simp add: addr addr_of_def take_network)
  obtain table where t: "hosts (world s2) = insert (table, network n bs) (hosts (world s1))"
    "if npf_allow_named_table api then table = Nct_Name tablename else (\<exists>n. atoi tablename = Ret n \<and> table = Nct_Tid n)"
    using npf_handle_adds [OF assms(1) wf assms(11)] net by auto
  show ?thesis
  proof (cases "npf_allow_named_table api")
    case True
    then show ?thesis using t by simp
  next
    case False
    then have "atoi tablename = Ret 0" using assms(12) atoi_no_number by blast
    then show ?thesis using t False by simp
  qed
qed

definition sample_npf_api :: "(npf_table \<times> byte list) set npf_api" where
  "sample_npf_api =
     \<lparr>npf_allow_named_table = False, npf_no_netmask = 0xFF,
      IOC_NPF_TABLE = (\<lambda>fd nct w. (Ok (), insert (nct_table nct, take (ent_alen nct) (ent_addr nct)) w)),
      npf_close_fd = (\<lambda>fd w. (Ok (), w))\<rparr>"

theorem npf_handle_bans_one_address_witness:
  "\<exists>addr s1 s2. parse_addr sample_libc sample_netlib (''192.0.2.77'' @ CHR ''/'' # dec 24) (Some None) (sample_proc {}) = Ret (True, addr, Some None, s1) \<and>
    npf_handle sample_libc sample_npf_api (Some (Fd_Ctxt 3)) ''blacklist'' addr (Some None) s1 = Ret (True, Some None, s2) \<and>
    world s2 = insert (Nct_Tid 0, [192, 0, 2, 0]) (world s1)"
proof -
  let ?a = "addr_of AF_INET ''192.0.2.77'' [192, 0, 2, 77] 24"
  have al: "allocates (sample_libc :: (npf_table \<times> byte list) set libc)" by (simp add: allocates_def sample_libc_def)
  have pt: "inet_pton (sample_netlib :: (npf_table \<times> byte list) set netlib) AF_INET ''192.0.2.77'' = Some [192, 0, 2, 77]"
    by (simp add: sample_netlib_def sample_inet_pton_def dotted_quad_def octet_def is_digit_def)
  obtain w where p: "parse_addr sample_libc sample_netlib (''192.0.2.77'' @ CHR ''/'' # dec 24) (Some None)
      (sample_proc ({} :: (npf_table \<times> byte list) set)) = Ret (True, ?a, Some None, (sample_proc {})\<lparr>world := w\<rparr>)"
    using parse_addr_cidr_eq [OF sample_laws al _ _ pt, of 24 "Some None" "sample_proc {}"] by auto
  let ?s1 = "(sample_proc ({} :: (npf_table \<times> byte list) set))\<lparr>world := w\<rparr>"
  have law: "npf_add_law sample_npf_api (\<lambda>w. w)" by (simp add: npf_add_law_def sample_npf_api_def)
  obtain s2 where h: "npf_handle sample_libc sample_npf_api (Some (Fd_Ctxt 3)) ''blacklist'' ?a (Some None) ?s1 = Ret (True, Some None, s2)"
    by (simp add: npf_handle_def sample_npf_api_def atoi_no_number is_space_def is_digit_def addr_of_def write_at_def syscall_def)
  have "network 24 [192, 0, 2, 77] = [192, 0, 2, 0 :: byte]"
    by (simp add: network_def lead_ones_def upt_rec mask_eq_exp_minus_1)
  then have "world s2 = insert (Nct_Tid 0, [192, 0, 2, 0]) (world ?s1)"
    using npf_handle_bans_one_address [OF law sample_laws al _ _ pt _ _ p h]
    by (simp add: sample_npf_api_def is_space_def is_digit_def)
  with p h show ?thesis by blast
qed

end
