(* ===== verification/Nftables.thy ===== *)
theory Nftables
  imports Engine
begin

text \<open>
  The engine for nftables (\<open>nftables.c\<close>): \<open>nftables_handle\<close> and \<open>nftables_close\<close>.  The objects of \<open>libnftnl\<close> and
  \<open>libmnl\<close> are numbers, and the calls of these libraries are the fields of \<open>nft_api\<close>.  \<open>nftables_open\<close> and
  the table of functions are left out, because they are not C: line 50 lacks a parenthesis, lines 57
  and 63 call a macro of two arguments with one, and the initialiser in line 149 lacks its first
  member, so that every value stands for the next one.
\<close>

section \<open>Structures and libraries\<close>

record nftables_data =
  portid :: u32
  nft_s :: "nat option"
  nft_nl :: "nat option"
  nft_e :: "nat option"

text \<open>
  \<open>mnl_socket_recvfrom\<close> gives the number of bytes received.  \<open>mnl_cb_run\<close> is called with the number of bytes, the
  sequence number and the port; it gives 1 to go on, 0 to stop, as on an acknowledgement, and -1 with
  \<open>errno\<close> on an error.  The buffer is part of the world.
\<close>

record 'w nft_api =
  nfproto_ipv4 :: u32
  nfproto_ipv6 :: u32
  nft_time :: "'w \<Rightarrow> u32 \<times> 'w"
  nft_set_elem_alloc :: "'w \<Rightarrow> nat option \<times> 'w"
  nft_set_attr_set_name :: "nat option \<Rightarrow> string \<Rightarrow> 'w \<Rightarrow> 'w"
  nft_set_elem_attr_set_key :: "nat option \<Rightarrow> byte list \<Rightarrow> 'w \<Rightarrow> 'w"
  nft_set_elem_add :: "nat option \<Rightarrow> nat option \<Rightarrow> 'w \<Rightarrow> 'w"
  nft_set_nlmsg_build_hdr :: "u32 \<Rightarrow> u32 \<Rightarrow> 'w \<Rightarrow> 'w"
  nft_set_elems_nlmsg_build_payload :: "nat option \<Rightarrow> 'w \<Rightarrow> 'w"
  mnl_socket_sendto :: "nat option \<Rightarrow> 'w \<Rightarrow> unit sysret \<times> 'w"
  mnl_socket_recvfrom :: "nat option \<Rightarrow> 'w \<Rightarrow> nat sysret \<times> 'w"
  mnl_cb_run :: "nat \<Rightarrow> u32 \<Rightarrow> u32 \<Rightarrow> 'w \<Rightarrow> int sysret \<times> 'w"
  nft_set_elem_free :: "nat \<Rightarrow> 'w \<Rightarrow> 'w"
  nft_set_free :: "nat \<Rightarrow> 'w \<Rightarrow> 'w"
  mnl_socket_close :: "nat \<Rightarrow> 'w \<Rightarrow> 'w"

section \<open>Operations\<close>

text \<open>
  Lines 114 to 127: the loop over the answers, from a value \<open>ret\<close> of \<open>mnl_socket_recvfrom\<close> on.  It ends when an
  answer stops it, when the call fails or when it gives 0; it may go on for ever, which is \<open>None\<close>.
\<close>

partial_function (option) nftables_answers ::
  "'w libc \<Rightarrow> 'w nft_api \<Rightarrow> nftables_data \<Rightarrow> u32 \<Rightarrow> nat sysret \<Rightarrow> errp \<Rightarrow> 'w proc \<Rightarrow> (bool \<times> errp \<times> 'w proc) outcome option" where
  "nftables_answers lc api data seq ret error s =
     (case ret of
        Err n \<Rightarrow>
          Some (andthen (set_system_error lc error ''mnl_socket_recvfrom failed'' [] s) (\<lambda>(error, s). Ret (False, error, s)))
      | Ok k \<Rightarrow>
          if k = 0 then Some (Ret (True, error, s))
          else
            (case syscall (mnl_cb_run api k seq (portid data)) s of
               (r, s) \<Rightarrow>
                 if (case r of Err n \<Rightarrow> True | Ok x \<Rightarrow> x \<le> 0) then
                   Some (andthen (set_system_error lc error ''mnl_cb_run failed'' [] s) (\<lambda>(error, s). Ret (False, error, s)))
                 else
                   (case syscall (mnl_socket_recvfrom api (nft_nl data)) s of
                      (ret, s) \<Rightarrow> nftables_answers lc api data seq ret error s)))"

text \<open>Lines 80 to 107: the message.  The key of the new element is the constant 3; the address is not used.\<close>

definition nftables_message ::
  "'w libc \<Rightarrow> 'w nft_api \<Rightarrow> nftables_data \<Rightarrow> string \<Rightarrow> addr_t \<Rightarrow> 'w \<Rightarrow> u32 \<times> 'w" where
  "nftables_message lc api data tablename addr w =
     (case nft_time api w of (seq, w) \<Rightarrow>
      case nft_set_elem_alloc api w of (e, w) \<Rightarrow>
      let family = (if fa addr = AF_INET then nfproto_ipv4 api else nfproto_ipv6 api);
          w = nft_set_attr_set_name api (nft_s data) tablename w;
          w = nft_set_elem_attr_set_key api e (bytes_of_word (big_endian lc) 3) w;
          w = nft_set_elem_add api (nft_s data) e w;
          w = nft_set_nlmsg_build_hdr api family seq w;
          w = nft_set_elems_nlmsg_build_payload api (nft_s data) w
      in (seq, w))"

definition nftables_handle ::
  "'w libc \<Rightarrow> 'w nft_api \<Rightarrow> nftables_data option \<Rightarrow> string \<Rightarrow> addr_t \<Rightarrow> errp \<Rightarrow> 'w proc \<Rightarrow> (bool \<times> errp \<times> 'w proc) outcome option" where
  "nftables_handle lc api c tablename addr error s =
     (case c of
        None \<Rightarrow> Some (Undef Null_Deref)
      | Some data \<Rightarrow>
          (case nftables_message lc api data tablename addr (world s) of (seq, w) \<Rightarrow>
           (case syscall (mnl_socket_sendto api (nft_nl data)) (s\<lparr>world := w\<rparr>) of
             (Err n, s) \<Rightarrow>
               Some (andthen (set_system_error lc error ''mnl_socket_sendto failed'' [] s) (\<lambda>(error, s). Ret (False, error, s)))
           | (Ok _, s) \<Rightarrow>
               (case syscall (mnl_socket_recvfrom api (nft_nl data)) s of
                  (ret, s) \<Rightarrow> nftables_answers lc api data seq ret error s))))"

definition nftables_close :: "'w nft_api \<Rightarrow> nftables_data option \<Rightarrow> 'w proc \<Rightarrow> (nftables_data option \<times> 'w proc) outcome" where
  "nftables_close api c s =
     (case c of
        None \<Rightarrow> Undef Null_Deref
      | Some data \<Rightarrow>
          let w = world s;
              w = (case nft_e data of None \<Rightarrow> w | Some e \<Rightarrow> nft_set_elem_free api e w);
              w = (case nft_s data of None \<Rightarrow> w | Some x \<Rightarrow> nft_set_free api x w);
              w = (case nft_nl data of None \<Rightarrow> w | Some nl \<Rightarrow> mnl_socket_close api nl w)
          in Ret (Some (data\<lparr>nft_e := None, nft_s := None, nft_nl := None\<rparr>), s\<lparr>world := w\<rparr>))"

section \<open>Lemmas\<close>

text \<open>The loop can only report success after an answer of no bytes.\<close>

lemma syscall_result: "syscall f s = (r, s') \<Longrightarrow> f (world s) = (r, world s')"
  by (auto simp: syscall_def split: prod.splits sysret.splits)

lemma reported_False: "andthen x (\<lambda>(error, s). Ret (False, error, s)) \<noteq> Ret (True, e', s')"
  by (cases x) auto

lemma nftables_answers_success:
  assumes "nftables_answers lc api data seq ret error s = Some r"
  shows "(\<forall>nl w k w'. mnl_socket_recvfrom api nl w = (Ok k, w') \<longrightarrow> 0 < k) \<longrightarrow> (\<forall>k. ret = Ok k \<longrightarrow> 0 < k) \<longrightarrow> r \<noteq> Ret (True, e', s')"
proof (rule nftables_answers.raw_induct [where P = "\<lambda>lc api data seq ret error s r.
    (\<forall>nl w k w'. mnl_socket_recvfrom api nl w = (Ok k, w') \<longrightarrow> 0 < k) \<longrightarrow> (\<forall>k. ret = Ok k \<longrightarrow> 0 < k) \<longrightarrow> r \<noteq> Ret (True, e', s')",
    OF _ assms], intro impI)
  fix f lc and api :: "'a nft_api" and data seq ret error s r
  assume IH: "\<And>lc api data seq ret error s r. f lc api data seq ret error s = Some r \<Longrightarrow>
      (\<forall>nl w k w'. mnl_socket_recvfrom api nl w = (Ok k, w') \<longrightarrow> 0 < k) \<longrightarrow> (\<forall>k. ret = Ok k \<longrightarrow> 0 < k) \<longrightarrow> r \<noteq> Ret (True, e', s')"
    and body: "(case ret of
        Err n \<Rightarrow> Some (andthen (set_system_error lc error ''mnl_socket_recvfrom failed'' [] s) (\<lambda>(error, s). Ret (False, error, s)))
      | Ok k \<Rightarrow>
          if k = 0 then Some (Ret (True, error, s))
          else
            (case syscall (mnl_cb_run api k seq (portid data)) s of
               (r, s) \<Rightarrow>
                 if (case r of Err n \<Rightarrow> True | Ok x \<Rightarrow> x \<le> 0) then
                   Some (andthen (set_system_error lc error ''mnl_cb_run failed'' [] s) (\<lambda>(error, s). Ret (False, error, s)))
                 else (case syscall (mnl_socket_recvfrom api (nft_nl data)) s of (ret, s) \<Rightarrow> f lc api data seq ret error s))) = Some r"
    and pos: "\<forall>nl w k w'. mnl_socket_recvfrom api nl w = (Ok k, w') \<longrightarrow> 0 < k" and ret: "\<forall>k. ret = Ok k \<longrightarrow> 0 < k"
  have next_pos: "\<forall>k. ret2 = Ok k \<longrightarrow> 0 < k" if "syscall (mnl_socket_recvfrom api (nft_nl data)) s1 = (ret2, s2)" for s1 ret2 s2
    using syscall_result [OF that] pos by auto
  show "r \<noteq> Ret (True, e', s')"
    using body ret
    by (auto split: sysret.splits prod.splits if_splits dest!: IH next_pos pos [rule_format] elim!: notE [OF reported_False])
qed

lemma nftables_handle_not_True:
  assumes "\<And>nl w k w'. mnl_socket_recvfrom api nl w = (Ok k, w') \<Longrightarrow> 0 < k"
  shows "nftables_handle lc api c tablename addr error s \<noteq> Some (Ret (True, error', s'))"
proof
  assume r: "nftables_handle lc api c tablename addr error s = Some (Ret (True, error', s'))"
  then obtain data seq s1 ret s2 where "syscall (mnl_socket_recvfrom api (nft_nl data)) s1 = (ret, s2)"
    and l: "nftables_answers lc api data seq ret error s2 = Some (Ret (True, error', s'))"
    by (auto simp: nftables_handle_def elim!: andthenE split: option.splits prod.splits sysret.splits)
  then have "\<forall>k. ret = Ok k \<longrightarrow> 0 < k" using assms syscall_result by fastforce
  then show False using nftables_answers_success [OF l, of error' s'] assms by blast
qed

lemma nftables_answers_terminates:
  assumes "\<And>nl w k w'. mnl_socket_recvfrom api nl w = (Ok k, w') \<Longrightarrow> pending w' < (pending w :: nat)"
    and "\<And>k q p w. pending (snd (mnl_cb_run api k q p w)) = pending w"
  shows "\<exists>r. nftables_answers lc api data seq ret error s = Some r"
proof (induction "pending (world s)" arbitrary: ret s rule: less_induct)
  case less
  show ?case
  proof (cases ret)
    case (Ok k)
    obtain r1 s1 where cb: "syscall (mnl_cb_run api k seq (portid data)) s = (r1, s1)" by fastforce
    obtain r2 s2 where rcv: "syscall (mnl_socket_recvfrom api (nft_nl data)) s1 = (r2, s2)" by fastforce
    have "pending (world s1) = pending (world s)" using syscall_frame_law [where obs = pending, OF assms(2) cb] .
    then have "\<exists>r. nftables_answers lc api data seq r2 error s2 = Some r"
    proof (cases r2)
      case (Ok k2)
      then have "pending (world s2) < pending (world s)" using assms(1) syscall_result [OF rcv] \<open>pending (world s1) = _\<close> by metis
      then show ?thesis by (rule less)
    qed (simp add: nftables_answers.simps [of lc api data seq "Err _"])
    then show ?thesis using Ok cb rcv by (simp add: nftables_answers.simps [of lc api data seq "Ok k"])
  qed (simp add: nftables_answers.simps [of lc api data seq "Err _"])
qed

section \<open>What the message holds\<close>

text \<open>The documented behaviour of the libraries, as changes of an abstract state that \<open>obs\<close> reads off the world: the keys of elements, the elements
  and the name of each set object, the message in the buffer and the sets of the kernel.  The kernel adds the
  elements of a message that are new, as the flag \<open>NLM_F_EXCL\<close> asks.\<close>

record nft_state =
  nft_keys :: "nat \<Rightarrow> byte list"
  nft_elems :: "nat \<Rightarrow> nat list"
  nft_names :: "nat \<Rightarrow> string"
  nft_payload :: "string \<times> byte list list"
  nft_kernel :: "string \<Rightarrow> byte list set"

definition nft_library :: "'w libc \<Rightarrow> 'w nft_api \<Rightarrow> ('w \<Rightarrow> nft_state) \<Rightarrow> bool" where
  "nft_library lc api obs \<longleftrightarrow>
     (\<forall>n w. obs (snd (malloc lc n w)) = obs w) \<and> (\<forall>w. obs (snd (nft_time api w)) = obs w) \<and>
     (\<forall>w. \<exists>e w'. nft_set_elem_alloc api w = (Some e, w') \<and> obs w' = obs w) \<and>
     (\<forall>x n w. obs (nft_set_attr_set_name api (Some x) n w) = (obs w)\<lparr>nft_names := (nft_names (obs w))(x := n)\<rparr>) \<and>
     (\<forall>e key w. obs (nft_set_elem_attr_set_key api (Some e) key w) = (obs w)\<lparr>nft_keys := (nft_keys (obs w))(e := key)\<rparr>) \<and>
     (\<forall>x e w. obs (nft_set_elem_add api (Some x) (Some e) w) = (obs w)\<lparr>nft_elems := (nft_elems (obs w))(x := nft_elems (obs w) x @ [e])\<rparr>) \<and>
     (\<forall>f q w. obs (nft_set_nlmsg_build_hdr api f q w) = obs w) \<and>
     (\<forall>x w. obs (nft_set_elems_nlmsg_build_payload api (Some x) w) =
        (obs w)\<lparr>nft_payload := (nft_names (obs w) x, map (nft_keys (obs w)) (nft_elems (obs w) x))\<rparr>)"

definition nft_acknowledges :: "'w nft_api \<Rightarrow> ('w \<Rightarrow> nft_state) \<Rightarrow> bool" where
  "nft_acknowledges api obs \<longleftrightarrow>
     (\<forall>nl w name keys. nft_payload (obs w) = (name, keys) \<and> distinct keys \<and> nft_kernel (obs w) name \<inter> set keys = {} \<longrightarrow>
        (\<exists>w'. mnl_socket_sendto api (Some nl) w = (Ok (), w') \<and>
          obs w' = (obs w)\<lparr>nft_kernel := (nft_kernel (obs w))(name := nft_kernel (obs w) name \<union> set keys)\<rparr>)) \<and>
     (\<forall>nl w. \<exists>k w'. mnl_socket_recvfrom api (Some nl) w = (Ok k, w') \<and> 0 < k \<and> obs w' = obs w) \<and>
     (\<forall>k q p w. \<exists>w'. mnl_cb_run api k q p w = (Ok 0, w') \<and> obs w' = obs w)"

lemma bytes_of_three: "bytes_of_word be 3 = (if be then [0, 0, 0, 3] else [3, 0, 0, 0])"
  by (simp add: bytes_of_word_def)

lemma nftables_message_payload:
  assumes "nft_library lc api obs" and "nft_s data = Some x" and "nft_elems (obs w) x = []" and "nftables_message lc api data tablename addr w = (seq, w')"
  shows "nft_payload (obs w') = (tablename, [bytes_of_word (big_endian lc) 3]) \<and> nft_kernel (obs w') = nft_kernel (obs w)"
proof -
  obtain q w1 where t: "nft_time api w = (q, w1)" by fastforce
  then have o1: "obs w1 = obs w" using assms(1) unfolding nft_library_def by (metis snd_conv)
  obtain e w2 where e: "nft_set_elem_alloc api w1 = (Some e, w2)" "obs w2 = obs w1" using assms(1) unfolding nft_library_def by blast
  show ?thesis using assms t o1 e by (auto simp: nftables_message_def nft_library_def)
qed

lemma error_set_frame:
  assumes "\<And>n w. obs (snd (malloc lc n w)) = obs w" and "error_set lc e m s = Ret (e', s')"
  shows "obs (world s') = obs (world s)"
proof -
  have al: "obs (world s2) = obs (world s1)" if "alloc lc n s1 = (b, s2)" for n s1 b s2
    using that assms(1) [of n "world s1"] by (auto simp: alloc_def split: prod.splits)
  show ?thesis using assms(2) by (auto simp: error_set_def split: option.splits prod.splits bool.splits dest: al)
qed

section \<open>Properties\<close>

text \<open>C36: \<open>nftables_handle\<close> returns, and never with success.  When finitely many answers wait on the socket, each
  receive that delivers takes one of them and none is empty, the loop over the answers ends; the result
  is an error or undefined, but never true.  In particular the acknowledgement of the kernel, for which
  \<open>mnl_cb_run\<close> gives 0, ends the loop as an error.\<close>

theorem nftables_handle_terminates:
  assumes "\<And>nl w k w'. mnl_socket_recvfrom api nl w = (Ok k, w') \<Longrightarrow> 0 < k \<and> pending w' < (pending w :: nat)"
    and "\<And>k q p w. pending (snd (mnl_cb_run api k q p w)) = pending w"
  shows "\<exists>r. nftables_handle lc api c tablename addr error s = Some r \<and> (\<forall>error' s'. r \<noteq> Ret (True, error', s'))"
proof -
  have "\<exists>r. nftables_handle lc api c tablename addr error s = Some r"
    using nftables_answers_terminates [where api = api and pending = pending] assms
    by (auto simp: nftables_handle_def split: option.splits prod.splits sysret.splits)
  then show ?thesis using nftables_handle_not_True assms(1) by metis
qed

text \<open>A socket with the given number of answers, each of which asks for the next one.\<close>

definition sample_dump_api :: "nat nft_api" where
  "sample_dump_api =
     \<lparr>nfproto_ipv4 = 2, nfproto_ipv6 = 10, nft_time = (\<lambda>w. (0, w)), nft_set_elem_alloc = (\<lambda>w. (Some 1, w)),
      nft_set_attr_set_name = (\<lambda>x n w. w), nft_set_elem_attr_set_key = (\<lambda>e key w. w), nft_set_elem_add = (\<lambda>x e w. w),
      nft_set_nlmsg_build_hdr = (\<lambda>f q w. w), nft_set_elems_nlmsg_build_payload = (\<lambda>x w. w),
      mnl_socket_sendto = (\<lambda>nl w. (Ok (), w)), mnl_socket_recvfrom = (\<lambda>nl w. if w = 0 then (Err 11, w) else (Ok 36, w - 1)),
      mnl_cb_run = (\<lambda>k q p w. (Ok 1, w)), nft_set_elem_free = (\<lambda>e w. w), nft_set_free = (\<lambda>x w. w), mnl_socket_close = (\<lambda>nl w. w)\<rparr>"

theorem nftables_handle_terminates_witness:
  "\<exists>r. nftables_handle sample_libc sample_dump_api (Some \<lparr>portid = 7, nft_s = Some 0, nft_nl = Some 2, nft_e = None\<rparr>) ''blacklist''
     (addr_of AF_INET ''10.1.2.3'' [10, 1, 2, 3] 32) (Some None) (sample_proc 5) = Some r \<and> (\<forall>error' s'. r \<noteq> Ret (True, error', s'))"
  by (rule nftables_handle_terminates [where pending = "\<lambda>w. w"]) (auto simp: sample_dump_api_def split: if_splits)

text \<open>C38: whatever address is to be banned, of either family, the element that gets into the set of the kernel is the constant 3, and the
  acknowledgement of the kernel is reported as the failure of \<open>mnl_cb_run\<close>.  The libraries build the message as they document, the kernel adds
  what the message has and acknowledges it, the set of the process has no element yet and that of the kernel does not have the element 3.
  Then the set \<open>tablename\<close> gets the four bytes of the number 3 in the order of the machine, no other set changes, and the call fails.\<close>

theorem nftables_handle_adds_constant:
  assumes "formats lc" and "allocates lc" and lib: "nft_library lc api obs" and ack: "nft_acknowledges api obs"
    and data: "nft_s data = Some x" "nft_nl data = Some nl" and new: "nft_elems (obs (world s)) x = []"
    and key: "key = (if big_endian lc then [0, 0, 0, 3] else [3, 0, 0, 0])" "key \<notin> nft_kernel (obs (world s)) tablename"
  shows "\<exists>m s'. nftables_handle lc api (Some data) tablename addr (Some None) s = Some (Ret (False, Some (Some m), s')) \<and>
    fst m = ''mnl_cb_run failed: %s'' \<and>
    nft_kernel (obs (world s')) = (nft_kernel (obs (world s)))(tablename := insert key (nft_kernel (obs (world s)) tablename))"
proof -
  obtain seq w where msg: "nftables_message lc api data tablename addr (world s) = (seq, w)" by fastforce
  have w: "nft_payload (obs w) = (tablename, [key])" "nft_kernel (obs w) = nft_kernel (obs (world s))"
    using nftables_message_payload [OF lib data(1) new msg] unfolding key by (simp_all add: bytes_of_three)
  have "nft_payload (obs w) = (tablename, [key]) \<and> distinct [key] \<and> nft_kernel (obs w) tablename \<inter> set [key] = {}" using w key(2) by simp
  then obtain w1 where w1: "mnl_socket_sendto api (Some nl) w = (Ok (), w1)"
    "obs w1 = (obs w)\<lparr>nft_kernel := (nft_kernel (obs w))(tablename := nft_kernel (obs w) tablename \<union> set [key])\<rparr>"
    using ack unfolding nft_acknowledges_def by blast
  obtain k w2 where w2: "mnl_socket_recvfrom api (Some nl) w1 = (Ok k, w2)" "0 < k" "obs w2 = obs w1" using ack unfolding nft_acknowledges_def by blast
  obtain w3 where w3: "mnl_cb_run api k seq (portid data) w2 = (Ok 0, w3)" "obs w3 = obs w2" using ack unfolding nft_acknowledges_def by blast
  let ?m = "(''mnl_cb_run failed'' @ '': %s'', [] @ [SArg (strerror lc (errno s))])"
  obtain w4 where err: "error_set lc (Some None) ?m (s\<lparr>world := w3\<rparr>) = Ret (Some (Some ?m), s\<lparr>world := w4\<rparr>)"
    using error_set_first [OF assms(1,2), of ?m "s\<lparr>world := w3\<rparr>"] by auto
  have "\<And>n w. obs (snd (malloc lc n w)) = obs w" using lib by (simp add: nft_library_def)
  from error_set_frame [where obs = obs, OF this err] have w4: "obs w4 = obs w3" by simp
  have "nftables_handle lc api (Some data) tablename addr (Some None) s = Some (Ret (False, Some (Some ?m), s\<lparr>world := w4\<rparr>))"
    using msg w1(1) w2(1,2) w3(1) err data(2)
    by (simp add: nftables_handle_def syscall_def nftables_answers.simps [of lc api data seq "Ok k"] set_error_defs)
  then show ?thesis using w(2) w1(2) w2(3) w3(2) w4 by (intro exI [of _ ?m] exI [of _ "s\<lparr>world := w4\<rparr>"]) simp
qed

text \<open>A sample host: the world is the number of elements so far and the abstract state.\<close>

definition on_nft :: "(nft_state \<Rightarrow> nft_state) \<Rightarrow> nat \<times> nft_state \<Rightarrow> nat \<times> nft_state" where
  "on_nft f w = (fst w, f (snd w))"

definition sample_nft_api :: "(nat \<times> nft_state) nft_api" where
  "sample_nft_api =
     \<lparr>nfproto_ipv4 = 2, nfproto_ipv6 = 10, nft_time = (\<lambda>w. (0, w)), nft_set_elem_alloc = (\<lambda>w. (Some (fst w), (Suc (fst w), snd w))),
      nft_set_attr_set_name = (\<lambda>x n. on_nft (\<lambda>o1. o1\<lparr>nft_names := (nft_names o1)(the x := n)\<rparr>)),
      nft_set_elem_attr_set_key = (\<lambda>e key. on_nft (\<lambda>o1. o1\<lparr>nft_keys := (nft_keys o1)(the e := key)\<rparr>)),
      nft_set_elem_add = (\<lambda>x e. on_nft (\<lambda>o1. o1\<lparr>nft_elems := (nft_elems o1)(the x := nft_elems o1 (the x) @ [the e])\<rparr>)),
      nft_set_nlmsg_build_hdr = (\<lambda>f q w. w),
      nft_set_elems_nlmsg_build_payload =
        (\<lambda>x. on_nft (\<lambda>o1. o1\<lparr>nft_payload := (nft_names o1 (the x), map (nft_keys o1) (nft_elems o1 (the x)))\<rparr>)),
      mnl_socket_sendto =
        (\<lambda>nl w. (Ok (), on_nft (\<lambda>o1. case nft_payload o1 of (name, keys) \<Rightarrow>
           o1\<lparr>nft_kernel := (nft_kernel o1)(name := nft_kernel o1 name \<union> set keys)\<rparr>) w)),
      mnl_socket_recvfrom = (\<lambda>nl w. (Ok 36, w)), mnl_cb_run = (\<lambda>k q p w. (Ok 0, w)),
      nft_set_elem_free = (\<lambda>e w. w), nft_set_free = (\<lambda>x w. w), mnl_socket_close = (\<lambda>nl w. w)\<rparr>"

definition sample_nft_state :: nft_state where
  "sample_nft_state = \<lparr>nft_keys = (\<lambda>_. []), nft_elems = (\<lambda>_. []), nft_names = (\<lambda>_. []), nft_payload = ([], []), nft_kernel = (\<lambda>_. {})\<rparr>"

lemma sample_nft_laws: "nft_library sample_libc sample_nft_api snd" "nft_acknowledges sample_nft_api snd"
  by (simp_all add: nft_library_def nft_acknowledges_def sample_nft_api_def on_nft_def sample_libc_def)

theorem nftables_handle_adds_constant_witness:
  "\<exists>m s'. nftables_handle sample_libc sample_nft_api (Some \<lparr>portid = 7, nft_s = Some 0, nft_nl = Some 2, nft_e = None\<rparr>) ''blacklist''
      (addr_of AF_INET ''10.1.2.3'' [10, 1, 2, 3] 32) (Some None) (sample_proc (1, sample_nft_state)) = Some (Ret (False, Some (Some m), s')) \<and>
    fst m = ''mnl_cb_run failed: %s'' \<and> nft_kernel (snd (world s')) ''blacklist'' = {[3, 0, 0, 0]}"
proof -
  let ?d = "\<lparr>portid = 7, nft_s = Some 0, nft_nl = Some 2, nft_e = None\<rparr>"
  have "nft_s ?d = Some 0" "nft_nl ?d = Some 2" "nft_elems (snd (world (sample_proc (1, sample_nft_state)))) 0 = []"
    "[3, 0, 0, 0] = (if big_endian sample_libc then [0, 0, 0, 3] else [3, 0, 0, 0 :: byte])"
    "[3, 0, 0, 0] \<notin> nft_kernel (snd (world (sample_proc (1, sample_nft_state)))) ''blacklist''"
    by (simp_all add: sample_proc_def sample_nft_state_def sample_libc_def)
  from nftables_handle_adds_constant [OF sample_alloc_formats sample_nft_laws this, of "addr_of AF_INET ''10.1.2.3'' [10, 1, 2, 3] 32"]
  show ?thesis by (auto simp: sample_proc_def sample_nft_state_def)
qed

end
