(* ===== verification/Apache.thy ===== *)
theory Apache
  imports Prelude
begin

text \<open>
  The module for Apache (\<open>clients/apache24/mod_banip.c\<close>): directives that build a list of rules, a hook that
  compares every request with the rules, and an output filter that reacts to a response header.  Tables,
  regular expressions and the query parser of the server are the fields of \<open>apr_api\<close>.
  \<open>banip_queue_send_message\<close> is the parameter \<open>send\<close>: it and the two functions that open and close the
  queue call operations of \<open>queue.h\<close> with the arguments of an earlier interface, and are not C.
\<close>

section \<open>State\<close>

text \<open>The rows of \<open>pattern_compilers\<close>.\<close>

datatype pattern_compiler = Regex_Compiler | String_Compiler

record 're banip_rule =
  r_what :: "string option"
  r_pattern :: string
  r_regexp :: "'re option"
  r_compiler :: pattern_compiler

record 're banip_server_conf =
  s_queue :: "string option"
  s_enabled :: bool
  s_rules :: "'re banip_rule list"

text \<open>\<open>get\<close> points to a table in the pool of a request: it is kept with the number of that pool.\<close>

record ('t, 're) banip_perdir_conf =
  p_get :: "(nat \<times> 't) option"
  p_rules :: "'re banip_rule list"

record 't request_rec =
  r_pool :: nat
  uri :: string
  query :: "string option"
  subprocess_env :: 't
  r_notes :: 't
  headers_in :: 't
  headers_out :: 't
  err_headers_out :: 't
  useragent_ip :: string

record ('t, 're) apr_api =
  ap_pregcomp :: "string \<Rightarrow> 're option"
  ap_regexec :: "'re option \<Rightarrow> string \<Rightarrow> int"
  apr_table_get :: "'t \<Rightarrow> string \<Rightarrow> string option"
  apr_table_unset :: "'t \<Rightarrow> string \<Rightarrow> 't"
  ap_args_to_table :: "string option \<Rightarrow> 't"
  getenv :: "string \<Rightarrow> string option"

datatype hook_status = DECLINED | HTTP_FORBIDDEN

section \<open>Rules\<close>

definition regex_compile :: "('t, 're) apr_api \<Rightarrow> 're banip_rule \<Rightarrow> string \<Rightarrow> string option \<times> 're banip_rule" where
  "regex_compile api rule pat =
     (let rule = rule\<lparr>r_pattern := pat, r_regexp := ap_pregcomp api pat\<rparr> in
      (if r_regexp rule = None then Some (''BanIPRule: cannot compile regular expression '' @ [CHR 0x27] @ pat @ [CHR 0x27]) else None,
       rule))"

definition string_compile :: "'re banip_rule \<Rightarrow> string \<Rightarrow> string option \<times> 're banip_rule" where
  "string_compile rule pat = (None, rule\<lparr>r_pattern := tl pat\<rparr>)"

definition compile_rule :: "('t, 're) apr_api \<Rightarrow> 're banip_rule \<Rightarrow> string \<Rightarrow> string option \<times> 're banip_rule" where
  "compile_rule api rule pat =
     (let rule = rule\<lparr>r_regexp := None, r_compiler := (if pat \<noteq> [] \<and> hd pat = CHR ''='' then String_Compiler else Regex_Compiler)\<rparr> in
      case r_compiler rule of
        Regex_Compiler \<Rightarrow> regex_compile api rule pat
      | String_Compiler \<Rightarrow> string_compile rule pat)"

text \<open>\<open>rule->compiler->compare\<close>: 0 for a match; of \<open>strcmp\<close> only whether it gives 0 is kept.\<close>

definition rule_matches :: "('t, 're) apr_api \<Rightarrow> 're banip_rule \<Rightarrow> string \<Rightarrow> bool" where
  "rule_matches api rule str =
     (case r_compiler rule of
        Regex_Compiler \<Rightarrow> ap_regexec api (r_regexp rule) str = 0
      | String_Compiler \<Rightarrow> r_pattern rule = str)"

section \<open>Variables of a request\<close>

datatype lookup_fun = Lookup_Default | Lookup_Env | Lookup_Get | Lookup_Http | Lookup_Post

text \<open>The five functions.  \<open>lookup_get\<close> fills \<open>dconf->get\<close> when it is null, and keeps it there; \<open>ap_args_to_table\<close> allocates the table in the
  pool of the request, while \<open>dconf\<close> may outlive it.  \<open>alive\<close> are the pools that the server has not destroyed.\<close>

definition lookup_variable ::
  "('t, 're) apr_api \<Rightarrow> (nat \<Rightarrow> bool) \<Rightarrow> lookup_fun \<Rightarrow> string option \<Rightarrow> 't request_rec \<Rightarrow> ('t, 're) banip_perdir_conf \<Rightarrow>
   (string option \<times> ('t, 're) banip_perdir_conf) outcome" where
  "lookup_variable api alive f name r dconf =
     (case (f, name) of
        (Lookup_Default, _) \<Rightarrow> Ret (Some (uri r), dconf)
      | (Lookup_Env, Some n) \<Rightarrow>
          Ret (case apr_table_get api (subprocess_env r) n of
             Some v \<Rightarrow> Some v
           | None \<Rightarrow> (case apr_table_get api (r_notes r) n of Some v \<Rightarrow> Some v | None \<Rightarrow> getenv api n), dconf)
      | (Lookup_Get, Some n) \<Rightarrow>
          (case p_get dconf of
             None \<Rightarrow>
               let t = ap_args_to_table api (query r) in Ret (apr_table_get api t n, dconf\<lparr>p_get := Some (r_pool r, t)\<rparr>)
           | Some (pool, t) \<Rightarrow> if alive pool then Ret (apr_table_get api t n, dconf) else Undef Dangling_Pointer)
      | (Lookup_Http, Some n) \<Rightarrow> Ret (apr_table_get api (headers_in r) n, dconf)
      | _ \<Rightarrow> Ret (None, dconf))"

text \<open>The array \<open>variables\<close>; \<open>None\<close> is its null prefix.\<close>

definition variables :: "(string option \<times> lookup_fun) list" where
  "variables =
     [(None, Lookup_Default), (Some ''ENV:'', Lookup_Env), (Some ''GET:'', Lookup_Get),
      (Some ''HTTP:'', Lookup_Http), (Some ''POST:'', Lookup_Post)]"

text \<open>Lines 283 to 288: the first row whose prefix is \<open>what\<close> (both null) or starts it, with the rest of \<open>what\<close>.
  \<open>strncmp\<close> with a null pointer is undefined.\<close>

fun find_variable :: "(string option \<times> lookup_fun) list \<Rightarrow> string option \<Rightarrow> (lookup_fun \<times> string option) option outcome" where
  "find_variable [] what = Ret None"
| "find_variable ((prefix, f) # vs) what =
     (case (prefix, what) of
        (None, None) \<Rightarrow> Ret (Some (f, None))
      | (None, Some w) \<Rightarrow> find_variable vs what
      | (Some p, None) \<Rightarrow> Undef Null_Deref
      | (Some p, Some w) \<Rightarrow> if take (length p) w = p then Ret (Some (f, Some (drop (length p) w))) else find_variable vs what)"

section \<open>The hook\<close>

text \<open>The loop over the rules of the server (lines 276 to 302), with the messages it logs.\<close>

fun fixup_rules ::
  "('t, 're) apr_api \<Rightarrow> (nat \<Rightarrow> bool) \<Rightarrow> ('t request_rec \<Rightarrow> 'w \<Rightarrow> 'w) \<Rightarrow> 're banip_rule list \<Rightarrow> 't request_rec \<Rightarrow> ('t, 're) banip_perdir_conf \<Rightarrow>
   'w \<Rightarrow> (hook_status \<times> ('t, 're) banip_perdir_conf \<times> cmsg list \<times> 'w) outcome" where
  "fixup_rules api alive send [] r dconf w = Ret (DECLINED, dconf, [], w)"
| "fixup_rules api alive send (rule # rules) r dconf w =
     andthen (find_variable variables (r_what rule)) (\<lambda>v.
     andthen (case v of None \<Rightarrow> Ret (None, dconf) | Some (f, name) \<Rightarrow> lookup_variable api alive f name r dconf) (\<lambda>(val, dconf).
     case val of
       None \<Rightarrow> fixup_rules api alive send rules r dconf w
     | Some str \<Rightarrow>
         let hit = rule_matches api rule str;
             m = (''%s %s %s'', [SArg str, SArg (if hit then ''matches'' else ''doesn'' @ [CHR 0x27] @ ''t match''), SArg (r_pattern rule)]) in
         if hit then Ret (HTTP_FORBIDDEN, dconf, [m], send r w)
         else
           andthen (fixup_rules api alive send rules r dconf w) (\<lambda>(st, dconf, ms, w). Ret (st, dconf, m # ms, w))))"

definition banip_fixup ::
  "('t, 're) apr_api \<Rightarrow> (nat \<Rightarrow> bool) \<Rightarrow> ('t request_rec \<Rightarrow> 'w \<Rightarrow> 'w) \<Rightarrow> 're banip_server_conf \<Rightarrow> ('t, 're) banip_perdir_conf \<Rightarrow> 't request_rec \<Rightarrow>
   'w \<Rightarrow> (hook_status \<times> ('t, 're) banip_perdir_conf \<times> cmsg list \<times> 'w) outcome" where
  "banip_fixup api alive send sconf dconf r w =
     (if \<not> s_enabled sconf then Ret (DECLINED, dconf, [], w) else fixup_rules api alive send (s_rules sconf) r dconf w)"

section \<open>Configuration\<close>

definition config_server_create :: "'re banip_server_conf" where
  "config_server_create = \<lparr>s_queue = None, s_enabled = False, s_rules = []\<rparr>"

definition config_perdir_create :: "('t, 're) banip_perdir_conf" where
  "config_perdir_create = \<lparr>p_get = None, p_rules = []\<rparr>"

text \<open>Both functions that merge configurations read \<open>base->rules\<close> through a pointer that was never assigned.\<close>

definition config_server_merge :: "'re banip_server_conf \<Rightarrow> 're banip_server_conf \<Rightarrow> 're banip_server_conf outcome" where
  "config_server_merge basev overridesv = Undef Uninit_Read"

definition config_perdir_merge :: "('t, 're) banip_perdir_conf \<Rightarrow> ('t, 're) banip_perdir_conf \<Rightarrow> ('t, 're) banip_perdir_conf outcome" where
  "config_perdir_merge basev overridesv = Undef Uninit_Read"

text \<open>The directives; \<open>path\<close> is \<open>cmd->path\<close>, null outside of directory sections.  The result is the message of a
  failure with the two configurations.\<close>

definition cmd_banip_enable :: "string option \<Rightarrow> bool \<Rightarrow> 're banip_server_conf \<Rightarrow> string option \<times> 're banip_server_conf" where
  "cmd_banip_enable path flag sconf = (None, if path = None then sconf\<lparr>s_enabled := flag\<rparr> else sconf)"

definition cmd_banip_queue :: "string \<Rightarrow> 're banip_server_conf \<Rightarrow> string option \<times> 're banip_server_conf" where
  "cmd_banip_queue arg sconf = (None, sconf\<lparr>s_queue := Some arg\<rparr>)"

text \<open>\<open>apr_array_push\<close> gives a new element, which \<open>compile_rule\<close> fills in; the element stays also when the
  pattern does not compile.\<close>

definition cmd_banip_rule ::
  "('t, 're) apr_api \<Rightarrow> string option \<Rightarrow> string list \<Rightarrow> 're banip_rule \<Rightarrow> 're banip_server_conf \<Rightarrow> ('t, 're) banip_perdir_conf \<Rightarrow>
   string option \<times> 're banip_server_conf \<times> ('t, 're) banip_perdir_conf" where
  "cmd_banip_rule api path argv fresh sconf dconf =
     (if length argv \<noteq> 1 \<and> length argv \<noteq> 2 then (Some ''BanIPRule: too many arguments'', sconf, dconf)
      else
        let what = (if length argv = 1 then None else Some (argv ! 0));
            pat = (if length argv = 1 then argv ! 0 else argv ! 1)
        in case compile_rule api fresh pat of
             (ret, rule) \<Rightarrow>
               let rule = rule\<lparr>r_what := what\<rparr> in
               if path = None then (ret, sconf\<lparr>s_rules := s_rules sconf @ [rule]\<rparr>, dconf)
               else (ret, sconf, dconf\<lparr>p_rules := p_rules dconf @ [rule]\<rparr>))"

section \<open>The output filter\<close>

datatype filter_result = Died_Forbidden | Passed_On

definition BANIP_HEADER :: string where "BANIP_HEADER = ''X-BanIP''"

text \<open>The filter removes itself in either case.\<close>

definition banip_output_filter ::
  "('t, 're) apr_api \<Rightarrow> ('t request_rec \<Rightarrow> 'w \<Rightarrow> 'w) \<Rightarrow> 't request_rec \<Rightarrow> 'w \<Rightarrow> filter_result \<times> 't request_rec \<times> 'w" where
  "banip_output_filter api send r w =
     (if apr_table_get api (headers_out r) BANIP_HEADER \<noteq> None \<or> apr_table_get api (err_headers_out r) BANIP_HEADER \<noteq> None then
        (Died_Forbidden,
         r\<lparr>headers_out := apr_table_unset api (headers_out r) BANIP_HEADER,
           err_headers_out := apr_table_unset api (err_headers_out r) BANIP_HEADER\<rparr>, send r w)
      else (Passed_On, r, w))"

definition banip_insert_output_filter :: "'re banip_server_conf \<Rightarrow> string list \<Rightarrow> string list" where
  "banip_insert_output_filter sconf filters = (if s_enabled sconf then filters @ [''XBANIP''] else filters)"


section \<open>The decision of the hook\<close>

text \<open>The reference: the parameters that rules are compared with, those of an earlier request where the cache has them; whether
  the cache can be read; the value that a rule looks at, and whether it hits.\<close>

definition effective_get :: "('t, 're) apr_api \<Rightarrow> 't request_rec \<Rightarrow> ('t, 're) banip_perdir_conf \<Rightarrow> 't" where
  "effective_get api r dconf = (case p_get dconf of Some (pool, t) \<Rightarrow> t | None \<Rightarrow> ap_args_to_table api (query r))"

definition cache_ok :: "(nat \<Rightarrow> bool) \<Rightarrow> ('t, 're) banip_perdir_conf \<Rightarrow> bool" where
  "cache_ok alive dconf = (case p_get dconf of Some (pool, t) \<Rightarrow> alive pool | None \<Rightarrow> True)"

definition variable_value :: "('t, 're) apr_api \<Rightarrow> 't request_rec \<Rightarrow> 't \<Rightarrow> string option \<Rightarrow> string option" where
  "variable_value api r args what =
     (case what of
        None \<Rightarrow> Some (uri r)
      | Some w \<Rightarrow>
          if take 4 w = ''ENV:'' then
            (case apr_table_get api (subprocess_env r) (drop 4 w) of
               Some v \<Rightarrow> Some v
             | None \<Rightarrow> (case apr_table_get api (r_notes r) (drop 4 w) of Some v \<Rightarrow> Some v | None \<Rightarrow> getenv api (drop 4 w)))
          else if take 4 w = ''GET:'' then apr_table_get api args (drop 4 w)
          else if take 5 w = ''HTTP:'' then apr_table_get api (headers_in r) (drop 5 w)
          else None)"

definition rule_hits :: "('t, 're) apr_api \<Rightarrow> 't request_rec \<Rightarrow> 't \<Rightarrow> 're banip_rule \<Rightarrow> bool" where
  "rule_hits api r args rule = (case variable_value api r args (r_what rule) of None \<Rightarrow> False | Some str \<Rightarrow> rule_matches api rule str)"

text \<open>Rules that look at the parameters of the query, and whether the loop gets to one of them before a rule hits.\<close>

definition reads_query :: "'re banip_rule \<Rightarrow> bool" where
  "reads_query rule = (case r_what rule of None \<Rightarrow> False | Some w \<Rightarrow> take 4 w = ''GET:'')"

fun query_reached :: "('t, 're) apr_api \<Rightarrow> 't request_rec \<Rightarrow> 't \<Rightarrow> 're banip_rule list \<Rightarrow> bool" where
  "query_reached api r args [] \<longleftrightarrow> False"
| "query_reached api r args (rule # rules) \<longleftrightarrow> reads_query rule \<or> \<not> rule_hits api r args rule \<and> query_reached api r args rules"

text \<open>A step of the loop computes the reference, and changes the configuration only by filling the cache; or it reads a table that is gone.\<close>

lemma lookup_value:
  assumes "alive (r_pool r)"
  shows "\<exists>v. find_variable variables (r_what rule) = Ret v \<and>
    (if reads_query rule \<and> \<not> cache_ok alive dconf
     then (case v of None \<Rightarrow> Ret (None, dconf) | Some (f, name) \<Rightarrow> lookup_variable api alive f name r dconf) = Undef Dangling_Pointer
     else \<exists>dconf'. (case v of None \<Rightarrow> Ret (None, dconf) | Some (f, name) \<Rightarrow> lookup_variable api alive f name r dconf) =
         Ret (variable_value api r (effective_get api r dconf) (r_what rule), dconf') \<and>
       effective_get api r dconf' = effective_get api r dconf \<and> p_rules dconf' = p_rules dconf \<and> cache_ok alive dconf' = cache_ok alive dconf)"
proof (cases "r_what rule")
  case None
  then show ?thesis by (simp add: variables_def lookup_variable_def variable_value_def reads_query_def)
next
  case (Some w)
  consider "take 4 w = ''ENV:''" | "take 4 w = ''GET:''" | "take 5 w = ''HTTP:''" "take 4 w \<noteq> ''ENV:''" "take 4 w \<noteq> ''GET:''"
    | "take 4 w \<noteq> ''ENV:''" "take 4 w \<noteq> ''GET:''" "take 5 w \<noteq> ''HTTP:''" by blast
  then show ?thesis
  proof cases
    case 1
    then show ?thesis using Some
      by (auto simp: variables_def lookup_variable_def variable_value_def reads_query_def eval_nat_numeral split: option.splits)
  next
    case 2
    then have "find_variable variables (r_what rule) = Ret (Some (Lookup_Get, Some (drop 4 w)))" using Some
      by (simp add: variables_def eval_nat_numeral)
    then show ?thesis using 2 Some assms
      by (auto simp: lookup_variable_def variable_value_def effective_get_def cache_ok_def reads_query_def Let_def split: option.splits)
  next
    case 3
    then show ?thesis using Some by (simp add: variables_def lookup_variable_def variable_value_def reads_query_def eval_nat_numeral)
  next
    case 4
    then show ?thesis using Some by (simp add: variables_def lookup_variable_def variable_value_def reads_query_def eval_nat_numeral)
  qed
qed

lemma fixup_rules_step:
  assumes "find_variable variables (r_what rule) = Ret v"
    and "(case v of None \<Rightarrow> Ret (None, dconf) | Some (f, name) \<Rightarrow> lookup_variable api alive f name r dconf) =
      Ret (variable_value api r args (r_what rule), d1)"
  shows "\<exists>m. fixup_rules api alive send (rule # rules) r dconf w =
    (if rule_hits api r args rule then Ret (HTTP_FORBIDDEN, d1, [m], send r w)
     else andthen (fixup_rules api alive send rules r d1 w) (\<lambda>(st, dconf, ms, w).
       Ret (st, dconf, if variable_value api r args (r_what rule) = None then ms else m # ms, w)))"
proof (cases "variable_value api r args (r_what rule)")
  case None
  then have "fixup_rules api alive send (rule # rules) r dconf w = fixup_rules api alive send rules r d1 w" using assms by simp
  then show ?thesis using None by (cases "fixup_rules api alive send rules r d1 w") (simp_all add: rule_hits_def)
next
  case (Some str)
  show ?thesis using assms Some
    by (intro exI [of _ "(''%s %s %s'', [SArg str, SArg (if rule_matches api rule str then ''matches'' else ''doesn'' @ [CHR 0x27] @ ''t match''),
        SArg (r_pattern rule)])"]) (simp add: rule_hits_def Let_def)
qed

lemma fixup_rules_decision:
  assumes "alive (r_pool r)"
  shows "if \<not> cache_ok alive dconf \<and> query_reached api r (effective_get api r dconf) rules
    then fixup_rules api alive send rules r dconf w = Undef Dangling_Pointer
    else \<exists>dconf' ms. fixup_rules api alive send rules r dconf w =
        Ret (if list_ex (rule_hits api r (effective_get api r dconf)) rules then (HTTP_FORBIDDEN, dconf', ms, send r w) else (DECLINED, dconf', ms, w)) \<and>
      p_rules dconf' = p_rules dconf"
proof (induction rules arbitrary: dconf)
  case (Cons rule rules)
  let ?args = "effective_get api r dconf"
  obtain v where find: "find_variable variables (r_what rule) = Ret v" and
    look: "if reads_query rule \<and> \<not> cache_ok alive dconf
     then (case v of None \<Rightarrow> Ret (None, dconf) | Some (f, name) \<Rightarrow> lookup_variable api alive f name r dconf) = Undef Dangling_Pointer
     else \<exists>dconf'. (case v of None \<Rightarrow> Ret (None, dconf) | Some (f, name) \<Rightarrow> lookup_variable api alive f name r dconf) =
         Ret (variable_value api r ?args (r_what rule), dconf') \<and>
       effective_get api r dconf' = ?args \<and> p_rules dconf' = p_rules dconf \<and> cache_ok alive dconf' = cache_ok alive dconf"
    using lookup_value [where alive = alive and r = r and rule = rule and dconf = dconf and api = api, OF assms] by blast
  show ?case
  proof (cases "reads_query rule \<and> \<not> cache_ok alive dconf")
    case True
    then show ?thesis using find look by simp
  next
    case False
    then obtain d1 where l: "(case v of None \<Rightarrow> Ret (None, dconf) | Some (f, name) \<Rightarrow> lookup_variable api alive f name r dconf) =
        Ret (variable_value api r ?args (r_what rule), d1)"
      and d1: "effective_get api r d1 = ?args" "p_rules d1 = p_rules dconf" "cache_ok alive d1 = cache_ok alive dconf" using look by auto
    obtain m where step: "fixup_rules api alive send (rule # rules) r dconf w =
        (if rule_hits api r ?args rule then Ret (HTTP_FORBIDDEN, d1, [m], send r w)
         else andthen (fixup_rules api alive send rules r d1 w) (\<lambda>(st, dconf, ms, w).
           Ret (st, dconf, if variable_value api r ?args (r_what rule) = None then ms else m # ms, w)))"
      using fixup_rules_step [OF find l, where send = send and rules = rules and w = w] by blast
    show ?thesis unfolding step using Cons.IH [of d1] d1 False by (auto split: if_splits)
  qed
qed simp

section \<open>A sample server\<close>

text \<open>Tables are association lists; a regular expression is a text and matches itself.\<close>

definition sample_apr_api :: "((string \<times> string) list, string) apr_api" where
  "sample_apr_api =
     \<lparr>ap_pregcomp = Some, ap_regexec = (\<lambda>re str. if re = Some str then 0 else 1), apr_table_get = map_of,
      apr_table_unset = (\<lambda>t k. filter (\<lambda>kv. fst kv \<noteq> k) t),
      ap_args_to_table = (\<lambda>q. case q of None \<Rightarrow> [] | Some v \<Rightarrow> [(''user'', v)]), getenv = (\<lambda>n. None)\<rparr>"

definition sample_request :: "string \<Rightarrow> string option \<Rightarrow> (string \<times> string) list request_rec" where
  "sample_request u q =
     \<lparr>r_pool = 1, uri = u, query = q, subprocess_env = [], r_notes = [], headers_in = [], headers_out = [], err_headers_out = [], useragent_ip = ''192.0.2.1''\<rparr>"

definition sample_rule :: "string option \<Rightarrow> string \<Rightarrow> string banip_rule" where
  "sample_rule what p = \<lparr>r_what = what, r_pattern = p, r_regexp = None, r_compiler = String_Compiler\<rparr>"

section \<open>Properties\<close>

text \<open>C26: what the hook decides.  The pool of the request is alive.  Where the cache of the query points into the pool of a request that is over and
  the loop gets to a rule on \<open>GET:\<close> before another rule hits, the hook reads memory that was given back.  Otherwise it is defined: the
  request is forbidden, and exactly one message with its address is sent, when the module is enabled and some rule of the
  server hits; else the hook declines and sends nothing.  Rules on \<open>GET:\<close> see the parameters in the cache, where it is
  filled, and otherwise those of the request; the rules of the directory stay as they are.\<close>

theorem banip_fixup_decision:
  assumes "alive (r_pool r)" and "args = effective_get api r dconf"
  shows "if s_enabled sconf \<and> \<not> cache_ok alive dconf \<and> query_reached api r args (s_rules sconf)
    then banip_fixup api alive send sconf dconf r w = Undef Dangling_Pointer
    else \<exists>dconf' ms. banip_fixup api alive send sconf dconf r w =
        Ret (if s_enabled sconf \<and> list_ex (rule_hits api r args) (s_rules sconf)
          then (HTTP_FORBIDDEN, dconf', ms, send r w) else (DECLINED, dconf', ms, w)) \<and>
      p_rules dconf' = p_rules dconf"
  using fixup_rules_decision [where alive = alive and r = r and dconf = dconf and api = api and rules = "s_rules sconf" and send = send and w = w, OF assms(1)]
  unfolding assms(2) by (auto simp: banip_fixup_def)

text \<open>A rule on \<open>GET:user\<close>: a first request is judged by its own parameters, and a request after its end reads the table that is gone.\<close>

theorem banip_fixup_decision_witness:
  "(\<exists>d ms. banip_fixup sample_apr_api (\<lambda>p. p = 1) (\<lambda>r w. w @ [useragent_ip r])
      (config_server_create\<lparr>s_enabled := True, s_rules := [sample_rule (Some ''GET:user'') ''root'']\<rparr>)
      config_perdir_create (sample_request ''/'' (Some ''root'')) [] = Ret (HTTP_FORBIDDEN, d, ms, [''192.0.2.1''])) \<and>
   banip_fixup sample_apr_api (\<lambda>p. p = 1) (\<lambda>r w. w @ [useragent_ip r])
      (config_server_create\<lparr>s_enabled := True, s_rules := [sample_rule (Some ''GET:user'') ''root'']\<rparr>)
      (config_perdir_create\<lparr>p_get := Some (0, [(''user'', ''alice'')])\<rparr>) (sample_request ''/'' (Some ''root'')) [] = Undef Dangling_Pointer"
proof -
  let ?r = "sample_request ''/'' (Some ''root'')"
  let ?s = "config_server_create\<lparr>s_enabled := True, s_rules := [sample_rule (Some ''GET:user'') ''root'']\<rparr>"
  have "r_pool ?r = 1" by (simp add: sample_request_def)
  note d = banip_fixup_decision [where alive = "\<lambda>p. p = 1" and r = ?r and api = sample_apr_api and sconf = ?s, OF this refl]
  show ?thesis
    using d [of config_perdir_create "\<lambda>r w. w @ [useragent_ip r]" "[]"]
      d [of "config_perdir_create\<lparr>p_get := Some (0, [(''user'', ''alice'')])\<rparr>" "\<lambda>r w. w @ [useragent_ip r]" "[]"]
    by (simp add: config_server_create_def config_perdir_create_def cache_ok_def reads_query_def sample_rule_def sample_request_def sample_apr_api_def
        rule_hits_def variable_value_def rule_matches_def effective_get_def) blast
qed

text \<open>The query of the first request is kept.  As long as the directory configuration lives, a rule on \<open>GET:name\<close> judges every later request by
  the parameters of the request that filled the cache, or, when that request is over, reads its memory after it was given back.\<close>

lemma banip_get_cached:
  assumes "s_enabled sconf" and "s_rules sconf = [rule]" and "r_what rule = Some (''GET:'' @ name)" and "p_get dconf = None"
    and "banip_fixup api alive send sconf dconf r1 w1 = Ret (st1, dconf1, ms1, w1')"
  shows "\<exists>d ms w. banip_fixup api alive2 send sconf dconf1 r2 w2 =
    (if alive2 (r_pool r1)
     then Ret (if (case apr_table_get api (ap_args_to_table api (query r1)) name of None \<Rightarrow> False | Some v \<Rightarrow> rule_matches api rule v)
       then HTTP_FORBIDDEN else DECLINED, d, ms, w)
     else Undef Dangling_Pointer)"
proof -
  have find: "find_variable variables (r_what rule) = Ret (Some (Lookup_Get, Some name))" using assms(3) by (simp add: variables_def)
  have "p_get dconf1 = Some (r_pool r1, ap_args_to_table api (query r1))"
    using assms(1,2,4,5) find by (auto simp: banip_fixup_def lookup_variable_def Let_def elim!: andthenE split: option.splits if_splits)
  then show ?thesis using assms(1,2) find
    by (auto simp: banip_fixup_def lookup_variable_def Let_def split: option.splits)
qed

text \<open>C29: the output filter.  The header never reaches the client; a response that carried it, among the
  regular or the error headers, is replaced by a refusal after one message was sent, and every
  other response passes unchanged.\<close>

theorem banip_output_filter_strips:
  assumes "\<And>t k. apr_table_get api (apr_table_unset api t k) k = None" and "banip_output_filter api send r w = (res, r', w')"
  shows "apr_table_get api (headers_out r') BANIP_HEADER = None \<and> apr_table_get api (err_headers_out r') BANIP_HEADER = None \<and>
    (if apr_table_get api (headers_out r) BANIP_HEADER = None \<and> apr_table_get api (err_headers_out r) BANIP_HEADER = None
     then res = Passed_On \<and> r' = r \<and> w' = w else res = Died_Forbidden \<and> w' = send r w)"
  using assms by (auto simp: banip_output_filter_def split: if_splits)

theorem banip_output_filter_strips_witness:
  "\<exists>r'. banip_output_filter sample_apr_api (\<lambda>r w. w @ [useragent_ip r]) ((sample_request ''/'' None)\<lparr>headers_out := [(''X-BanIP'', ''1'')]\<rparr>) [] =
      (Died_Forbidden, r', [''192.0.2.1'']) \<and> apr_table_get sample_apr_api (headers_out r') BANIP_HEADER = None"
proof -
  let ?r = "(sample_request ''/'' None)\<lparr>headers_out := [(''X-BanIP'', ''1'')]\<rparr>"
  have unset: "apr_table_get sample_apr_api (apr_table_unset sample_apr_api t k) k = None" for t k
    by (auto simp: sample_apr_api_def map_of_eq_None_iff)
  obtain res r' w' where f: "banip_output_filter sample_apr_api (\<lambda>r w. w @ [useragent_ip r]) ?r [] = (res, r', w')" by (metis prod_cases3)
  have "apr_table_get sample_apr_api (headers_out ?r) BANIP_HEADER \<noteq> None" by (simp add: sample_apr_api_def BANIP_HEADER_def)
  with banip_output_filter_strips [OF unset f] f show ?thesis by (auto simp: sample_request_def)
qed

end
