(* ===== verification/Apache_Config.thy ===== *)
theory Apache_Config
  imports Apache
begin

text \<open>
  A configuration file of the Apache module: the directives of \<open>command_table\<close> in any order, for the server and in
  directory sections, the merge of the configurations of the sections that apply to a request, and what the
  hook decides under the configuration that results.  There is one server: virtual hosts, whose configurations
  \<open>config_server_merge\<close> would combine, are left out.
\<close>

section \<open>Directives\<close>

text \<open>The rows of \<open>command_table\<close>, with the arguments that the server hands to their functions.\<close>

datatype directive = BanIPEnable bool | BanIPQueue string | BanIPRule "string list"

text \<open>A directive stands for the whole server (\<open>None\<close>) or in the section of a directory; \<open>fresh\<close> is the new element of the array
  of rules.  The server has a configuration of the module from the start; that of a section is made with the
  first directive of the module in it, whichever that is, and is the \<open>cfg\<close> of the function that is called.\<close>

type_synonym 're config_line = "string option \<times> 're banip_rule \<times> directive"

type_synonym ('t, 're) config = "'re banip_server_conf \<times> (string option \<rightharpoonup> ('t, 're) banip_perdir_conf)"

definition section_conf :: "(string option \<rightharpoonup> ('t, 're) banip_perdir_conf) \<Rightarrow> string option \<Rightarrow> ('t, 're) banip_perdir_conf" where
  "section_conf dconfs path = (case dconfs path of None \<Rightarrow> config_perdir_create | Some d \<Rightarrow> d)"

text \<open>\<open>BanIPQueue\<close> is \<open>RSRC_CONF\<close>: the server refuses it in a section.\<close>

fun run_directive :: "('t, 're) apr_api \<Rightarrow> 're config_line \<Rightarrow> ('t, 're) config \<Rightarrow> string option \<times> ('t, 're) config" where
  "run_directive api (path, fresh, BanIPEnable flag) (sconf, dconfs) =
     (case cmd_banip_enable path flag sconf of (ret, sconf) \<Rightarrow> (ret, sconf, dconfs(path \<mapsto> section_conf dconfs path)))"
| "run_directive api (path, fresh, BanIPQueue arg) (sconf, dconfs) =
     (if path \<noteq> None then (Some ''BanIPQueue not allowed here'', sconf, dconfs)
      else case cmd_banip_queue arg sconf of (ret, sconf) \<Rightarrow> (ret, sconf, dconfs(path \<mapsto> section_conf dconfs path)))"
| "run_directive api (path, fresh, BanIPRule argv) (sconf, dconfs) =
     (case cmd_banip_rule api path argv fresh sconf (section_conf dconfs path) of (ret, sconf, dconf) \<Rightarrow> (ret, sconf, dconfs(path \<mapsto> dconf)))"

text \<open>The message of a directive ends the reading of the file.\<close>

fun run_directives :: "('t, 're) apr_api \<Rightarrow> 're config_line list \<Rightarrow> ('t, 're) config \<Rightarrow> string option \<times> ('t, 're) config" where
  "run_directives api [] c = (None, c)"
| "run_directives api (l # ls) c =
     (case run_directive api l c of (Some e, c) \<Rightarrow> (Some e, c) | (None, c) \<Rightarrow> run_directives api ls c)"

definition initial_config :: "('t, 're) config" where
  "initial_config = (config_server_create, [None \<mapsto> config_perdir_create])"

section \<open>A request\<close>

text \<open>
  The walk of the server over the sections that apply to a request is the parameter \<open>walk\<close>, which is given the function of the
  module that merges two configurations, the configuration of the server, and those of the sections that have one.
  With no section it gives the configuration of the server itself; with one or more it calls the function.
\<close>

type_synonym 'd dir_walk = "('d \<Rightarrow> 'd \<Rightarrow> 'd outcome) \<Rightarrow> 'd \<Rightarrow> 'd list \<Rightarrow> 'd outcome"

definition dir_walk_law :: "'d dir_walk \<Rightarrow> bool" where
  "dir_walk_law walk \<longleftrightarrow>
     (\<forall>m b. walk m b [] = Ret b) \<and> (\<forall>m b d ds u. (\<forall>x y. m x y = Undef u) \<longrightarrow> walk m b (d # ds) = Undef u)"

text \<open>A request to which the sections \<open>secs\<close> apply.\<close>

definition serve_request ::
  "('t, 're) apr_api \<Rightarrow> (nat \<Rightarrow> bool) \<Rightarrow> ('t, 're) banip_perdir_conf dir_walk \<Rightarrow> ('t request_rec \<Rightarrow> 'w \<Rightarrow> 'w) \<Rightarrow> ('t, 're) config \<Rightarrow>
   string list \<Rightarrow> 't request_rec \<Rightarrow> 'w \<Rightarrow> (hook_status \<times> ('t, 're) banip_perdir_conf \<times> cmsg list \<times> 'w) outcome" where
  "serve_request api alive walk send c secs r w =
     (case c of (sconf, dconfs) \<Rightarrow>
        andthen (walk config_perdir_merge (section_conf dconfs None) (List.map_filter (\<lambda>p. dconfs (Some p)) secs))
          (\<lambda>dconf. banip_fixup api alive send sconf dconf r w))"

section \<open>What a file says\<close>

definition server_enabled :: "'re config_line list \<Rightarrow> bool \<Rightarrow> bool" where
  "server_enabled ls = fold (\<lambda>(path, fresh, d) on. case d of BanIPEnable flag \<Rightarrow> if path = None then flag else on | _ \<Rightarrow> on) ls"

definition server_queue :: "'re config_line list \<Rightarrow> string option \<Rightarrow> string option" where
  "server_queue ls = fold (\<lambda>(path, fresh, d) q. case d of BanIPQueue arg \<Rightarrow> Some arg | _ \<Rightarrow> q) ls"

definition rule_of :: "('t, 're) apr_api \<Rightarrow> 're banip_rule \<Rightarrow> string list \<Rightarrow> 're banip_rule" where
  "rule_of api fresh argv = (snd (compile_rule api fresh (last argv)))\<lparr>r_what := (if length argv = 1 then None else Some (hd argv))\<rparr>"

fun server_rules :: "('t, 're) apr_api \<Rightarrow> 're config_line list \<Rightarrow> 're banip_rule list" where
  "server_rules api [] = []"
| "server_rules api ((None, fresh, BanIPRule argv) # ls) = rule_of api fresh argv # server_rules api ls"
| "server_rules api (l # ls) = server_rules api ls"

lemma cmd_rule_ok:
  assumes "cmd_banip_rule api path argv fresh sconf dconf = (None, sconf', dconf')"
  shows "sconf' = (if path = None then sconf\<lparr>s_rules := s_rules sconf @ [rule_of api fresh argv]\<rparr> else sconf)" and "p_get dconf' = p_get dconf"
proof -
  have len: "length argv = 1 \<or> length argv = 2" using assms by (auto simp: cmd_banip_rule_def split: if_splits)
  then have ne: "argv \<noteq> []" by auto
  then have "last argv = (if length argv = 1 then argv ! 0 else argv ! 1)" using len by (auto simp: last_conv_nth)
  with ne show "sconf' = (if path = None then sconf\<lparr>s_rules := s_rules sconf @ [rule_of api fresh argv]\<rparr> else sconf)" "p_get dconf' = p_get dconf"
    using assms len by (auto simp: cmd_banip_rule_def rule_of_def hd_conv_nth Let_def split: if_splits prod.splits)
qed

lemma server_Nil [simp]: "server_enabled [] on = on" "server_queue [] q = q"
  by (simp_all add: server_enabled_def server_queue_def)

lemma server_Cons [simp]:
  "server_enabled ((path, fresh, d) # ls) on =
    server_enabled ls (case d of BanIPEnable flag \<Rightarrow> if path = None then flag else on | _ \<Rightarrow> on)"
  "server_queue ((path, fresh, d) # ls) q = server_queue ls (case d of BanIPQueue arg \<Rightarrow> Some arg | _ \<Rightarrow> q)"
  by (simp_all add: server_enabled_def server_queue_def)

lemma run_directives_conf:
  assumes "run_directives api ls (sconf, dconfs) = (None, sconf', dconfs')"
  shows "s_enabled sconf' = server_enabled ls (s_enabled sconf) \<and> s_queue sconf' = server_queue ls (s_queue sconf) \<and>
    s_rules sconf' = s_rules sconf @ server_rules api ls \<and>
    (dconfs' path = None \<longleftrightarrow> dconfs path = None \<and> (\<forall>l\<in>set ls. fst l \<noteq> path))"
  using assms
proof (induction ls arbitrary: sconf dconfs)
  case (Cons l ls)
  obtain sec fresh d where l: "l = (sec, fresh, d)" by (cases l)
  show ?case
  proof (cases d)
    case (BanIPEnable flag)
    then have "run_directives api ls (if sec = None then sconf\<lparr>s_enabled := flag\<rparr> else sconf, dconfs(sec \<mapsto> section_conf dconfs sec)) =
        (None, sconf', dconfs')" using Cons.prems l by (simp add: cmd_banip_enable_def)
    from Cons.IH [OF this] show ?thesis using l BanIPEnable by (cases sec) auto
  next
    case (BanIPQueue arg)
    then have sec: "sec = None" and "run_directives api ls (sconf\<lparr>s_queue := Some arg\<rparr>, dconfs(sec \<mapsto> section_conf dconfs sec)) = (None, sconf', dconfs')"
      using Cons.prems l by (auto simp: cmd_banip_queue_def split: if_splits)
    from Cons.IH [OF this(2)] show ?thesis using l BanIPQueue sec by auto
  next
    case (BanIPRule argv)
    obtain ret s1 d1 where c: "cmd_banip_rule api sec argv fresh sconf (section_conf dconfs sec) = (ret, s1, d1)" by (metis prod_cases3)
    then have "ret = None" and rest: "run_directives api ls (s1, dconfs(sec \<mapsto> d1)) = (None, sconf', dconfs')"
      using Cons.prems l BanIPRule by (auto split: option.splits)
    note ok = cmd_rule_ok [OF c [unfolded \<open>ret = None\<close>]]
    show ?thesis using Cons.IH [OF rest] ok l BanIPRule by (cases sec) auto
  qed
qed simp

lemma map_filter_Nil: "List.map_filter g xs = [] \<longleftrightarrow> (\<forall>x\<in>set xs. g x = None)"
  by (induction xs) (auto simp: List.map_filter_simps split: option.splits)

text \<open>The sections that apply and have a configuration, where the file is read from the start.\<close>

lemma configured_sections:
  assumes "run_directives api ls initial_config = (None, sconf, dconfs)"
  shows "List.map_filter (\<lambda>p. dconfs (Some p)) secs = [] \<longleftrightarrow> \<not> (\<exists>p\<in>set secs. \<exists>l\<in>set ls. fst l = Some p)"
proof -
  have "dconfs (Some p) = None \<longleftrightarrow> (\<forall>l\<in>set ls. fst l \<noteq> Some p)" for p
    using run_directives_conf [OF assms [unfolded initial_config_def], of "Some p"] by simp
  then show ?thesis by (simp add: map_filter_Nil)
qed

section \<open>Properties\<close>

text \<open>C27: from the configuration file to the decision, for one server and whatever \<open>cache\<close> of a query earlier requests left in the configuration of the
  server.  Every directive of the file was accepted.  The queue is the one of the last \<open>BanIPQueue\<close>.  A request to
  which a section with any directive of the module applies makes the server merge configurations, which reads an unassigned pointer.
  For the other requests: where the cache holds the table of a request that is over, the module is enabled and the loop gets to a rule on \<open>GET:\<close>
  before a rule hits, the hook reads freed memory; otherwise the request is forbidden, with
  one message, exactly when the last \<open>BanIPEnable\<close> outside of directory sections says so and one of the rules outside
  of directory sections hits, whatever the order of the directives, where rules on \<open>GET:\<close> are compared with the
  parameters in the cache, or with those of the request when the cache is empty.\<close>

theorem banip_configuration_decides:
  assumes "run_directives api ls initial_config = (None, sconf, dconfs)" and "dir_walk_law walk" and "alive (r_pool r)"
    and "base = (section_conf dconfs None)\<lparr>p_get := cache\<rparr>" and "args = effective_get api r base"
    and "res = serve_request api alive walk send (sconf, dconfs(None \<mapsto> base)) secs r w"
  shows "s_queue sconf = server_queue ls None \<and>
    (if \<exists>p\<in>set secs. \<exists>l\<in>set ls. fst l = Some p then res = Undef Uninit_Read
     else if server_enabled ls False \<and> \<not> cache_ok alive base \<and> query_reached api r args (server_rules api ls) then res = Undef Dangling_Pointer
     else \<exists>d ms. res =
       Ret (if server_enabled ls False \<and> list_ex (rule_hits api r args) (server_rules api ls)
         then (HTTP_FORBIDDEN, d, ms, send r w) else (DECLINED, d, ms, w)))"
proof -
  note c = run_directives_conf [OF assms(1) [unfolded initial_config_def], of None]
  have s: "s_enabled sconf = server_enabled ls False" "s_queue sconf = server_queue ls None" "s_rules sconf = server_rules api ls"
    using c by (simp_all add: config_server_create_def)
  let ?ds = "List.map_filter (\<lambda>p. dconfs (Some p)) secs"
  have res: "res = andthen (walk config_perdir_merge base ?ds) (\<lambda>dconf. banip_fixup api alive send sconf dconf r w)"
    unfolding assms(6) serve_request_def by (simp add: section_conf_def)
  show ?thesis
  proof (cases "\<exists>p\<in>set secs. \<exists>l\<in>set ls. fst l = Some p")
    case True
    then obtain d ds where "?ds = d # ds" using configured_sections [OF assms(1), of secs] by (cases ?ds) auto
    moreover have "\<forall>x y. config_perdir_merge x y = Undef Uninit_Read" by (simp add: config_perdir_merge_def)
    ultimately have "res = Undef Uninit_Read" using assms(2) unfolding res dir_walk_law_def by (metis andthen.simps(2))
    then show ?thesis using True s by simp
  next
    case False
    then have "?ds = []" using configured_sections [OF assms(1), of secs] by blast
    then have "res = banip_fixup api alive send sconf base r w" using assms(2) unfolding res dir_walk_law_def by simp
    then show ?thesis using False s
        fixup_rules_decision [where alive = alive and r = r and dconf = base and api = api and rules = "s_rules sconf" and send = send and w = w, OF assms(3)]
      unfolding assms(5) by (auto simp: banip_fixup_def)
  qed
qed

fun sample_walk :: "'d dir_walk" where
  "sample_walk m b [] = Ret b"
| "sample_walk m b (d # ds) = andthen (m b d) (\<lambda>c. sample_walk m c ds)"

lemma sample_walk_law: "dir_walk_law sample_walk"
  by (simp add: dir_walk_law_def)

definition sample_file :: "string config_line list" where
  "sample_file =
     [(None, sample_rule None [], BanIPRule [''=/admin'']), (Some ''/srv'', sample_rule None [], BanIPRule [''=/private'']),
      (None, sample_rule None [], BanIPQueue ''/banipd''), (None, sample_rule None [], BanIPEnable True)]"

text \<open>Outside of the section the request is judged by the rule of the server; in the section the merge is undefined.\<close>

theorem banip_configuration_decides_witness:
  "\<exists>sconf dconfs. run_directives sample_apr_api sample_file initial_config = (None, sconf, dconfs) \<and>
    s_queue sconf = Some ''/banipd'' \<and>
    (\<exists>d ms. serve_request sample_apr_api (\<lambda>p. p = 1) sample_walk (\<lambda>r w. w @ [useragent_ip r])
        (sconf, dconfs(None \<mapsto> (section_conf dconfs None)\<lparr>p_get := None\<rparr>)) [''/home''] (sample_request ''/admin'' None) [] =
      Ret (HTTP_FORBIDDEN, d, ms, [''192.0.2.1''])) \<and>
    (\<exists>d ms. serve_request sample_apr_api (\<lambda>p. p = 1) sample_walk (\<lambda>r w. w @ [useragent_ip r])
        (sconf, dconfs(None \<mapsto> (section_conf dconfs None)\<lparr>p_get := None\<rparr>)) [''/home''] (sample_request ''/private'' None) [] =
      Ret (DECLINED, d, ms, [])) \<and>
    serve_request sample_apr_api (\<lambda>p. p = 1) sample_walk (\<lambda>r w. w @ [useragent_ip r])
        (sconf, dconfs(None \<mapsto> (section_conf dconfs None)\<lparr>p_get := None\<rparr>)) [''/srv''] (sample_request ''/private'' None) [] = Undef Uninit_Read"
proof -
  obtain sconf dconfs where r: "run_directives sample_apr_api sample_file initial_config = (None, sconf, dconfs)"
    by (simp add: sample_file_def cmd_banip_rule_def cmd_banip_queue_def cmd_banip_enable_def compile_rule_def string_compile_def Let_def initial_config_def)
  have f: "server_enabled sample_file False" "server_queue sample_file None = Some ''/banipd''"
    "server_rules sample_apr_api sample_file = [\<lparr>r_what = None, r_pattern = ''/admin'', r_regexp = None, r_compiler = String_Compiler\<rparr>]"
    by (simp_all add: sample_file_def server_enabled_def server_queue_def rule_of_def compile_rule_def string_compile_def sample_rule_def Let_def)
  have h: "list_ex (rule_hits sample_apr_api (sample_request u None) args) (server_rules sample_apr_api sample_file) \<longleftrightarrow> u = ''/admin''" for u args
    unfolding f(3) by (auto simp: rule_hits_def variable_value_def rule_matches_def sample_request_def)
  have c: "cache_ok (\<lambda>p. p = 1) ((section_conf dconfs None)\<lparr>p_get := None\<rparr>)" by (simp add: cache_ok_def)
  have p: "r_pool (sample_request u q) = 1" for u q by (simp add: sample_request_def)
  have out: "\<not> (\<exists>p\<in>set [''/home'']. \<exists>l\<in>set sample_file. fst l = Some p)" and sec: "\<exists>p\<in>set [''/srv'']. \<exists>l\<in>set sample_file. fst l = Some p"
    by (simp_all add: sample_file_def)
  note d = banip_configuration_decides [where alive = "\<lambda>p. p = 1" and send = "\<lambda>r w. w @ [useragent_ip r]" and w = "[]" and cache = None,
    OF r sample_walk_law p refl refl refl]
  note a = d [of "[''/home'']" "''/admin''" None, unfolded if_not_P [OF out] h] and b = d [of "[''/home'']" "''/private''" None, unfolded if_not_P [OF out] h]
    and e = d [of "[''/srv'']" "''/private''" None, unfolded if_P [OF sec]]
  show ?thesis using r a b e c f(1,2) by (simp add: sample_request_def)
qed

end
