(* ===== verification/Spec2Isabelle.thy ===== *)
theory Spec2Isabelle
  imports Posix_Boot Systemv_Boot Matchnet Capsicum Pftest Varnish Npf Nftables Apache_Config
begin

text \<open>
  A verification development for banip: a daemon, \<open>banipd\<close>, reads addresses from a message queue and bans
  them with a packet filter; clients (a command line program and modules for Varnish and Apache) put
  the addresses into the queue.

  \<^bold>\<open>The program and its parts.\<close>  A client opens the queue as a sender (\<open>queues/queue.h\<close>, with the
  implementations \<open>queues/posix.c\<close> and \<open>queues/systemv.c\<close>) and sends a text: \<open>host\<close> or \<open>host/prefix\<close>.  The
  daemon (\<open>banipd.c\<close>) reads its options, creates the queue as its owner, picks an engine
  (\<open>engine.c\<close>, \<open>engine.h\<close>), drops its privileges and loops: receive a message into a buffer, parse it
  (\<open>parse.c\<close>) into an address, a family and a prefix length with the host part cleared, call the engine,
  print and forget an error (\<open>queues/error.c\<close>).  Engines are \<open>pf.c\<close>, \<open>npf.c\<close>, \<open>nftables.c\<close>, \<open>ipset.c\<close>,
  \<open>iptables.c\<close> (the last two through \<open>command.c\<close>) and \<open>dummy.c\<close>.

  \<^bold>\<open>Theories\<close>, in the order of their imports.

  \<^item> \<open>Prelude\<close>: the outcome of a piece of C (\<open>Ret\<close> or \<open>Undef\<close> with the reason: null dereference, access out of
    bounds, invalid free, use of an indeterminate value, failed assertion), sequencing \<open>andthen\<close>, cells of
    arrays (\<open>peek\<close>, \<open>poke\<close>, \<open>write_at\<close>, \<open>c_str\<close>), the process (\<open>errno\<close>, \<open>umask\<close>, diagnostics and the
    world \<open>'w\<close> outside), system calls, and the shared lemmas.
  \<^item> \<open>Netmask\<close>: the block of \<open>parse_addr\<close> that builds the mask in four 32-bit words and applies it, for both byte
    orders; its loops with their termination, and the reference \<open>network\<close> on bits.  The locale
    \<open>prefix_mask\<close> is what every producer of masks promises.
  \<^item> \<open>CString\<close> (\<open>missing/strlcpy.c\<close>), \<open>Errors\<close> (\<open>queues/error.c\<close>, \<open>error.h\<close>), \<open>Parse\<close> and \<open>Parse_Total\<close> (\<open>parse.c\<close>):
    \<open>parse_ulong\<close> with \<open>strtoul\<close> at 64 bits, \<open>parse_addr\<close> with its two branches, what is accepted, with
    which value, and when a call is defined.
  \<^item> \<open>Queue\<close>: the seven operations of \<open>queue.h\<close> as a record and their contract as the locale
    \<open>queue_backend\<close>; what a receiver relies on is the locale \<open>message_channel\<close>.  Both are interpreted in
    \<open>Posix_Queue\<close> and in \<open>Systemv_Queue\<close>, which model every operation of \<open>posix.c\<close> and \<open>systemv.c\<close>.
  \<^item> \<open>Engine\<close>: the table of functions and the locale \<open>engine_contract\<close>, interpreted for \<open>dummy.c\<close>, \<open>pf.c\<close>
    and \<open>npf.c\<close>; \<open>Command\<close> (\<open>command.c\<close>, \<open>ipset.c\<close>, \<open>iptables.c\<close>, which do not keep the contract), \<open>Pf\<close>,
    \<open>Npf\<close>, \<open>Nftables\<close>, and the registry \<open>Engines\<close> (\<open>engine.c\<close>).
  \<^item> \<open>Matchnet\<close> and \<open>Capsicum\<close>: code that \<open>#if 0\<close> disables, as it would behave in the program: the two functions of
    \<open>parse.c\<close> that match an address with a network (two more instances of \<open>prefix_mask\<close>), and the wrappers of
    \<open>queues/capsicum.c\<close>.
  \<^item> \<open>Getopt\<close>: \<open>getopt_long\<close> with short and long, joined and abbreviated options, and the spellings that it reads
    back.  \<open>Daemon\<close>: \<open>main\<close> of \<open>banipd.c\<close> cut at its phases (the command line, options, the steps of the start, one
    iteration, signals, cleanup), and the step relation \<open>daemon_step\<close> of the running daemon, with steps of other
    processes.  \<open>Daemon_Correct\<close>: what one iteration does.
  \<^item> \<open>Refinement\<close>: runs of events and repeated steps, and what carries over from single ones (the locales
    \<open>event_refinement\<close> and \<open>step_refinement\<close>, the second a special case of the first).  \<open>Daemon_Refinement\<close>: the
    abstract specification, the daemon behind any channel (the locale \<open>server_channel\<close>, interpreted for both
    queues) and the simulation.
  \<^item> \<open>Cli\<close> (\<open>banip-cli.c\<close>), \<open>Pftest\<close> (\<open>pftest.c\<close>), \<open>Varnish\<close> (\<open>clients/varnish4/vmod_msgsend.c\<close>), \<open>Apache\<close> and
    \<open>Apache_Config\<close> (\<open>clients/apache24/mod_banip.c\<close>, and whole files of its directives).
  \<^item> \<open>Traffic\<close>: clients and daemon on one queue as lists of events, and what every interleaving does, once for both queues
    (the locale \<open>client_channel\<close>, interpreted in \<open>Posix_System\<close> and \<open>Systemv_System\<close>).  \<open>Boot\<close>: the daemon from its command
    line to the loop (the locale \<open>startable_queue\<close>, interpreted in \<open>Posix_Boot\<close> and \<open>Systemv_Boot\<close>).  \<open>Posix_Boot\<close>
    has the second daemon for a queue and the end with \<open>ipset\<close> as well; \<open>Systemv_Boot\<close> the whole life over System V queues.

  \<^bold>\<open>How code is modelled.\<close>  A structure is a record, an object reached through a pointer is passed and
  returned, a null pointer is \<open>None\<close>; \<open>char **error\<close> is \<open>errp\<close>: a null pointer, or a variable with or
  without a message.  Messages are kept as format and arguments.  Every function returns an outcome, so that
  undefined behaviour is a value and theorems say that it does not occur, or when it does.  Words have
  the width they have in C.  The macro \<open>DEBUG\<close> is off, and the macros of \<open>queues/capsicum.h\<close> are \<open>true\<close>, as the
  header has them, except in \<open>Capsicum\<close>.

  \<^bold>\<open>What is outside.\<close>  The C library (\<open>libc\<close>, with allocation, formatting and byte order), the resolver
  (\<open>netlib\<close>: \<open>inet_pton\<close>, \<open>getaddrinfo\<close>), the queues of the kernel (\<open>mq_api\<close>, \<open>sysv_api\<close>), the device
  of the packet filter (\<open>pf_api\<close>, \<open>npf_api\<close>), the netlink libraries (\<open>nft_api\<close>), the shell, the system calls of
  the daemon (\<open>os_api\<close>) and the functions of Apache (\<open>apr_api\<close>) are records of functions on \<open>'w\<close>.  What
  the code relies on are named laws, such as \<open>inet_pton_sound\<close>, \<open>gai_numeric\<close>, \<open>mq_kernel\<close>, \<open>pf_add_law\<close> and
  \<open>pf_frame_law\<close>; for each there is a sample instance, at which the witnesses apply the theorems.
  \<open>os_grants\<close> says what the start of the daemon relies on: the calls that it makes succeed, those that change the identity in the privileged
  states \<open>priv\<close> only, and the groups that the options name and the account it drops to exist.  \<open>getopt_long\<close> of the C library is
  modelled from its documentation (\<open>Getopt\<close>), so that theorems can start from the command line; its diagnostics are not kept.
  The directory walk of Apache is the parameter \<open>walk\<close> with the law \<open>dir_walk_law\<close>, its pools are numbers of which some are \<open>alive\<close>.

  \<^bold>\<open>What is shown.\<close>
  \<^item> The system: from its command line the daemon gets to its loop, and then every interleaving of clients and
    iterations in which nobody has to wait and the messages of clients fit and have a prefix, if any, that is a number other
    than 0 and \<open>ULONG_MAX\<close> (\<open>event_allowed\<close>) bans exactly the networks of the messages that were handled, first in,
    first out (\<open>system_from_start\<close>, \<open>system_interleaving\<close>), and a signal ends the daemon cleanly
    (\<open>system_lifecycle\<close>); over System V queues \<open>systemv_interleaving\<close> and \<open>systemv_lifecycle\<close> show the same, with the
    smaller bounds of that implementation; a message given to \<open>banip-cli\<close> ends up as a banned network (\<open>client_to_packet_filter\<close>);
    the loop of the daemon refines a specification with a list of messages and a set of banned addresses
    (\<open>daemon_refines_spec\<close>).
  \<^item> The daemon: one iteration bans exactly the addresses that agree with the host on the prefix; on
    messages whose prefix, if any, is a number other than 0 and \<open>ULONG_MAX\<close> it is defined; the loop keeps its state; the end on a signal gives
    everything back; privileges are dropped; the options do what the manual says, in every spelling
    (\<open>documented_options_take_effect\<close>).  One ill-formed
    message makes the loop undefined (\<open>daemon_iteration_crash\<close>), a second daemon removes the queue of the first
    (\<open>second_daemon_removes_queue\<close>), and with \<open>ipset\<close> there is no clean end (\<open>ipset_daemon_ends_undefined\<close>).
  \<^item> Masks and parsing: the word loops of \<open>parse.c\<close> and of \<open>pf.c\<close> compute the same masks, in bounds, and
    clear exactly the host part; the accepted texts and their values; the invariant of \<open>addr_t\<close>.
  \<^item> Queues: what is sent arrives, owner and sender meet, lifecycles leave nothing behind, the bounds
    of the buffers, and where the implementations break the contract of the header.
  \<^item> Engines and clients: what each call of the handle adds to the filter; the decisions of the hook, under
    every configuration file, and of the output filter of Apache, with the requests on which the hook reads freed memory
    (the cached query of an earlier request) or the merge of configurations an unassigned pointer; the lifecycle of the object of Varnish.

  \<^bold>\<open>Loops and fuel.\<close>  All loops of the program are total functions with a termination proof or are structural,
  except the loop over the answers in \<open>nftables_handle\<close>: it is a partial function into \<open>option\<close>, and
  \<open>nftables_handle_terminates\<close> shows that it returns when finitely many answers wait.  The endless loop of the
  daemon is the step relation, runs of a given number of iterations are \<open>repeat_step\<close>, and runs of the system are
  lists of events.  No fuel is used.

  \<^bold>\<open>Not modelled.\<close>  \<open>npf_open\<close>, \<open>nftables_open\<close>, the initialiser of \<open>nftables_engine\<close>, and the three functions
  of \<open>mod_banip.c\<close> that open, use and close the queue, because they do not compile (missing parentheses,
  macros and functions called with the wrong number of arguments): the sending function is a parameter
  there.  The lines of \<open>parse.c\<close> inside \<open>#if 0\<close> that stand outside of every function; the client for PHP, which
  calls the functions of that language for System V queues.  \<open>sa_flags\<close>, which \<open>main\<close> passes uninitialised to \<open>sigaction\<close>, has no
  counterpart; signals are handled between two iterations and not inside of one; \<open>1 << 31\<close> in \<open>parse.c\<close> has the value
  that compilers give to it (\<open>mask_part\<close>); virtual hosts of Apache are left out.  The theorems on
  the whole system are about the packet filter of the BSDs; for the other engines there are the
  theorems on each operation.
\<close>

section \<open>From the start of the daemon to the packet filter\<close>

text \<open>C1: the whole system, from the command line on.  The daemon is started with the options \<open>-d\<close>, \<open>-g\<close>, \<open>-l\<close>, \<open>-p\<close>, \<open>-q\<close>, \<open>-t\<close>, \<open>-v\<close> in any
  spelling, among them a queue, which nobody has, and a table, on a system that grants its start and whose packet filter grants additions.  It
  gets to its loop.  Then clients send messages and the daemon runs iterations in any order in which nobody
  has to wait: a client sends while fewer than ten messages wait, the daemon iterates while one waits.  A message has at most 1024
  characters, none of them null, and its prefix, if it has one, is a number that \<open>strtoul\<close> reads to its end, other than 0 and \<open>ULONG_MAX\<close>
  (\<open>event_allowed\<close>, \<open>clean_prefix\<close>; messages such as \<open>x/y\<close> and \<open>x/0\<close> are excluded, they can make the daemon undefined, see
  \<open>daemon_iteration_crash\<close>).  Every such run is defined, the messages are handled in the order in which they were sent, and
  after \<open>k\<close> iterations the table bans what it banned before and exactly the networks of the first \<open>k\<close> messages.\<close>

theorem system_from_start:
  assumes plat: "platform lc nl" and sys: "ban_system lc nl api papi kq kd tables" and frame: "mq_frame_law lc papi tables"
    and os: "os_grants lc os priv (system_view kq kd tables) (groups_of opts)" "priv (world s)" and pf: "pf_grants api (system_view kq kd tables)"
    and xs: "map (spelled optstr long_options) xs = map Some opts"
    and opts: "list_all plain_option opts" "last_arg CHR ''q'' opts = Some name" "last_arg CHR ''t'' opts = Some t" and t: "NUL \<notin> set t"
    and new: "kq (world s) name = None"
    and es: "\<And>B. allowed_events (event_allowed 10 1025) (spec_event nl) es ([], B)"
  shows "\<exists>ds d' s'. daemon_entry (posix_ops lc papi) lc os (bsd_build lc nl api) (prog # concat (map spell xs)) s = Ret (Running ds) \<and>
    run_events (system_step (posix_ops lc papi) lc nl name p) es ds = Ret (d', s') \<and>
    serving lc nl api kq kd name t (d', s') \<and>
    fst (daemon_abs kq tables name t (world s')) = drop (handled es) (sent es) \<and>
    (\<forall>f ip. length ip = af_length f \<longrightarrow>
      (pf_banned tables (world s') (take 31 t) f ip \<longleftrightarrow>
        pf_banned tables (world s) (take 31 t) f ip \<or> (\<exists>m \<in> set (take (handled es) (sent es)). (f, ip) \<in> spec_bans nl m)))"
  using started_system_runs [OF assms, of prog p] by blast

theorem system_from_start_witness:
  "\<exists>ds d' s'. daemon_entry (posix_ops sample_libc pair_mq_api) sample_libc sample_os (bsd_build sample_libc sample_netlib pair_pf_api)
      [''banipd'', ''-v'', ''--queue'', ''/banipd'', ''-tban''] (sample_proc pair_world0) = Ret (Running ds) \<and>
    run_events (system_step (posix_ops sample_libc pair_mq_api) sample_libc sample_netlib ''/banipd'' (sample_proc pair_world0))
      [Client ''10.1.2.3'', Client ''10.9.9.9'', Iterate] ds = Ret (d', s') \<and>
    fst (daemon_abs (sk_queues \<circ> fst) snd ''/banipd'' ''ban'' (world s')) = [''10.9.9.9'']"
proof -
  have "NUL \<notin> set ''ban''" "(sk_queues \<circ> fst) (world (sample_proc pair_world0)) ''/banipd'' = None"
    by (simp_all add: sample_proc_def pair_world0_def sample_kernel0_def)
  moreover have "allowed_events (event_allowed 10 1025) (spec_event (sample_netlib :: sample_pair netlib))
      [Client ''10.1.2.3'', Client ''10.9.9.9'', Iterate] ([], B)" for B by (simp add: clean_prefix_def)
  ultimately have "\<exists>ds d' s'. daemon_entry (posix_ops sample_libc pair_mq_api) sample_libc sample_os (bsd_build sample_libc sample_netlib pair_pf_api)
      (''banipd'' # concat (map spell sample_arguments)) (sample_proc pair_world0) = Ret (Running ds) \<and>
    run_events (system_step (posix_ops sample_libc pair_mq_api) sample_libc sample_netlib ''/banipd'' (sample_proc pair_world0))
      [Client ''10.1.2.3'', Client ''10.9.9.9'', Iterate] ds = Ret (d', s') \<and>
    fst (daemon_abs (sk_queues \<circ> fst) snd ''/banipd'' ''ban'' (world s')) =
      drop (handled [Client ''10.1.2.3'', Client ''10.9.9.9'', Iterate]) (sent [Client ''10.1.2.3'', Client ''10.9.9.9'', Iterate])"
    using system_from_start [OF sample_platform pair_system pair_mq_frame pair_grants(1) TrueI pair_grants(3) sample_options_plain] by blast
  then show ?thesis by (simp add: sample_arguments_def)
qed



section \<open>From the client to the packet filter\<close>

text \<open>C4: the system from end to end.  While the daemon serves its queue, and the queue has room, the command line client is called with the
  name of the queue and a message that fits the queue, has no null character and whose prefix, if it has one, is a number that \<open>strtoul\<close> reads to
  its end, other than 0 and \<open>ULONG_MAX\<close> (the messages that wait are such messages too); it delivers the message,
  prints \<open>OK\<close> and exits with success.  After one iteration of the daemon per waiting message, an address
  matches the table exactly when it did before, when it lies in the network of an earlier message, or when
  it lies in the network that the message of the client names.\<close>

theorem client_to_packet_filter:
  assumes "platform lc nl" and "ban_system lc nl api papi kq kd tables" and "mq_frame_law lc papi tables" and "NUL \<notin> set t"
    and "serving lc nl api kq kd name t (d, sd)" and "kq (world sd) name = Some (a, ms)"
    and "length ms < unat (mq_maxmsg a)" and "length msg \<le> unat (mq_msgsize a)" and "NUL \<notin> set msg" and "clean_prefix msg"
  shows "\<exists>w d' s'.
    cli_main (posix_ops lc papi) [prog, name, msg] (s\<lparr>world := world sd\<rparr>) = Ret (EXIT_SUCCESS, [''OK''], s\<lparr>world := w\<rparr>) \<and>
    repeat_step (daemon_iteration (posix_ops lc papi) lc nl) (Suc (length ms)) (d, sd\<lparr>world := w\<rparr>) = Ret (d', s') \<and>
    (\<forall>f ip. length ip = af_length f \<longrightarrow>
      (pf_banned tables (world s') (take 31 t) f ip \<longleftrightarrow>
        pf_banned tables (world sd) (take 31 t) f ip \<or> (\<exists>m \<in> set ms. (f, ip) \<in> spec_bans nl (message_text m)) \<or>
        (f, ip) \<in> spec_bans nl msg))"
proof -
  have kernel: "mq_kernel lc papi kq kd" and al: "allocates lc" using assms(1,2) by (simp_all add: ban_system_def platform_def)
  obtain w where cli: "cli_main (posix_ops lc papi) [prog, name, msg] (s\<lparr>world := world sd\<rparr>) = Ret (EXIT_SUCCESS, [''OK''], s\<lparr>world := w\<rparr>)"
    and k: "kq w = (kq (world sd))(name \<mapsto> (a, ms @ [msg]))" "kd w = kd (world sd)"
    using cli_delivers_to [OF kernel al, of "s\<lparr>world := world sd\<rparr>" name a ms msg prog] assms(6-8) by auto
  have tab: "tables w = tables (world sd)" using cli_main_frame [OF assms(3) cli] by simp
  have tx: "message_text msg = msg" using assms(9) by (rule message_text_id)
  have "serving lc nl api kq kd name t (d, sd\<lparr>world := w\<rparr>)"
    using assms(5,6,8,10) k tx by (fastforce simp: serving_def)
  from serving_drains [OF assms(1,2,4) this, of a "ms @ [msg]"] k(1)
  obtain d' s' where run: "repeat_step (daemon_iteration (posix_ops lc papi) lc nl) (Suc (length ms)) (d, sd\<lparr>world := w\<rparr>) = Ret (d', s')"
    and ban: "\<forall>f ip. length ip = af_length f \<longrightarrow> (pf_banned tables (world s') (take 31 t) f ip \<longleftrightarrow>
      pf_banned tables w (take 31 t) f ip \<or> (\<exists>m \<in> set (ms @ [msg]). (f, ip) \<in> spec_bans nl (message_text m)))"
    by auto
  have "pf_banned tables w = pf_banned tables (world sd)" using tab by (simp add: pf_banned_def fun_eq_iff)
  with cli run ban tx show ?thesis by (intro exI [of _ w] exI [of _ d'] exI [of _ s']) auto
qed

theorem client_to_packet_filter_witness:
  "\<exists>w d' s'.
    cli_main (posix_ops sample_libc pair_mq_api) [''banip-cli'', ''/banipd'', ''10.1.2.3''] (sample_proc pair_world) =
      Ret (EXIT_SUCCESS, [''OK''], (sample_proc pair_world)\<lparr>world := w\<rparr>) \<and>
    repeat_step (daemon_iteration (posix_ops sample_libc pair_mq_api) sample_libc sample_netlib) 3
      (fst pair_daemon, (snd pair_daemon)\<lparr>world := w\<rparr>) = Ret (d', s') \<and>
    pf_banned snd (world s') ''ban'' AF_INET [10, 1, 2, 3]"
proof -
  obtain d s where ds: "pair_daemon = (d, s)" and w: "world s = pair_world" by (simp add: pair_daemon_def sample_proc_def)
  have q: "(sk_queues \<circ> fst) (world s) ''/banipd'' = Some (\<lparr>mq_maxmsg = 10, mq_msgsize = 1024\<rparr>, [''192.0.2.77/24'', ''nonsense''])"
    using w by (simp add: pair_world_def)
  have "ban_of (sample_netlib :: sample_pair netlib) ''10.1.2.3'' = Some (AF_INET, [10, 1, 2, 3], 32)"
    by (simp add: ban_of_def sample_netlib_def sample_inet_pton_def dotted_quad_def octet_def is_digit_def)
  then have ban: "(AF_INET, [10, 1, 2, 3]) \<in> spec_bans (sample_netlib :: sample_pair netlib) ''10.1.2.3''"
    by (simp add: spec_bans_def same_network_def list_all_iff)
  have pw: "(sample_proc pair_world)\<lparr>world := world s\<rparr> = sample_proc pair_world" using w by (simp add: sample_proc_def)
  have "NUL \<notin> set ''ban''" "clean_prefix ''10.1.2.3''" "NUL \<notin> set ''10.1.2.3''" by (simp_all add: clean_prefix_def)
  note e2e = client_to_packet_filter [OF sample_platform pair_system pair_mq_frame this(1) pair_serving [unfolded ds] q _ _ this(3,2),
      of "''banip-cli''" "sample_proc pair_world", unfolded pw]
  then obtain w d' s' where r: "cli_main (posix_ops sample_libc pair_mq_api) [''banip-cli'', ''/banipd'', ''10.1.2.3''] (sample_proc pair_world) =
      Ret (EXIT_SUCCESS, [''OK''], (sample_proc pair_world)\<lparr>world := w\<rparr>)"
    "repeat_step (daemon_iteration (posix_ops sample_libc pair_mq_api) sample_libc sample_netlib) 3 (d, s\<lparr>world := w\<rparr>) = Ret (d', s')"
    "\<forall>f ip. length ip = af_length f \<longrightarrow> (f, ip) \<in> spec_bans (sample_netlib :: sample_pair netlib) ''10.1.2.3'' \<longrightarrow>
      pf_banned snd (world s') ''ban'' f ip"
    by (auto simp: numeral_3_eq_3)
  have "pf_banned snd (world s') ''ban'' AF_INET [10, 1, 2, 3]" using r(3) ban by (simp add: af_length_def)
  then show ?thesis unfolding ds fst_conv snd_conv using r(1,2) by blast
qed

end
